(* ===== verification/Em_Prelude.thy ===== *)
theory Em_Prelude
  imports Main "HOL-Library.Word"
begin

text \<open>
  The ground the other theories share: the machine types of the C++ code, the faults a run can
  end in, and a state monad with faults in which every operation of the library is written.

  \<^item> \<open>cint\<close> is a C++ \<open>int\<close> (32 bits, two's complement: signed tests are \<open><s\<close>, \<open>scast\<close> widens),
    \<open>csize\<close> is \<open>size_t\<close> and \<open>uint64_t\<close>, \<open>u8\<close> is \<open>uint8_t\<close>, \<open>uptr\<close> is a pointer into the memory of
    the user of the library (buffers, paths, socket addresses), which the code only passes on.
  \<^item> Objects the library itself allocates (coroutine frames, task statuses, \<open>RequestData\<close>) live in
    stores keyed by \<open>addr\<close>; a null pointer is \<open>None\<close>. An address is never reused, so that a
    dangling pointer stays recognisable.
  \<^item> \<open>fault\<close> lists the ways an execution leaves the defined behaviour of C++, plus the three
    outcomes that are not undefined behaviour: an exception that leaves the library, a wait that
    blocks for ever, and the end of the fuel of a bounded run.
  \<^item> \<open>keeps R m\<close> says that every fault-free run of \<open>m\<close> relates its first to its last state by \<open>R\<close>;
    \<open>keeping\<close> is the locale of the relations for which this composes.
\<close>

type_synonym cint = "32 word"
type_synonym csize = "64 word"
type_synonym u8 = "8 word"
type_synonym uptr = "64 word"
type_synonym addr = nat

datatype fault =
    NullDereference
  | UseAfterFree
  | InactiveUnionMember
  | OutOfRangeIndex
  | ResumeNotSuspended
  | UninitialisedCqe
  | UncaughtException
  | WaitsForever
  | OutOfFuel

type_synonym ('w, 'a) op = "'w \<Rightarrow> fault + 'a \<times> 'w"

definition returnM :: "'a \<Rightarrow> ('w, 'a) op" where
  "returnM x = (\<lambda>w. Inr (x, w))"

definition bindM :: "('w, 'a) op \<Rightarrow> ('a \<Rightarrow> ('w, 'b) op) \<Rightarrow> ('w, 'b) op" where
  "bindM m k = (\<lambda>w. case m w of Inl e \<Rightarrow> Inl e | Inr (x, w') \<Rightarrow> k x w')"

definition thenM :: "('w, 'a) op \<Rightarrow> ('w, 'b) op \<Rightarrow> ('w, 'b) op" where
  "thenM m n = bindM m (\<lambda>_. n)"

definition faultM :: "fault \<Rightarrow> ('w, 'a) op" where
  "faultM e = (\<lambda>w. Inl e)"

definition getM :: "('w \<Rightarrow> 'a) \<Rightarrow> ('w, 'a) op" where
  "getM f = (\<lambda>w. Inr (f w, w))"

definition modifyM :: "('w \<Rightarrow> 'w) \<Rightarrow> ('w, unit) op" where
  "modifyM f = (\<lambda>w. Inr ((), f w))"

text \<open>The value behind a pointer that may be null or dangling.\<close>

definition derefM :: "fault \<Rightarrow> 'a option \<Rightarrow> ('w, 'a) op" where
  "derefM e p = (case p of None \<Rightarrow> faultM e | Some x \<Rightarrow> returnM x)"

definition whenM :: "bool \<Rightarrow> ('w, unit) op \<Rightarrow> ('w, unit) op" where
  "whenM b m = (if b then m else returnM ())"

fun mapM :: "('a \<Rightarrow> ('w, 'b) op) \<Rightarrow> 'a list \<Rightarrow> ('w, 'b list) op" where
  "mapM f [] = returnM []"
| "mapM f (x # xs) = bindM (f x) (\<lambda>y. bindM (mapM f xs) (\<lambda>ys. returnM (y # ys)))"

named_theorems runs "how the combinators and the operations run on a state"

lemma returnM_run [runs, simp]: "returnM x w = Inr (x, w)"
  by (simp add: returnM_def)

lemma bindM_run [runs]:
  "bindM m k w = (case m w of Inl e \<Rightarrow> Inl e | Inr (x, w') \<Rightarrow> k x w')"
  by (simp add: bindM_def)

lemma thenM_run [runs]:
  "thenM m n w = (case m w of Inl e \<Rightarrow> Inl e | Inr (x, w') \<Rightarrow> n w')"
  by (simp add: thenM_def bindM_def)

lemma faultM_run [runs, simp]: "faultM e w = Inl e"
  by (simp add: faultM_def)

lemma getM_run [runs, simp]: "getM f w = Inr (f w, w)"
  by (simp add: getM_def)

lemma modifyM_run [runs, simp]: "modifyM f w = Inr ((), f w)"
  by (simp add: modifyM_def)

lemma derefM_run [runs]:
  "derefM e p w = (case p of None \<Rightarrow> Inl e | Some x \<Rightarrow> Inr (x, w))"
  by (simp add: derefM_def split: option.splits)

lemma whenM_run [runs]: "whenM b m w = (if b then m w else Inr ((), w))"
  by (simp add: whenM_def)

text \<open>The monad laws, so that long operations can be cut at any point.\<close>

lemma bindM_return_left [simp]: "bindM (returnM x) k = k x"
  by (simp add: bindM_def fun_eq_iff)

lemma bindM_return_right [simp]: "bindM m returnM = m"
  by (simp add: bindM_def fun_eq_iff split: sum.splits prod.splits)

lemma bindM_assoc: "bindM (bindM m k) l = bindM m (\<lambda>x. bindM (k x) l)"
  by (simp add: bindM_def fun_eq_iff split: sum.splits prod.splits)

text \<open>Inversion: how a run can have ended without a fault.\<close>

lemma bindM_Inr_iff:
  "bindM m k w = Inr z \<longleftrightarrow> (\<exists>x w'. m w = Inr (x, w') \<and> k x w' = Inr z)"
  by (auto simp: bindM_run split: sum.splits)

lemma thenM_Inr_iff:
  "thenM m n w = Inr z \<longleftrightarrow> (\<exists>x w'. m w = Inr (x, w') \<and> n w' = Inr z)"
  by (auto simp: thenM_run split: sum.splits)

lemma derefM_Inr_iff: "derefM e p w = Inr (x, w') \<longleftrightarrow> p = Some x \<and> w' = w"
  by (auto simp: derefM_run split: option.splits)

lemma whenM_Inr_iff:
  "whenM b m w = Inr (x, w') \<longleftrightarrow> (if b then m w = Inr (x, w') else w' = w)"
  by (auto simp: whenM_run)

lemmas run_iffs = bindM_Inr_iff thenM_Inr_iff derefM_Inr_iff whenM_Inr_iff

subsection \<open>Two-state properties of fault-free runs\<close>

definition keeps :: "('w \<Rightarrow> 'w \<Rightarrow> bool) \<Rightarrow> ('w, 'a) op \<Rightarrow> bool" where
  "keeps R m \<longleftrightarrow> (\<forall>w x w'. m w = Inr (x, w') \<longrightarrow> R w w')"

lemma keepsI: "(\<And>w x w'. m w = Inr (x, w') \<Longrightarrow> R w w') \<Longrightarrow> keeps R m"
  by (simp add: keeps_def)

lemma keepsD: "keeps R m \<Longrightarrow> m w = Inr (x, w') \<Longrightarrow> R w w'"
  by (auto simp: keeps_def)

locale keeping =
  fixes R :: "'w \<Rightarrow> 'w \<Rightarrow> bool"
  assumes refl: "R w w"
    and trans: "R u v \<Longrightarrow> R v w \<Longrightarrow> R u w"
begin

lemma keeps_return: "keeps R (returnM x)"
  by (simp add: keeps_def refl)

lemma keeps_fault: "keeps R (faultM e)"
  by (simp add: keeps_def)

lemma keeps_get: "keeps R (getM f)"
  by (simp add: keeps_def refl)

lemma keeps_deref: "keeps R (derefM e p)"
  by (auto simp: keeps_def derefM_Inr_iff refl)

lemma keeps_bind:
  assumes "keeps R m" and "\<And>x. keeps R (k x)"
  shows "keeps R (bindM m k)"
  using assms unfolding keeps_def bindM_Inr_iff by (blast intro: trans)

lemma keeps_then:
  assumes "keeps R m" and "keeps R n"
  shows "keeps R (thenM m n)"
  using assms unfolding keeps_def thenM_Inr_iff by (blast intro: trans)

lemma keeps_when:
  assumes "keeps R m"
  shows "keeps R (whenM b m)"
  using assms by (simp add: whenM_def keeps_return)

lemma keeps_mapM:
  assumes "\<And>x. keeps R (f x)"
  shows "keeps R (mapM f xs)"
  by (induction xs) (simp_all only: mapM.simps keeps_return keeps_bind assms)

lemma keeps_modify: "(\<And>w. R w (f w)) \<Longrightarrow> keeps R (modifyM f)"
  by (simp add: keeps_def)

lemmas keeps_rules = keeps_return keeps_fault keeps_get keeps_deref keeps_bind keeps_then
  keeps_when keeps_mapM

end

text \<open>
  The simplest use: an observation that no run changes. \<open>preserves f\<close> is the relation that two
  states agree on \<open>f\<close>, and \<open>invariance I\<close> the relation that an invariant is not lost.
\<close>

definition preserves :: "('w \<Rightarrow> 'a) \<Rightarrow> 'w \<Rightarrow> 'w \<Rightarrow> bool" where
  "preserves f w w' \<longleftrightarrow> f w' = f w"

definition invariance :: "('w \<Rightarrow> bool) \<Rightarrow> 'w \<Rightarrow> 'w \<Rightarrow> bool" where
  "invariance I w w' \<longleftrightarrow> (I w \<longrightarrow> I w')"

interpretation same: keeping "preserves f" for f :: "'w \<Rightarrow> 'a"
  by unfold_locales (auto simp: preserves_def)

interpretation stable: keeping "invariance I" for I :: "'w \<Rightarrow> bool"
  by unfold_locales (auto simp: invariance_def)

end
