(* ===== verification/Em_Errors.thy ===== *)
theory Em_Errors
  imports Em_Prelude
begin

text \<open>
  \<open>errors.hpp\<close>. \<open>ErrorCodes\<close> is the variant that carries an error to the user: no error, an error of
  the event manager, an error of a submission to io_uring, or an error of the operation itself.
  The three enums have a fixed underlying type \<open>uint8_t\<close>, so an object of one of them can hold any
  of the 256 values (\<open>static_cast\<close> truncates to the low eight bits); they are modelled by their
  underlying value, with the named values as constants and as the table \<open>Errnos_table\<close>.
\<close>

datatype ErrorType = NO_ERR | EVENT_MANAGER_ERR | LIBURING_SUBMISSION_ERR_ERRNO | OPERATION_ERR_ERRNO

fun ErrorType_value :: "ErrorType \<Rightarrow> nat" where
  "ErrorType_value NO_ERR = 0"
| "ErrorType_value EVENT_MANAGER_ERR = 1"
| "ErrorType_value LIBURING_SUBMISSION_ERR_ERRNO = 2"
| "ErrorType_value OPERATION_ERR_ERRNO = 3"

type_synonym EventManagerErrors = u8

definition EventManagerErrors_UNKNOWN_ERROR :: EventManagerErrors where
  "EventManagerErrors_UNKNOWN_ERROR = 0"

definition SUBMISSION_QUEUE_FULL :: EventManagerErrors where
  "SUBMISSION_QUEUE_FULL = 1"

definition SYSTEM_COMMUNICATION_CHANNEL_FAILURE :: EventManagerErrors where
  "SYSTEM_COMMUNICATION_CHANNEL_FAILURE = 2"

type_synonym Errnos = u8

definition UNKNOWN_ERROR :: Errnos where
  "UNKNOWN_ERROR = 0"

text \<open>
  The errno values the enumeration takes from \<open>cerrno\<close> rather than writing them out, as Linux
  defines them, and the enumeration itself, in its order.
\<close>

definition EAGAIN :: u8 where
  "EAGAIN = 11"

definition EDEADLK :: u8 where
  "EDEADLK = 35"

definition Errnos_table :: "(string \<times> Errnos) list" where
  "Errnos_table = [
    (''UNKNOWN_ERROR'', 0), (''ERR_PERM'', 1), (''ERR_NOENT'', 2), (''ERR_SRCH'', 3),
    (''ERR_INTR'', 4), (''ERR_IO'', 5), (''ERR_NXIO'', 6), (''ERR_2BIG'', 7), (''ERR_NOEXEC'', 8),
    (''ERR_BADF'', 9), (''ERR_CHILD'', 10), (''ERR_AGAIN'', 11), (''ERR_NOMEM'', 12),
    (''ERR_ACCES'', 13), (''ERR_FAULT'', 14), (''ERR_NOTBLK'', 15), (''ERR_BUSY'', 16),
    (''ERR_EXIST'', 17), (''ERR_XDEV'', 18), (''ERR_NODEV'', 19), (''ERR_NOTDIR'', 20),
    (''ERR_ISDIR'', 21), (''ERR_INVAL'', 22), (''ERR_NFILE'', 23), (''ERR_MFILE'', 24),
    (''ERR_NOTTY'', 25), (''ERR_TXTBSY'', 26), (''ERR_FBIG'', 27), (''ERR_NOSPC'', 28),
    (''ERR_SPIPE'', 29), (''ERR_ROFS'', 30), (''ERR_MLINK'', 31), (''ERR_PIPE'', 32),
    (''ERR_DOM'', 33), (''ERR_RANGE'', 34), (''ERR_DEADLK'', 35), (''ERR_NAMETOOLONG'', 36),
    (''ERR_NOLCK'', 37), (''ERR_NOSYS'', 38), (''ERR_NOTEMPTY'', 39), (''ERR_LOOP'', 40),
    (''ERR_WOULDBLOCK'', EAGAIN), (''ERR_NOMSG'', 42), (''ERR_IDRM'', 43), (''ERR_CHRNG'', 44),
    (''ERR_L2NSYNC'', 45), (''ERR_L3HLT'', 46), (''ERR_L3RST'', 47), (''ERR_LNRNG'', 48),
    (''ERR_UNATCH'', 49), (''ERR_NOCSI'', 50), (''ERR_L2HLT'', 51), (''ERR_BADE'', 52),
    (''ERR_BADR'', 53), (''ERR_XFULL'', 54), (''ERR_NOANO'', 55), (''ERR_BADRQC'', 56),
    (''ERR_BADSLT'', 57), (''ERR_DEADLOCK'', EDEADLK), (''ERR_BFONT'', 59), (''ERR_NOSTR'', 60),
    (''ERR_NODATA'', 61), (''ERR_TIME'', 62), (''ERR_NOSR'', 63), (''ERR_NONET'', 64),
    (''ERR_NOPKG'', 65), (''ERR_REMOTE'', 66), (''ERR_NOLINK'', 67), (''ERR_ADV'', 68),
    (''ERR_SRMNT'', 69), (''ERR_COMM'', 70), (''ERR_PROTO'', 71), (''ERR_MULTIHOP'', 72),
    (''ERR_DOTDOT'', 73), (''ERR_BADMSG'', 74), (''ERR_OVERFLOW'', 75), (''ERR_NOTUNIQ'', 76),
    (''ERR_BADFD'', 77), (''ERR_REMCHG'', 78), (''ERR_LIBACC'', 79), (''ERR_LIBBAD'', 80),
    (''ERR_LIBSCN'', 81), (''ERR_LIBMAX'', 82), (''ERR_LIBEXEC'', 83), (''ERR_ILSEQ'', 84),
    (''ERR_RESTART'', 85), (''ERR_STRPIPE'', 86), (''ERR_USERS'', 87), (''ERR_NOTSOCK'', 88),
    (''ERR_DESTADDRREQ'', 89), (''ERR_MSGSIZE'', 90), (''ERR_PROTOTYPE'', 91),
    (''ERR_NOPROTOOPT'', 92), (''ERR_PROTONOSUPPORT'', 93), (''ERR_SOCKTNOSUPPORT'', 94),
    (''ERR_OPNOTSUPP'', 95), (''ERR_PFNOSUPPORT'', 96), (''ERR_AFNOSUPPORT'', 97),
    (''ERR_ADDRINUSE'', 98), (''ERR_ADDRNOTAVAIL'', 99), (''ERR_NETDOWN'', 100),
    (''ERR_NETUNREACH'', 101), (''ERR_NETRESET'', 102), (''ERR_CONNABORTED'', 103),
    (''ERR_CONNRESET'', 104), (''ERR_NOBUFS'', 105), (''ERR_ISCONN'', 106),
    (''ERR_NOTCONN'', 107), (''ERR_SHUTDOWN'', 108), (''ERR_TOOMANYREFS'', 109),
    (''ERR_TIMEDOUT'', 110), (''ERR_CONNREFUSED'', 111), (''ERR_HOSTDOWN'', 112),
    (''ERR_HOSTUNREACH'', 113), (''ERR_ALREADY'', 114), (''ERR_INPROGRESS'', 115),
    (''ERR_STALE'', 116), (''ERR_UCLEAN'', 117), (''ERR_NOTNAM'', 118), (''ERR_NAVAIL'', 119),
    (''ERR_ISNAM'', 120), (''ERR_REMOTEIO'', 121), (''ERR_DQUOT'', 122), (''ERR_NOMEDIUM'', 123),
    (''ERR_MEDIUMTYPE'', 124), (''ERR_CANCELED'', 125), (''ERR_NOKEY'', 126),
    (''ERR_KEYEXPIRED'', 127), (''ERR_KEYREVOKED'', 128), (''ERR_KEYREJECTED'', 129),
    (''ERR_OWNERDEAD'', 130), (''ERR_NOTRECOVERABLE'', 131), (''ERR_RFKILL'', 132),
    (''ERR_HWPOISON'', 133)]"

subsection \<open>The variant and its helpers\<close>

text \<open>
  \<open>ErrorCodes\<close>: one alternative per \<open>ErrorType\<close>, in the order of the enumeration, so that the
  index of the variant is the value of the error type. \<open>ErrorTypes\<close> (the trait that maps an
  \<open>ErrorType\<close> to the type of its alternative) is the argument type of each constructor. A
  default-constructed \<open>ErrorCodes\<close> holds its first alternative, \<open>nullptr\<close>.
\<close>

datatype ErrorCodes =
    NoErr
  | EventManagerErr EventManagerErrors
  | LiburingSubmissionErr Errnos
  | OperationErr Errnos

fun ErrorCodes_index :: "ErrorCodes \<Rightarrow> nat" where
  "ErrorCodes_index NoErr = 0"
| "ErrorCodes_index (EventManagerErr e) = 1"
| "ErrorCodes_index (LiburingSubmissionErr e) = 2"
| "ErrorCodes_index (OperationErr e) = 3"

text \<open>\<open>static_cast<ErrorType>(n)\<close> for the indices a variant can have.\<close>

definition ErrorType_of :: "nat \<Rightarrow> ErrorType" where
  "ErrorType_of n = (if n = 0 then NO_ERR else if n = 1 then EVENT_MANAGER_ERR
     else if n = 2 then LIBURING_SUBMISSION_ERR_ERRNO else OPERATION_ERR_ERRNO)"

definition is_there_an_error :: "ErrorCodes \<Rightarrow> bool" where
  "is_there_an_error error = (ErrorType_of (ErrorCodes_index error) \<noteq> NO_ERR)"

text \<open>
  \<open>error.emplace<INDEX>(v)\<close>: the value that was held is destroyed, whatever it was. For
  \<open>INDEX = 0\<close> the alternative is \<open>std::nullptr_t\<close> and has no content.
\<close>

fun ErrorCodes_emplace :: "ErrorType \<Rightarrow> u8 \<Rightarrow> ErrorCodes \<Rightarrow> ErrorCodes" where
  "ErrorCodes_emplace NO_ERR v error = NoErr"
| "ErrorCodes_emplace EVENT_MANAGER_ERR v error = EventManagerErr v"
| "ErrorCodes_emplace LIBURING_SUBMISSION_ERR_ERRNO v error = LiburingSubmissionErr v"
| "ErrorCodes_emplace OPERATION_ERR_ERRNO v error = OperationErr v"

definition set_error_from_enum :: "ErrorType \<Rightarrow> ErrorCodes \<Rightarrow> u8 \<Rightarrow> ErrorCodes" where
  "set_error_from_enum Et error error_val = ErrorCodes_emplace Et error_val error"

text \<open>
  \<open>static_cast<SetErrorType>(error_num)\<close> from \<open>int\<close> to an enum over \<open>uint8_t\<close> keeps the low eight
  bits. (At \<open>NO_ERR\<close> the template cannot be instantiated: no cast from \<open>int\<close> to \<open>nullptr_t\<close>.)
\<close>

definition set_error_from_num :: "ErrorType \<Rightarrow> ErrorCodes \<Rightarrow> cint \<Rightarrow> ErrorCodes" where
  "set_error_from_num Et error error_num = ErrorCodes_emplace Et (ucast error_num) error"

definition get_error_type :: "ErrorCodes \<Rightarrow> ErrorType" where
  "get_error_type error = ErrorType_of (ErrorCodes_index error)"

text \<open>\<open>std::get_if<INDEX>\<close> and the code held, for the three types that hold one.\<close>

fun get_contained_error_code :: "ErrorType \<Rightarrow> ErrorCodes \<Rightarrow> u8 option" where
  "get_contained_error_code EVENT_MANAGER_ERR (EventManagerErr e) = Some e"
| "get_contained_error_code LIBURING_SUBMISSION_ERR_ERRNO (LiburingSubmissionErr e) = Some e"
| "get_contained_error_code OPERATION_ERR_ERRNO (OperationErr e) = Some e"
| "get_contained_error_code Et error = None"

subsection \<open>The helpers agree with one another\<close>

lemma ErrorType_of_value [simp]: "ErrorType_of (ErrorType_value t) = t"
  by (cases t) (simp_all add: ErrorType_of_def)

lemma emplace_type [simp]: "get_error_type (ErrorCodes_emplace t v e) = t"
  by (cases t) (simp_all add: get_error_type_def ErrorType_of_def)

lemma emplace_code [simp]:
  "get_contained_error_code t' (ErrorCodes_emplace t v e) =
     (if t' = t \<and> t \<noteq> NO_ERR then Some v else None)"
  by (cases t; cases t') simp_all

lemma is_there_an_error_iff: "is_there_an_error e \<longleftrightarrow> e \<noteq> NoErr"
  by (cases e) (simp_all add: is_there_an_error_def ErrorType_of_def)

lemma is_there_an_error_simps [simp]:
  "\<not> is_there_an_error NoErr"
  "is_there_an_error (EventManagerErr m)"
  "is_there_an_error (LiburingSubmissionErr n)"
  "is_there_an_error (OperationErr n)"
  by (simp_all add: is_there_an_error_iff)

lemma emplace_is_error [simp]:
  "is_there_an_error (ErrorCodes_emplace t v e) \<longleftrightarrow> t \<noteq> NO_ERR"
  by (cases t) simp_all

text \<open>The low byte of a negated number, which is what an unwanted sign leaves of an errno.\<close>

lemma ucast_uminus: "(ucast (- n :: cint) :: u8) = - ucast n"
proof -
  have "(ucast (word_of_int (- uint n) :: cint) :: u8) = word_of_int (- uint n)"
    by (rule ucast_down_wi) (simp add: is_down)
  moreover have "word_of_int (- uint n) = (- n :: cint)"
    and "word_of_int (- uint n) = (- ucast n :: u8)"
    by (simp_all only: wi_hom_neg [symmetric] word_of_int_uint ucast_eq)
  ultimately show ?thesis by simp
qed

subsection \<open>What the error codes guarantee\<close>

text \<open>
  Setting an error and reading it back: after \<open>set_error_from_enum\<close> or \<open>set_error_from_num\<close> at a
  type, whatever the variant held before, the type read is the type set, the code is found under
  that type and under no other, and \<open>is_there_an_error\<close> holds unless the type is \<open>NO_ERR\<close>; a number
  comes back as its low eight bits.
\<close>

lemma error_set_get:
  "get_error_type (set_error_from_enum t e v) = t \<and>
   get_error_type (set_error_from_num t e n) = t \<and>
   get_contained_error_code t' (set_error_from_enum t e v) =
     (if t' = t \<and> t \<noteq> NO_ERR then Some v else None) \<and>
   get_contained_error_code t' (set_error_from_num t e n) =
     (if t' = t \<and> t \<noteq> NO_ERR then Some (ucast n) else None) \<and>
   is_there_an_error (set_error_from_enum t e v) = (t \<noteq> NO_ERR) \<and>
   is_there_an_error (set_error_from_num t e n) = (t \<noteq> NO_ERR)"
  by (simp add: set_error_from_enum_def set_error_from_num_def)

text \<open>
  A failed submission is reported faithfully: for a return value \<open>-n\<close> of liburing with \<open>n\<close> one of
  the 134 values of the enumeration, \<open>set_error_from_num\<close> at \<open>LIBURING_SUBMISSION_ERR_ERRNO\<close> with the
  negated return value stores the enumerator with the value \<open>n\<close>; the names of the enumeration are
  distinct, and only \<open>ERR_WOULDBLOCK\<close> and \<open>ERR_DEADLOCK\<close> repeat the value of another.
\<close>

lemma errnos_named:
  "map (\<lambda>(name, v). get_contained_error_code LIBURING_SUBMISSION_ERR_ERRNO
        (set_error_from_num LIBURING_SUBMISSION_ERR_ERRNO NoErr (- (- ucast v)))) Errnos_table =
     map (\<lambda>(name, v). Some v) Errnos_table \<and>
   distinct (map fst Errnos_table) \<and>
   distinct (map snd [x \<leftarrow> Errnos_table. fst x \<noteq> ''ERR_WOULDBLOCK'' \<and> fst x \<noteq> ''ERR_DEADLOCK'']) \<and>
   length Errnos_table = 134"
proof -
  have "ucast (ucast v :: cint) = (v :: u8)" for v
    by (rule ucast_up_ucast_id) (simp add: is_up)
  then have 1: "map (\<lambda>(name, v). get_contained_error_code LIBURING_SUBMISSION_ERR_ERRNO
        (set_error_from_num LIBURING_SUBMISSION_ERR_ERRNO NoErr (- (- ucast v)))) Errnos_table =
     map (\<lambda>(name, v). Some v) Errnos_table"
    by (simp add: set_error_from_num_def)
  have 2: "distinct (map fst Errnos_table)" by (simp add: Errnos_table_def)
  have 3: "distinct (map snd [x \<leftarrow> Errnos_table. fst x \<noteq> ''ERR_WOULDBLOCK'' \<and> fst x \<noteq> ''ERR_DEADLOCK''])"
    by (simp add: Errnos_table_def)
  have 4: "length Errnos_table = 134" by (simp add: Errnos_table_def)
  from 1 2 3 4 show ?thesis by blast
qed

end
