(* ===== verification/Em_Channel.thy ===== *)
theory Em_Channel
  imports Em_Prelude "HOL-Library.Sublist"
begin

text \<open>
  \<open>communication/\<close>: the request types, the response packs that answer them, the variant of all the
  responses and the one-place channel through which the event loop hands a response to a coroutine.
  A C++ struct is a record, and a struct that derives from \<open>GenericResponsePack\<close> is an extension of
  that record; the traits that map a \<open>RequestType\<close> to its response are the argument types of the
  constructors of \<open>RespData\<close> together with \<open>RespData_type\<close>. The locale \<open>mailbox\<close> is the interface
  the event loop and the awaitables share; the channel is an interpretation of it.
\<close>

subsection \<open>Request types\<close>

datatype RequestType = READ | WRITE | CLOSE | SHUTDOWN | READV | WRITEV | ACCEPT | CONNECT
  | OPENAT | STATX | UNLINKAT | RENAMEAT

fun RequestType_value :: "RequestType \<Rightarrow> nat" where
  "RequestType_value READ = 0"
| "RequestType_value WRITE = 1"
| "RequestType_value CLOSE = 2"
| "RequestType_value SHUTDOWN = 3"
| "RequestType_value READV = 4"
| "RequestType_value WRITEV = 5"
| "RequestType_value ACCEPT = 6"
| "RequestType_value CONNECT = 7"
| "RequestType_value OPENAT = 8"
| "RequestType_value STATX = 9"
| "RequestType_value UNLINKAT = 10"
| "RequestType_value RENAMEAT = 11"

definition RequestTypes :: "RequestType list" where
  "RequestTypes = [READ, WRITE, CLOSE, SHUTDOWN, READV, WRITEV, ACCEPT, CONNECT, OPENAT, STATX,
     UNLINKAT, RENAMEAT]"

text \<open>
  \<open>static_cast<RequestType>(n)\<close>. The enum has the underlying type \<open>size_t\<close>, so the cast of a number
  that no enumerator has is defined, and gives a value that no \<open>case\<close> of a \<open>switch\<close> matches: \<open>None\<close>.
\<close>

definition RequestType_of :: "nat \<Rightarrow> RequestType option" where
  "RequestType_of n = (if n < length RequestTypes then Some (RequestTypes ! n) else None)"

lemma RequestType_of_value [simp]: "RequestType_of (RequestType_value t) = Some t"
  by (cases t) (simp_all add: RequestType_of_def RequestTypes_def)

lemma RequestType_of_monostate [simp]: "RequestType_of 12 = None"
  by (simp add: RequestType_of_def RequestTypes_def)

lemma RequestType_value_bound [simp]: "RequestType_value t < 12"
  by (cases t) simp_all

lemma RequestType_value_inject [simp]: "RequestType_value t = RequestType_value u \<longleftrightarrow> t = u"
  by (metis RequestType_of_value option.inject)

subsection \<open>Response packs\<close>

record GenericResponsePack =
  error_num :: cint
  req_fd :: cint

record ReadResponsePack = GenericResponsePack +
  bytes_read :: csize
  buff :: uptr

record WriteResponsePack = GenericResponsePack +
  bytes_wrote :: csize

type_synonym CloseResponsePack = GenericResponsePack

type_synonym ShutdownResponsePack = GenericResponsePack

record ReadvResponsePack = GenericResponsePack +
  readv_bytes_read :: csize
  readv_buff :: uptr

record WritevResponsePack = GenericResponsePack +
  writev_bytes_wrote :: csize

record AcceptResponsePack = GenericResponsePack +
  accept_fd :: cint

type_synonym ConnectResponsePack = GenericResponsePack

type_synonym OpenatResponsePack = GenericResponsePack

record StatxResponsePack = GenericResponsePack +
  statx_pathname :: uptr

record UnlinkatResponsePack = GenericResponsePack +
  unlinkat_pathname :: uptr

record RenameatResponsePack = GenericResponsePack +
  renameat_oldpathname :: uptr
  renameat_newpathname :: uptr

text \<open>The twelve response types, under the request type that each one answers.\<close>

datatype RespData =
    ReadResp ReadResponsePack
  | WriteResp WriteResponsePack
  | CloseResp CloseResponsePack
  | ShutdownResp ShutdownResponsePack
  | ReadvResp ReadvResponsePack
  | WritevResp WritevResponsePack
  | AcceptResp AcceptResponsePack
  | ConnectResp ConnectResponsePack
  | OpenatResp OpenatResponsePack
  | StatxResp StatxResponsePack
  | UnlinkatResp UnlinkatResponsePack
  | RenameatResp RenameatResponsePack

fun RespData_type :: "RespData \<Rightarrow> RequestType" where
  "RespData_type (ReadResp d) = READ"
| "RespData_type (WriteResp d) = WRITE"
| "RespData_type (CloseResp d) = CLOSE"
| "RespData_type (ShutdownResp d) = SHUTDOWN"
| "RespData_type (ReadvResp d) = READV"
| "RespData_type (WritevResp d) = WRITEV"
| "RespData_type (AcceptResp d) = ACCEPT"
| "RespData_type (ConnectResp d) = CONNECT"
| "RespData_type (OpenatResp d) = OPENAT"
| "RespData_type (StatxResp d) = STATX"
| "RespData_type (UnlinkatResp d) = UNLINKAT"
| "RespData_type (RenameatResp d) = RENAMEAT"

text \<open>The two fields every response inherits, read through whichever pack holds them.\<close>

fun RespData_error_num :: "RespData \<Rightarrow> cint" where
  "RespData_error_num (ReadResp d) = error_num d"
| "RespData_error_num (WriteResp d) = error_num d"
| "RespData_error_num (CloseResp d) = error_num d"
| "RespData_error_num (ShutdownResp d) = error_num d"
| "RespData_error_num (ReadvResp d) = error_num d"
| "RespData_error_num (WritevResp d) = error_num d"
| "RespData_error_num (AcceptResp d) = error_num d"
| "RespData_error_num (ConnectResp d) = error_num d"
| "RespData_error_num (OpenatResp d) = error_num d"
| "RespData_error_num (StatxResp d) = error_num d"
| "RespData_error_num (UnlinkatResp d) = error_num d"
| "RespData_error_num (RenameatResp d) = error_num d"

text \<open>A value-initialised pack of each type (\<open>ReadResponsePack data{}\<close>): every field is zero.\<close>

fun RespData_init :: "RequestType \<Rightarrow> RespData" where
  "RespData_init READ = ReadResp \<lparr>error_num = 0, req_fd = 0, bytes_read = 0, buff = 0\<rparr>"
| "RespData_init WRITE = WriteResp \<lparr>error_num = 0, req_fd = 0, bytes_wrote = 0\<rparr>"
| "RespData_init CLOSE = CloseResp \<lparr>error_num = 0, req_fd = 0\<rparr>"
| "RespData_init SHUTDOWN = ShutdownResp \<lparr>error_num = 0, req_fd = 0\<rparr>"
| "RespData_init READV =
     ReadvResp \<lparr>error_num = 0, req_fd = 0, readv_bytes_read = 0, readv_buff = 0\<rparr>"
| "RespData_init WRITEV = WritevResp \<lparr>error_num = 0, req_fd = 0, writev_bytes_wrote = 0\<rparr>"
| "RespData_init ACCEPT = AcceptResp \<lparr>error_num = 0, req_fd = 0, accept_fd = 0\<rparr>"
| "RespData_init CONNECT = ConnectResp \<lparr>error_num = 0, req_fd = 0\<rparr>"
| "RespData_init OPENAT = OpenatResp \<lparr>error_num = 0, req_fd = 0\<rparr>"
| "RespData_init STATX = StatxResp \<lparr>error_num = 0, req_fd = 0, statx_pathname = 0\<rparr>"
| "RespData_init UNLINKAT = UnlinkatResp \<lparr>error_num = 0, req_fd = 0, unlinkat_pathname = 0\<rparr>"
| "RespData_init RENAMEAT = RenameatResp
     \<lparr>error_num = 0, req_fd = 0, renameat_oldpathname = 0, renameat_newpathname = 0\<rparr>"

lemma RespData_type_init [simp]: "RespData_type (RespData_init t) = t"
  by (cases t) simp_all

subsection \<open>The channel\<close>

text \<open>\<open>ResponseVariant\<close>: the twelve responses in the order of their request types, then monostate.\<close>

datatype ResponseVariant = Holds RespData | Monostate

fun ResponseVariant_index :: "ResponseVariant \<Rightarrow> nat" where
  "ResponseVariant_index (Holds d) = RequestType_value (RespData_type d)"
| "ResponseVariant_index Monostate = 12"

record CommunicationChannel =
  response_store :: ResponseVariant

definition new_channel :: CommunicationChannel where
  "new_channel = \<lparr>response_store = Monostate\<rparr>"

definition publish_resp_data :: "RespData \<Rightarrow> CommunicationChannel \<Rightarrow> CommunicationChannel" where
  "publish_resp_data data c = c\<lparr>response_store := Holds data\<rparr>"

text \<open>\<open>std::get_if<INDEX>\<close>: the value, when the variant holds the alternative at that index.\<close>

fun ResponseVariant_get_if :: "RequestType \<Rightarrow> ResponseVariant \<Rightarrow> RespData option" where
  "ResponseVariant_get_if Rt (Holds d) = (if RespData_type d = Rt then Some d else None)"
| "ResponseVariant_get_if Rt Monostate = None"

definition consume_resp_data ::
    "RequestType \<Rightarrow> CommunicationChannel \<Rightarrow> RespData option \<times> CommunicationChannel" where
  "consume_resp_data Rt c =
     (case ResponseVariant_get_if Rt (response_store c) of
        Some data \<Rightarrow> (Some data, c\<lparr>response_store := Monostate\<rparr>)
      | None \<Rightarrow> (None, c))"

definition response_store_current_type :: "CommunicationChannel \<Rightarrow> RequestType option" where
  "response_store_current_type c = RequestType_of (ResponseVariant_index (response_store c))"

subsection \<open>The interface of a one-place mailbox\<close>

datatype ('k, 'd) mail = Publish 'd | Consume 'k

locale mailbox =
  fixes empty :: 'c
    and publish :: "'d \<Rightarrow> 'c \<Rightarrow> 'c"
    and consume :: "'k \<Rightarrow> 'c \<Rightarrow> 'd option \<times> 'c"
    and current :: "'c \<Rightarrow> 'k option"
    and kind :: "'d \<Rightarrow> 'k"
  assumes current_empty: "current empty = None"
    and current_publish: "current (publish d c) = Some (kind d)"
    and consume_publish: "consume (kind d) (publish d c) = (Some d, empty)"
    and consume_other: "current c \<noteq> Some k \<Longrightarrow> consume k c = (None, c)"
    and consume_current: "current c = Some k \<Longrightarrow> \<exists>d. kind d = k \<and> consume k c = (Some d, empty)"
begin

lemma consume_empty: "consume k empty = (None, empty)"
  by (simp add: consume_other current_empty)

lemma latest_wins: "consume (kind d) (publish d (publish d' c)) = (Some d, empty)"
  by (rule consume_publish)

lemma consume_twice: "fst (consume k (snd (consume k c))) = None"
proof (cases "current c = Some k")
  case True
  then show ?thesis using consume_current consume_empty by fastforce
next
  case False
  then show ?thesis by (simp add: consume_other)
qed

lemma consume_kind: "consume k c = (Some d, c') \<Longrightarrow> kind d = k \<and> c' = empty"
  by (metis consume_current consume_other fst_conv option.distinct(1) option.inject snd_conv)

lemma wrong_kind_keeps: "k \<noteq> kind d \<Longrightarrow> consume k (publish d c) = (None, publish d c)"
  by (simp add: consume_other current_publish)

text \<open>The responses a sequence of publications and consumptions hands out, in order.\<close>

fun deliveries :: "('k, 'd) mail list \<Rightarrow> 'c \<Rightarrow> 'd list" where
  "deliveries [] c = []"
| "deliveries (Publish d # ms) c = deliveries ms (publish d c)"
| "deliveries (Consume k # ms) c =
     (case consume k c of
        (Some d, c') \<Rightarrow> d # deliveries ms c'
      | (None, c') \<Rightarrow> deliveries ms c')"

text \<open>The response a channel holds, as a list of at most one.\<close>

definition pending :: "'c \<Rightarrow> 'd list" where
  "pending c = (case current c of
     None \<Rightarrow> []
   | Some k \<Rightarrow> (case fst (consume k c) of None \<Rightarrow> [] | Some d \<Rightarrow> [d]))"

lemma pending_empty [simp]: "pending empty = []"
  by (simp add: pending_def current_empty)

lemma pending_publish [simp]: "pending (publish d c) = [d]"
  by (simp add: pending_def current_publish consume_publish)

lemma pending_hit: "consume k c = (Some d, c') \<Longrightarrow> pending c = [d] \<and> c' = empty"
  by (cases "current c = Some k") (auto simp: pending_def consume_other dest: consume_kind)

lemma pending_miss: "consume k c = (None, c') \<Longrightarrow> c' = c"
  by (metis consume_current consume_other option.distinct(1) prod.inject)

text \<open>
  What is handed out is a subsequence of what the channel held and was then given: no publication is
  delivered twice, none is delivered out of order, and nothing else is delivered.
\<close>

lemma deliveries_subseq:
  "subseq (deliveries ms c) (pending c @ [d. Publish d \<leftarrow> ms])"
proof (induction ms arbitrary: c)
  case Nil
  then show ?case by simp
next
  case (Cons m ms)
  show ?case
  proof (cases m)
    case (Publish d)
    with Cons [of "publish d c"] show ?thesis by (simp add: subseq_drop_many)
  next
    case (Consume k)
    obtain r c' where eq: "consume k c = (r, c')" by (cases "consume k c")
    show ?thesis
    proof (cases r)
      case None
      with eq have "c' = c" by (simp add: pending_miss)
      with Cons [of c] eq None Consume show ?thesis by simp
    next
      case (Some d)
      with eq have "pending c = [d]" and "c' = empty" by (auto dest: pending_hit)
      with Cons [of empty] eq Some Consume show ?thesis by simp
    qed
  qed
qed

end

interpretation channel: mailbox new_channel publish_resp_data consume_resp_data
  response_store_current_type RespData_type
proof
  show "response_store_current_type new_channel = None"
    by (simp add: response_store_current_type_def new_channel_def)
  show "response_store_current_type (publish_resp_data d c) = Some (RespData_type d)" for d c
    by (simp add: response_store_current_type_def publish_resp_data_def)
  show "consume_resp_data (RespData_type d) (publish_resp_data d c) = (Some d, new_channel)" for d c
    by (simp add: consume_resp_data_def publish_resp_data_def new_channel_def)
  show "consume_resp_data k c = (None, c)" if "response_store_current_type c \<noteq> Some k" for c k
    using that by (cases "response_store c")
      (auto simp: consume_resp_data_def response_store_current_type_def)
  show "\<exists>d. RespData_type d = k \<and> consume_resp_data k c = (Some d, new_channel)"
    if "response_store_current_type c = Some k" for c k
    using that by (cases "response_store c")
      (simp_all add: consume_resp_data_def response_store_current_type_def new_channel_def
        RequestType_of_monostate)
qed

lemmas channel_simps [simp] =
  channel.current_empty channel.current_publish channel.consume_publish channel.consume_empty

subsection \<open>What the channel guarantees\<close>

text \<open>The responses that a sequence of calls on a channel hands out.\<close>

fun channel_deliveries ::
    "(RequestType, RespData) mail list \<Rightarrow> CommunicationChannel \<Rightarrow> RespData list" where
  "channel_deliveries [] c = []"
| "channel_deliveries (Publish d # ms) c = channel_deliveries ms (publish_resp_data d c)"
| "channel_deliveries (Consume Rt # ms) c =
     (case consume_resp_data Rt c of
        (Some d, c') \<Rightarrow> d # channel_deliveries ms c'
      | (None, c') \<Rightarrow> channel_deliveries ms c')"

lemma channel_deliveries_eq: "channel_deliveries ms c = channel.deliveries ms c"
  by (induction ms c rule: channel_deliveries.induct) (auto split: prod.split option.split)

text \<open>
  C32. The channel delivers each published response at most once and in order: over any sequence of
  publications and consumptions from a fresh channel, the responses handed out are a subsequence of the
  responses published, so that two deliveries are of two publications, even where the same value is
  published twice.
\<close>

theorem channel_at_most_once:
  "subseq (channel_deliveries ms new_channel) [d. Publish d \<leftarrow> ms]"
  using channel.deliveries_subseq [of ms new_channel]
  by (simp add: channel_deliveries_eq)

text \<open>
  A publication overwrites whatever response the channel still holds: the next consumption of
  its type returns the new response, empties the channel, and the older one is lost; a consumption
  of any other type returns nothing and leaves the channel as it is.
\<close>

lemma channel_publish_consume:
  "consume_resp_data Rt (publish_resp_data d (publish_resp_data d' c)) =
     (if Rt = RespData_type d then (Some d, new_channel) else (None, publish_resp_data d c))"
  using channel.latest_wins [of d d' c] channel.wrong_kind_keeps [of Rt d]
  by (auto simp: publish_resp_data_def)

end
