(* ===== verification/Em_Task.thy ===== *)
theory Em_Task
  imports Em_Channel
begin

text \<open>
  \<open>coroutine/task.hpp\<close> and \<open>task.cpp\<close>: \<open>EvTask\<close>, its promise, and the heap they share.

  A coroutine frame holds its promise and \<open>body\<close>, the point at which its code stands (a parameter
  type: the code of the library's own coroutines and of the user's is given where they are
  modelled). A frame is freed when its coroutine ends, a \<open>TaskStatus\<close> when the \<open>EvTask\<close> that owns it
  gives it up, and an access to a freed object is the fault \<open>UseAfterFree\<close>. \<open>EvTask\<close> objects that
  live in a variable of a coroutine are kept in \<open>tasks\<close>.

  What a \<open>handle.resume()\<close> runs is the argument \<open>rs\<close> of the operations that call it: the rest of
  the operation runs after it, in the state it left, as in the code.
\<close>

subsection \<open>The heap\<close>

record TaskStatus =
  handler_done :: bool
  ret_code :: csize

record PromiseState =
  exception_ptr :: "nat option"
  com_data :: CommunicationChannel
  awaiter_handle :: "addr option"
  task_status_ptr :: "addr option"
  metadata :: csize

record 'b Frame =
  promise :: PromiseState
  suspended :: bool
  body :: 'b

record EvTask =
  started_coro :: bool
  own_status :: "addr option"
  own_handle :: "addr option"

record 'b coro_heap =
  frames :: "addr \<rightharpoonup> 'b Frame"
  statuses :: "addr \<rightharpoonup> TaskStatus"
  tasks :: "addr \<rightharpoonup> EvTask"
  next_addr :: addr

type_synonym ('b, 'z, 'a) heap_op = "(('b, 'z) coro_heap_scheme, 'a) op"

definition new_promise :: PromiseState where
  "new_promise = \<lparr>exception_ptr = None, com_data = new_channel, awaiter_handle = None,
     task_status_ptr = None, metadata = 0\<rparr>"

text \<open>A moved-from (or default) \<open>EvTask\<close>: no status, no handle.\<close>

definition moved_from :: EvTask where
  "moved_from = \<lparr>started_coro = False, own_status = None, own_handle = None\<rparr>"

definition non_null :: "'p option \<Rightarrow> ('b, 'z, 'p) heap_op" where
  "non_null p = derefM NullDereference p"

definition fresh_addr :: "('b, 'z, addr) heap_op" where
  "fresh_addr = bindM (getM next_addr) (\<lambda>a.
     thenM (modifyM (\<lambda>w. w\<lparr>next_addr := Suc a\<rparr>)) (returnM a))"

definition frame_at :: "addr \<Rightarrow> ('b, 'z, 'b Frame) heap_op" where
  "frame_at h = bindM (getM frames) (\<lambda>m. derefM UseAfterFree (m h))"

definition put_frame :: "addr \<Rightarrow> 'b Frame \<Rightarrow> ('b, 'z, unit) heap_op" where
  "put_frame h f = modifyM (\<lambda>w. w\<lparr>frames := (frames w)(h \<mapsto> f)\<rparr>)"

definition free_frame :: "addr \<Rightarrow> ('b, 'z, unit) heap_op" where
  "free_frame h = thenM (frame_at h) (modifyM (\<lambda>w. w\<lparr>frames := (frames w)(h := None)\<rparr>))"

definition promise_at :: "addr \<Rightarrow> ('b, 'z, PromiseState) heap_op" where
  "promise_at h = bindM (frame_at h) (\<lambda>f. returnM (promise f))"

definition update_promise ::
    "(PromiseState \<Rightarrow> PromiseState) \<Rightarrow> addr \<Rightarrow> ('b, 'z, unit) heap_op" where
  "update_promise u h = bindM (frame_at h) (\<lambda>f. put_frame h (f\<lparr>promise := u (promise f)\<rparr>))"

definition status_at :: "addr \<Rightarrow> ('b, 'z, TaskStatus) heap_op" where
  "status_at s = bindM (getM statuses) (\<lambda>m. derefM UseAfterFree (m s))"

definition put_status :: "addr \<Rightarrow> TaskStatus \<Rightarrow> ('b, 'z, unit) heap_op" where
  "put_status s st = modifyM (\<lambda>w. w\<lparr>statuses := (statuses w)(s \<mapsto> st)\<rparr>)"

definition free_status :: "addr \<Rightarrow> ('b, 'z, unit) heap_op" where
  "free_status s = thenM (status_at s) (modifyM (\<lambda>w. w\<lparr>statuses := (statuses w)(s := None)\<rparr>))"

definition task_at :: "addr \<Rightarrow> ('b, 'z, EvTask) heap_op" where
  "task_at t = bindM (getM tasks) (\<lambda>m. derefM UseAfterFree (m t))"

definition put_task :: "addr \<Rightarrow> EvTask \<Rightarrow> ('b, 'z, unit) heap_op" where
  "put_task t x = modifyM (\<lambda>w. w\<lparr>tasks := (tasks w)(t \<mapsto> x)\<rparr>)"

definition free_task :: "addr \<Rightarrow> ('b, 'z, unit) heap_op" where
  "free_task t = modifyM (\<lambda>w. w\<lparr>tasks := (tasks w)(t := None)\<rparr>)"

subsection \<open>The promise\<close>

definition return_value :: "csize \<Rightarrow> addr \<Rightarrow> ('b, 'z, unit) heap_op" where
  "return_value code h =
     bindM (promise_at h) (\<lambda>p. case task_status_ptr p of
       None \<Rightarrow> returnM ()
     | Some s \<Rightarrow> bindM (status_at s) (\<lambda>st. put_status s (st\<lparr>ret_code := code\<rparr>)))"

definition unhandled_exception :: "nat \<Rightarrow> addr \<Rightarrow> ('b, 'z, unit) heap_op" where
  "unhandled_exception e h = update_promise (\<lambda>p. p\<lparr>exception_ptr := Some e\<rparr>) h"

definition promise_is_done :: "addr \<Rightarrow> ('b, 'z, bool) heap_op" where
  "promise_is_done h =
     bindM (promise_at h) (\<lambda>p. case task_status_ptr p of
       None \<Rightarrow> returnM False
     | Some s \<Rightarrow> bindM (status_at s) (\<lambda>st. returnM (handler_done st)))"

definition publish_to_promise :: "RespData \<Rightarrow> addr \<Rightarrow> ('b, 'z, unit) heap_op" where
  "publish_to_promise data h =
     update_promise (\<lambda>p. p\<lparr>com_data := publish_resp_data data (com_data p)\<rparr>) h"

text \<open>
  \<open>final_suspend\<close>: first the awaiting coroutine runs, then the status is marked done, both through
  the promise, which is read again after the awaiter ran. It returns \<open>suspend_never\<close>, so that the
  frame is destroyed as soon as it returns: \<open>final_suspend\<close> is that whole end of a coroutine.
\<close>

definition final_suspend :: "(addr \<Rightarrow> ('b, 'z, unit) heap_op) \<Rightarrow> addr \<Rightarrow> ('b, 'z, unit) heap_op" where
  "final_suspend rs h =
     bindM (promise_at h) (\<lambda>p.
     thenM (case awaiter_handle p of None \<Rightarrow> returnM () | Some a \<Rightarrow> rs a)
     (bindM (promise_at h) (\<lambda>p.
      thenM (case task_status_ptr p of
               None \<Rightarrow> returnM ()
             | Some s \<Rightarrow> bindM (status_at s) (\<lambda>st. put_status s (st\<lparr>handler_done := True\<rparr>)))
      (free_frame h))))"

subsection \<open>EvTask\<close>

definition EvTask_construct :: "addr \<Rightarrow> ('b, 'z, EvTask) heap_op" where
  "EvTask_construct h =
     bindM fresh_addr (\<lambda>s.
     thenM (put_status s \<lparr>handler_done = False, ret_code = 0\<rparr>)
     (thenM (update_promise (\<lambda>p. p\<lparr>task_status_ptr := Some s\<rparr>) h)
      (returnM \<lparr>started_coro = False, own_status = Some s, own_handle = Some h\<rparr>)))"

text \<open>
  A call of a coroutine function: the frame is allocated, \<open>get_return_object\<close> builds the \<open>EvTask\<close>
  and \<open>initial_suspend\<close> suspends before the first statement.
\<close>

definition new_coroutine :: "'b \<Rightarrow> ('b, 'z, EvTask) heap_op" where
  "new_coroutine b =
     bindM fresh_addr (\<lambda>h.
     thenM (put_frame h \<lparr>promise = new_promise, suspended = True, body = b\<rparr>)
     (EvTask_construct h))"

text \<open>
  The move constructor and the move assignment return the members the target has afterwards; the
  source becomes \<open>moved_from\<close>. The operands of the assignment are different objects (the code
  returns at once where they are the same). \<open>destroy\<close> is \<open>_handle.destroy()\<close>.
\<close>

definition EvTask_move_construct :: "EvTask \<Rightarrow> ('b, 'z, EvTask) heap_op" where
  "EvTask_move_construct other =
     bindM (non_null (own_handle other)) (\<lambda>h.
     thenM (update_promise (\<lambda>p. p\<lparr>task_status_ptr := own_status other\<rparr>) h)
     (returnM other))"

definition EvTask_move_assign ::
    "(addr \<Rightarrow> ('b, 'z, unit) heap_op) \<Rightarrow> EvTask \<Rightarrow> EvTask \<Rightarrow> ('b, 'z, EvTask) heap_op" where
  "EvTask_move_assign destroy this other =
     thenM (case own_handle this of
              None \<Rightarrow> returnM ()
            | Some h \<Rightarrow>
                bindM (non_null (own_status this)) (\<lambda>s.
                bindM (status_at s) (\<lambda>st. whenM (\<not> handler_done st) (destroy h))))
     (thenM (case own_status this of None \<Rightarrow> returnM () | Some s \<Rightarrow> free_status s)
      (bindM (non_null (own_handle other)) (\<lambda>h.
       thenM (update_promise (\<lambda>p. p\<lparr>task_status_ptr := own_status other\<rparr>) h)
       (returnM other))))"

definition EvTask_destruct :: "EvTask \<Rightarrow> ('b, 'z, unit) heap_op" where
  "EvTask_destruct this =
     (case own_status this of
        None \<Rightarrow> returnM ()
      | Some s \<Rightarrow>
          thenM (bindM (status_at s) (\<lambda>st.
                   whenM (\<not> handler_done st)
                     (bindM (non_null (own_handle this)) (\<lambda>h.
                        update_promise (\<lambda>p. p\<lparr>task_status_ptr := None\<rparr>) h))))
                (free_status s))"

definition set_coro_metadata :: "csize \<Rightarrow> EvTask \<Rightarrow> ('b, 'z, cint) heap_op" where
  "set_coro_metadata data this =
     (case own_handle this of
        None \<Rightarrow> returnM (-1)
      | Some h \<Rightarrow> thenM (update_promise (\<lambda>p. p\<lparr>metadata := data\<rparr>) h) (returnM 0))"

definition get_coro_metadata :: "EvTask \<Rightarrow> ('b, 'z, csize option) heap_op" where
  "get_coro_metadata this =
     (case own_handle this of
        None \<Rightarrow> returnM None
      | Some h \<Rightarrow> bindM (promise_at h) (\<lambda>p. returnM (Some (metadata p))))"

text \<open>
  The operations below resume the coroutine, so that other code runs while the \<open>EvTask\<close> stays where
  it is: they take its address and read its members where the code does. A channel is the \<open>com_data\<close>
  of a frame, so \<open>CommunicationChannel*\<close> is the address of that frame.
\<close>

definition rethrow_if :: "addr \<Rightarrow> ('b, 'z, unit) heap_op" where
  "rethrow_if h = bindM (promise_at h) (\<lambda>p.
     if exception_ptr p \<noteq> None then faultM UncaughtException else returnM ())"

definition task_finished :: "EvTask \<Rightarrow> ('b, 'z, bool) heap_op" where
  "task_finished this =
     (case own_status this of
        None \<Rightarrow> returnM False
      | Some s \<Rightarrow> bindM (status_at s) (\<lambda>st. returnM (handler_done st)))"

definition EvTask_start ::
    "(addr \<Rightarrow> ('b, 'z, unit) heap_op) \<Rightarrow> addr \<Rightarrow> ('b, 'z, addr option) heap_op" where
  "EvTask_start rs t =
     bindM (task_at t) (\<lambda>this.
     if started_coro this then returnM None
     else
       thenM (put_task t (this\<lparr>started_coro := True\<rparr>))
       (bindM (non_null (own_handle this)) (\<lambda>h.
        thenM (rs h)
        (bindM (task_at t) (\<lambda>this.
         bindM (task_finished this) (\<lambda>finished.
         if finished then returnM None
         else thenM (rethrow_if h) (returnM (Some h))))))))"

definition EvTask_resume :: "(addr \<Rightarrow> ('b, 'z, unit) heap_op) \<Rightarrow> addr \<Rightarrow> ('b, 'z, unit) heap_op" where
  "EvTask_resume rs t =
     bindM (task_at t) (\<lambda>this. bindM (non_null (own_handle this)) rs)"

text \<open>The template \<open>resume<RespT>(resp_data)\<close>: \<open>state\<close> is a reference into the frame.\<close>

definition EvTask_resume_with ::
    "(addr \<Rightarrow> ('b, 'z, unit) heap_op) \<Rightarrow> RespData \<Rightarrow> addr \<Rightarrow> ('b, 'z, addr) heap_op" where
  "EvTask_resume_with rs resp_data t =
     bindM (task_at t) (\<lambda>this.
     thenM (put_task t (this\<lparr>started_coro := True\<rparr>))
     (bindM (non_null (own_handle this)) (\<lambda>h.
      thenM (publish_to_promise resp_data h)
      (thenM (rs h)
       (thenM (rethrow_if h) (returnM h))))))"

definition EvTask_is_done :: "addr \<Rightarrow> ('b, 'z, bool) heap_op" where
  "EvTask_is_done t =
     bindM (task_at t) (\<lambda>this.
     bindM (non_null (own_status this)) (\<lambda>s.
     bindM (status_at s) (\<lambda>st. returnM (handler_done st))))"

definition EvTask_await_ready :: bool where
  "EvTask_await_ready = False"

definition EvTask_await_suspend ::
    "(addr \<Rightarrow> ('b, 'z, unit) heap_op) \<Rightarrow> addr \<Rightarrow> addr \<Rightarrow> ('b, 'z, unit) heap_op" where
  "EvTask_await_suspend rs t other =
     bindM (task_at t) (\<lambda>this.
     thenM (whenM (\<not> started_coro this) (thenM (EvTask_start rs t) (returnM ())))
     (bindM (task_at t) (\<lambda>this.
      bindM (task_finished this) (\<lambda>finished.
      if finished then rs other
      else
        bindM (non_null (own_handle this)) (\<lambda>h.
        update_promise (\<lambda>p. p\<lparr>awaiter_handle := Some other\<rparr>) h)))))"

definition EvTask_await_resume :: "addr \<Rightarrow> ('b, 'z, csize) heap_op" where
  "EvTask_await_resume t =
     bindM (task_at t) (\<lambda>this.
     case own_status this of
       None \<Rightarrow> returnM (-1)
     | Some s \<Rightarrow> bindM (status_at s) (\<lambda>st. returnM (ret_code st)))"

subsection \<open>Suspension and resumption\<close>

text \<open>
  A coroutine suspends at a point \<open>b\<close> of its code; resuming one that is not suspended is undefined
  behaviour.
\<close>

definition suspend_at :: "addr \<Rightarrow> 'b \<Rightarrow> ('b, 'z, unit) heap_op" where
  "suspend_at h b = bindM (frame_at h) (\<lambda>f. put_frame h (f\<lparr>suspended := True, body := b\<rparr>))"

definition begin_resume :: "addr \<Rightarrow> ('b, 'z, 'b) heap_op" where
  "begin_resume h = bindM (frame_at h) (\<lambda>f.
     if suspended f then thenM (put_frame h (f\<lparr>suspended := False\<rparr>)) (returnM (body f))
     else faultM ResumeNotSuspended)"

text \<open>
  An \<open>EvTask\<close> in a variable of a coroutine: a call of a coroutine function puts it there, and the end
  of the variable destroys it.
\<close>

definition spawn :: "'b \<Rightarrow> ('b, 'z, addr) heap_op" where
  "spawn b =
     bindM (new_coroutine b) (\<lambda>t.
     bindM fresh_addr (\<lambda>a. thenM (put_task a t) (returnM a)))"

definition drop_task :: "addr \<Rightarrow> ('b, 'z, unit) heap_op" where
  "drop_task t = bindM (task_at t) (\<lambda>x. thenM (EvTask_destruct x) (free_task t))"

end
