(* ===== verification/Em_Ownership.thy ===== *)
theory Em_Ownership
  imports Em_Task
begin

text \<open>
  Who owns what on the coroutine heap. The invariant looks at the heap through four maps: \<open>ptrs\<close>, the
  status pointer of each live frame; \<open>dones\<close>, the done flag of each live status; the \<open>tasks\<close>; and the
  bound of the addresses in use. \<open>ownership P D T n xs\<close> has the \<open>EvTask\<close> objects that are not in
  \<open>tasks\<close> as \<open>xs\<close> (the elements of the event manager's vector, and an object on its way from one
  place to another) and says:

  \<^item> an \<open>EvTask\<close> has a status if and only if it has a handle; while the status is not done its frame
    is alive and points back to it, and once it is done the frame is gone;
  \<^item> a status has one owner, and at most one frame points to it;
  \<^item> the status a live frame points to is alive and not done.

  The first part proves what each change of the maps does to the invariant, the second lifts it to
  the operations of \<open>Em_Task\<close>.
\<close>

type_synonym frame_ptrs = "addr \<Rightarrow> addr option option"
type_synonym done_flags = "addr \<rightharpoonup> bool"

definition ptrs :: "('b, 'z) coro_heap_scheme \<Rightarrow> frame_ptrs" where
  "ptrs w h = map_option (\<lambda>f. task_status_ptr (promise f)) (frames w h)"

definition dones :: "('b, 'z) coro_heap_scheme \<Rightarrow> done_flags" where
  "dones w s = map_option handler_done (statuses w s)"

definition owned :: "EvTask list \<Rightarrow> addr list" where
  "owned xs = concat (map (\<lambda>t. case own_status t of None \<Rightarrow> [] | Some s \<Rightarrow> [s]) xs)"

definition task_inv :: "frame_ptrs \<Rightarrow> done_flags \<Rightarrow> addr \<Rightarrow> EvTask \<Rightarrow> bool" where
  "task_inv P D n t =
     (case (own_status t, own_handle t) of
        (None, None) \<Rightarrow> True
      | (Some s, Some h) \<Rightarrow>
          h < n \<and> (D s = Some True \<and> P h = None \<or> D s = Some False \<and> P h = Some (Some s))
      | _ \<Rightarrow> False)"

definition frames_inv :: "frame_ptrs \<Rightarrow> done_flags \<Rightarrow> bool" where
  "frames_inv P D \<longleftrightarrow>
     (\<forall>h s. P h = Some (Some s) \<longrightarrow> D s = Some False \<and> (\<forall>g. g \<noteq> h \<longrightarrow> P g \<noteq> Some (Some s)))"

definition owners_inv :: "(addr \<rightharpoonup> EvTask) \<Rightarrow> EvTask list \<Rightarrow> bool" where
  "owners_inv T xs \<longleftrightarrow> distinct (owned xs) \<and>
     (\<forall>a t s. T a = Some t \<longrightarrow> own_status t = Some s \<longrightarrow>
        s \<notin> set (owned xs) \<and> (\<forall>b u. b \<noteq> a \<longrightarrow> T b = Some u \<longrightarrow> own_status u \<noteq> Some s))"

definition addrs_inv ::
    "frame_ptrs \<Rightarrow> done_flags \<Rightarrow> (addr \<rightharpoonup> EvTask) \<Rightarrow> addr \<Rightarrow> bool" where
  "addrs_inv P D T n \<longleftrightarrow> (\<forall>a. P a \<noteq> None \<or> D a \<noteq> None \<or> T a \<noteq> None \<longrightarrow> a < n)"

definition ownership ::
    "frame_ptrs \<Rightarrow> done_flags \<Rightarrow> (addr \<rightharpoonup> EvTask) \<Rightarrow> addr \<Rightarrow> EvTask list \<Rightarrow> bool" where
  "ownership P D T n xs \<longleftrightarrow>
     (\<forall>t \<in> set xs. task_inv P D n t) \<and> (\<forall>a t. T a = Some t \<longrightarrow> task_inv P D n t) \<and>
     frames_inv P D \<and> owners_inv T xs \<and> addrs_inv P D T n"

definition heap_ok :: "('b, 'z) coro_heap_scheme \<Rightarrow> EvTask list \<Rightarrow> bool" where
  "heap_ok w xs = ownership (ptrs w) (dones w) (tasks w) (next_addr w) xs"

subsection \<open>The invariant and its parts\<close>

lemma owned_simps [simp]:
  "owned [] = []"
  "owned (t # xs) = (case own_status t of None \<Rightarrow> owned xs | Some s \<Rightarrow> s # owned xs)"
  "owned (xs @ ys) = owned xs @ owned ys"
  by (simp_all add: owned_def split: option.splits)

lemma mem_owned: "s \<in> set (owned xs) \<longleftrightarrow> (\<exists>t \<in> set xs. own_status t = Some s)"
  by (induction xs) (auto split: option.splits)

lemma ownershipI:
  assumes "\<And>t. t \<in> set xs \<Longrightarrow> task_inv P D n t"
    and "\<And>a t. T a = Some t \<Longrightarrow> task_inv P D n t"
    and "frames_inv P D" and "owners_inv T xs" and "addrs_inv P D T n"
  shows "ownership P D T n xs"
  using assms unfolding ownership_def by blast

lemma ownershipD:
  assumes "ownership P D T n xs"
  shows ownership_elem: "t \<in> set xs \<Longrightarrow> task_inv P D n t"
    and ownership_task: "T a = Some t \<Longrightarrow> task_inv P D n t"
    and ownership_frames: "frames_inv P D"
    and ownership_owners: "owners_inv T xs"
    and ownership_addrs: "addrs_inv P D T n"
  using assms unfolding ownership_def by blast+

lemma task_inv_nothing:
  "own_status t = None \<Longrightarrow> own_handle t = None \<Longrightarrow> task_inv P D n t"
  by (simp add: task_inv_def)

lemma moved_from_simps [simp]:
  "own_status moved_from = None" "own_handle moved_from = None" "task_inv P D n moved_from"
  by (simp_all add: moved_from_def task_inv_def)

lemma task_inv_cases:
  assumes "task_inv P D n t"
  obtains (nothing) "own_status t = None" "own_handle t = None"
  | (finished) s h where "own_status t = Some s" "own_handle t = Some h" "h < n"
      "D s = Some True" "P h = None"
  | (running) s h where "own_status t = Some s" "own_handle t = Some h" "h < n"
      "D s = Some False" "P h = Some (Some s)"
  using assms by (auto simp: task_inv_def split: option.splits)

lemma task_inv_none: "task_inv P D n t \<Longrightarrow> own_handle t = None \<longleftrightarrow> own_status t = None"
  by (auto simp: task_inv_def split: option.splits)

lemma task_inv_cong:
  assumes "\<And>s. own_status t = Some s \<Longrightarrow> D' s = D s"
    and "\<And>h. own_handle t = Some h \<Longrightarrow> P' h = P h"
  shows "task_inv P' D' n t = task_inv P D n t"
  using assms by (cases "own_status t"; cases "own_handle t") (simp_all add: task_inv_def)

lemma task_inv_started [simp]: "task_inv P D n (t\<lparr>started_coro := b\<rparr>) = task_inv P D n t"
  by (simp add: task_inv_def)

lemma frames_invD:
  assumes "frames_inv P D" and "P h = Some (Some s)"
  shows "D s = Some False" and "g \<noteq> h \<Longrightarrow> P g \<noteq> Some (Some s)"
  using assms unfolding frames_inv_def by blast+

lemma owners_invD:
  assumes "owners_inv T xs" and "T a = Some t" and "own_status t = Some s"
  shows "s \<notin> set (owned xs)" and "b \<noteq> a \<Longrightarrow> T b = Some u \<Longrightarrow> own_status u \<noteq> Some s"
  using assms unfolding owners_inv_def by blast+

lemma ownership_set:
  assumes "set ys = set xs" and "distinct (owned ys) = distinct (owned xs)"
  shows "ownership P D T n ys = ownership P D T n xs"
  using assms by (simp add: ownership_def owners_inv_def mem_owned)

lemma ownership_nothing:
  "own_status t = None \<Longrightarrow> own_handle t = None \<Longrightarrow>
     ownership P D T n (t # xs) = ownership P D T n xs"
  by (simp add: ownership_def owners_inv_def task_inv_nothing)

lemma ownership_forget: "ownership P D T n (t # xs) \<Longrightarrow> ownership P D T n xs"
  by (cases "own_status t") (simp_all add: ownership_def owners_inv_def)

subsection \<open>Objects change places\<close>

lemma owners_invI:
  assumes "distinct (owned xs)"
    and "\<And>a t s. T a = Some t \<Longrightarrow> own_status t = Some s \<Longrightarrow> s \<notin> set (owned xs)"
    and "\<And>a t s b u. T a = Some t \<Longrightarrow> own_status t = Some s \<Longrightarrow> b \<noteq> a \<Longrightarrow> T b = Some u \<Longrightarrow>
      own_status u \<noteq> Some s"
  shows "owners_inv T xs"
  unfolding owners_inv_def using assms by blast

lemma owners_distinct: "owners_inv T xs \<Longrightarrow> distinct (owned xs)"
  by (simp add: owners_inv_def)

lemma owners_move_out:
  assumes "owners_inv T xs" and "T a = Some t" and "x = None \<or> x = Some moved_from"
  shows "owners_inv (T(a := x)) (t # xs)"
proof (rule owners_invI)
  have old: "b \<noteq> a \<and> T b = Some u" if "(T(a := x)) b = Some u" "own_status u = Some r" for b u r
    using that assms(3) by (auto split: if_splits)
  note D = owners_invD [OF assms(1)]
  show "distinct (owned (t # xs))"
    using owners_distinct [OF assms(1)] D(1) [OF assms(2)] by (cases "own_status t") simp_all
  show "r \<notin> set (owned (t # xs))" if "(T(a := x)) b = Some u" "own_status u = Some r" for b u r
    using old [OF that] that(2) D(1) [of b u r] D(2) [OF assms(2), of _ b u]
    by (cases "own_status t") auto
  show "own_status v \<noteq> Some r"
    if "(T(a := x)) b = Some u" "own_status u = Some r" "c \<noteq> b" "(T(a := x)) c = Some v"
    for b u r c v
    using old [OF that(1,2)] old [OF that(4)] that D(2) by blast
qed

lemma owners_update:
  assumes "owners_inv T xs" and "T a = Some t" and "own_status t' = own_status t"
  shows "owners_inv (T(a \<mapsto> t')) xs"
proof (rule owners_invI)
  note D = owners_invD [OF assms(1)]
  have old: "\<exists>u'. T b = Some u' \<and> own_status u' = own_status u" if "(T(a \<mapsto> t')) b = Some u" for b u
    using that assms(2,3) by (auto split: if_splits)
  show "r \<notin> set (owned xs)" if "(T(a \<mapsto> t')) b = Some u" "own_status u = Some r" for b u r
    using old [OF that(1)] that(2) D(1) by metis
  show "own_status v \<noteq> Some r"
    if "(T(a \<mapsto> t')) b = Some u" "own_status u = Some r" "c \<noteq> b" "(T(a \<mapsto> t')) c = Some v"
    for b u r c v
    using old [OF that(1)] old [OF that(4)] that(2,3) D(2) by metis
qed (rule owners_distinct [OF assms(1)])

lemma owners_move_in:
  assumes "owners_inv T (t # xs)" and "T a = None \<or> T a = Some moved_from"
  shows "owners_inv (T(a \<mapsto> t)) xs"
proof (rule owners_invI)
  note D = owners_invD [OF assms(1)]
  note dist = owners_distinct [OF assms(1)]
  have new: "r \<notin> set (owned xs)" if "own_status t = Some r" for r
    using dist that by simp
  show "distinct (owned xs)" using dist by (cases "own_status t") simp_all
  have old: "b = a \<and> u = t \<or> b \<noteq> a \<and> T b = Some u" if "(T(a \<mapsto> t)) b = Some u" for b u
    using that by (auto split: if_splits)
  have sep: "own_status t \<noteq> Some r \<and> r \<notin> set (owned xs)"
    if "T b = Some u" "own_status u = Some r" for b u r
    using D(1) [OF that] by (cases "own_status t") auto
  show "r \<notin> set (owned xs)" if "(T(a \<mapsto> t)) b = Some u" "own_status u = Some r" for b u r
    using old [OF that(1)] that(2) new sep by blast
  show "own_status v \<noteq> Some r"
    if "(T(a \<mapsto> t)) b = Some u" "own_status u = Some r" "c \<noteq> b" "(T(a \<mapsto> t)) c = Some v"
    for b u r c v
    using old [OF that(1)] old [OF that(4)] that(2,3) sep [of b u r] sep [of c v r]
      D(2) [of b u r c v] by auto
qed

lemma ownership_move_out:
  assumes "ownership P D T n xs" and "T a = Some t" and "x = None \<or> x = Some moved_from"
  shows "ownership P D (T(a := x)) n (t # xs)"
proof (rule ownershipI)
  show "owners_inv (T(a := x)) (t # xs)"
    by (rule owners_move_out [OF ownership_owners [OF assms(1)] assms(2,3)])
  show "addrs_inv P D (T(a := x)) n"
    using ownership_addrs [OF assms(1)] assms(2) by (auto simp: addrs_inv_def)
  show "task_inv P D n u" if "u \<in> set (t # xs)" for u
    using that ownership_elem [OF assms(1), of u] ownership_task [OF assms(1,2)] by auto
  show "task_inv P D n u" if "(T(a := x)) b = Some u" for b u
    using that assms(3) ownership_task [OF assms(1), of b u] by (auto split: if_splits)
qed (rule ownership_frames [OF assms(1)])

lemma ownership_move_in:
  assumes "ownership P D T n (t # xs)" and "T a = None \<or> T a = Some moved_from" and "a < n"
  shows "ownership P D (T(a \<mapsto> t)) n xs"
proof (rule ownershipI)
  show "owners_inv (T(a \<mapsto> t)) xs"
    by (rule owners_move_in [OF ownership_owners [OF assms(1)] assms(2)])
  show "addrs_inv P D (T(a \<mapsto> t)) n"
    using ownership_addrs [OF assms(1)] assms(3) by (auto simp: addrs_inv_def)
  show "task_inv P D n u" if "u \<in> set (xs)" for u
    using that ownership_elem [OF assms(1), of u] by auto
  show "task_inv P D n u" if "(T(a \<mapsto> t)) b = Some u" for b u
    using that ownership_elem [OF assms(1), of t] ownership_task [OF assms(1), of b u] by (auto split: if_splits)
qed (rule ownership_frames [OF assms(1)])

lemma ownership_started:
  assumes "ownership P D T n xs" and "T a = Some t"
  shows "ownership P D (T(a \<mapsto> t\<lparr>started_coro := b\<rparr>)) n xs"
proof (rule ownershipI)
  show "owners_inv (T(a \<mapsto> t\<lparr>started_coro := b\<rparr>)) xs"
    by (rule owners_update [OF ownership_owners [OF assms(1)] assms(2)]) simp
  show "addrs_inv P D (T(a \<mapsto> t\<lparr>started_coro := b\<rparr>)) n"
    using ownership_addrs [OF assms(1)] assms(2) by (auto simp: addrs_inv_def)
  show "task_inv P D n u" if "u \<in> set (xs)" for u
    using that ownership_elem [OF assms(1), of u] by auto
  show "task_inv P D n u" if "(T(a \<mapsto> t\<lparr>started_coro := b\<rparr>)) c = Some u" for c u
    using that ownership_task [OF assms(1,2)] ownership_task [OF assms(1), of c u] by (auto split: if_splits)
qed (rule ownership_frames [OF assms(1)])

lemma ownership_next:
  assumes "ownership P D T n xs" and "n \<le> m"
  shows "ownership P D T m xs"
proof (rule ownershipI)
  have up: "task_inv P D m t" if "task_inv P D n t" for t
    using that assms(2) by (auto simp: task_inv_def split: option.splits)
  show "task_inv P D m t" if "t \<in> set xs" for t
    by (rule up [OF ownership_elem [OF assms(1) that]])
  show "task_inv P D m t" if "T a = Some t" for a t
    by (rule up [OF ownership_task [OF assms(1) that]])
  show "addrs_inv P D T m"
    using ownership_addrs [OF assms(1)] assms(2) unfolding addrs_inv_def by (meson less_le_trans)
qed (rule ownership_frames [OF assms(1)], rule ownership_owners [OF assms(1)])

subsection \<open>Coroutines begin, end and are given up\<close>

lemma ownership_new:
  assumes "ownership P D T n xs"
  shows "ownership (P(n \<mapsto> Some (Suc n))) (D(Suc n \<mapsto> False)) T (Suc (Suc n))
    (\<lparr>started_coro = False, own_status = Some (Suc n), own_handle = Some n\<rparr> # xs)"
    (is "ownership ?P ?D T ?n (?t # xs)")
proof (rule ownershipI)
  have unused: "P a = None" "D a = None" "T a = None" if "n \<le> a" for a
    using ownership_addrs [OF assms] that by (auto simp: addrs_inv_def dest: leD)
  have fresh: "own_status u \<noteq> Some (Suc n)" if "task_inv P D n u" for u
    using that unused(2) [of "Suc n"] by (auto simp: task_inv_def split: option.splits)
  have old: "task_inv ?P ?D ?n u" if "task_inv P D n u" for u
    using that unused(2) [of "Suc n"]
    by (cases rule: task_inv_cases) (auto simp: task_inv_def split: if_splits)
  show "task_inv ?P ?D ?n u" if "u \<in> set (?t # xs)" for u
    using that old ownership_elem [OF assms, of u] by (auto simp: task_inv_def)
  show "task_inv ?P ?D ?n u" if "T a = Some u" for a u
    by (rule old [OF ownership_task [OF assms that]])
  show "frames_inv ?P ?D"
    using ownership_frames [OF assms] unused [of n] unused [of "Suc n"]
    by (auto simp: frames_inv_def)
  have "Suc n \<notin> set (owned xs)"
    using fresh ownership_elem [OF assms] unfolding mem_owned by blast
  note owned = this ownership_owners [OF assms]
  show "owners_inv T (?t # xs)"
  proof (rule owners_invI)
    show "distinct (owned (?t # xs))" using owned owners_distinct by simp
    show "s \<notin> set (owned (?t # xs))" if "T a = Some u" "own_status u = Some s" for a u s
      using owners_invD(1) [OF owned(2) that] fresh [OF ownership_task [OF assms that(1)]] that(2)
      by auto
    show "own_status v \<noteq> Some s"
      if "T a = Some u" "own_status u = Some s" "b \<noteq> a" "T b = Some v" for a u s b v
      by (rule owners_invD(2) [OF owned(2) that])
  qed
  show "addrs_inv ?P ?D T ?n"
    using ownership_addrs [OF assms] by (auto simp: addrs_inv_def less_Suc_eq)
qed

text \<open>A coroutine ends: its status, if it still has one, is done, and its frame is gone.\<close>

lemma ownership_finish:
  assumes "ownership P D T n xs" and h: "P h = Some p"
    and D': "D' = (case p of None \<Rightarrow> D | Some s \<Rightarrow> D(s \<mapsto> True))"
  shows "ownership (P(h := None)) D' T n xs"
proof (rule ownershipI)
  note F = frames_invD [OF ownership_frames [OF assms(1)]]
  have old: "task_inv (P(h := None)) D' n u" if "task_inv P D n u" for u
    using that
  proof (cases rule: task_inv_cases)
    case nothing
    then show ?thesis by (rule task_inv_nothing)
  next
    case (finished s g)
    with h F(1) [of h s] show ?thesis by (auto simp: task_inv_def D' split: option.split)
  next
    case (running s g)
    show ?thesis
    proof (cases "g = h")
      case True
      with running h show ?thesis by (auto simp: task_inv_def D')
    next
      case False
      with running h F(2) [of g s h] show ?thesis
        by (auto simp: task_inv_def D' split: option.split)
    qed
  qed
  show "task_inv (P(h := None)) D' n u" if "u \<in> set xs" for u
    by (rule old [OF ownership_elem [OF assms(1) that]])
  show "task_inv (P(h := None)) D' n u" if "T a = Some u" for a u
    by (rule old [OF ownership_task [OF assms(1) that]])
  have "D' r = Some False" if "g \<noteq> h" "P g = Some (Some r)" for g r
    using F(1) [OF that(2)] F(2) [OF that(2), of h] h that by (auto simp: D' split: option.split)
  then show "frames_inv (P(h := None)) D'" using F(2) by (auto simp: frames_inv_def)
  have "D a \<noteq> None" if "D' a \<noteq> None" for a
    using that F(1) [of h] h by (auto simp: D' split: option.splits if_splits)
  then show "addrs_inv (P(h := None)) D' T n"
    using ownership_addrs [OF assms(1)] by (auto simp: addrs_inv_def)
qed (rule ownership_owners [OF assms(1)])

text \<open>
  An object gives up its coroutine, whose status is freed; the frame, if there is one, is detached
  from it or destroyed.
\<close>

lemma ownership_release:
  assumes "ownership P D T n (t # xs)" and t: "own_status t = Some s" "own_handle t = Some h"
    and x: "x = None \<or> x = Some None \<and> P h \<noteq> None"
  shows "ownership (P(h := x)) (D(s := None)) T n xs"
proof (rule ownershipI)
  note F = frames_invD [OF ownership_frames [OF assms(1)]]
  have inv_t: "task_inv P D n t" by (rule ownership_elem [OF assms(1)]) simp
  then have s: "D s = Some True \<and> P h = None \<or> D s = Some False \<and> P h = Some (Some s)"
    using t by (simp add: task_inv_def)
  have old: "task_inv (P(h := x)) (D(s := None)) n u"
    if "task_inv P D n u" "own_status u \<noteq> Some s" for u
    using that(1)
  proof (cases rule: task_inv_cases)
    case nothing
    then show ?thesis by (rule task_inv_nothing)
  next
    case (finished r g)
    with that(2) x s show ?thesis by (auto simp: task_inv_def)
  next
    case (running r g)
    with that(2) x s show ?thesis by (auto simp: task_inv_def)
  qed
  have other_xs: "own_status u \<noteq> Some s" if "u \<in> set xs" for u
    using owners_distinct [OF ownership_owners [OF assms(1)]] t that by (auto simp: mem_owned)
  have other_T: "own_status u \<noteq> Some s" if "T a = Some u" for a u
    using owners_invD(1) [OF ownership_owners [OF assms(1)] that] t by auto
  show "task_inv (P(h := x)) (D(s := None)) n u" if "u \<in> set xs" for u
    using that by (intro old other_xs ownership_elem [OF assms(1)]) simp_all
  show "task_inv (P(h := x)) (D(s := None)) n u" if "T a = Some u" for a u
    by (rule old [OF ownership_task [OF assms(1) that] other_T [OF that]])
  have "D r = Some False \<and> r \<noteq> s" if "g \<noteq> h" "P g = Some (Some r)" for g r
    using F(1) [OF that(2)] F(2) [OF that(2), of h] s that by auto
  then show "frames_inv (P(h := x)) (D(s := None))"
    using F(2) x by (auto simp: frames_inv_def)
  show "addrs_inv (P(h := x)) (D(s := None)) T n"
    using ownership_addrs [OF assms(1)] x by (auto simp: addrs_inv_def)
qed (rule ownership_owners [OF ownership_forget [OF assms(1)]])

subsection \<open>How writes to the heap change the maps\<close>

definition ptr_view :: "(addr \<rightharpoonup> 'b Frame) \<Rightarrow> frame_ptrs" where
  "ptr_view m h = map_option (\<lambda>f. task_status_ptr (promise f)) (m h)"

definition done_view :: "(addr \<rightharpoonup> TaskStatus) \<Rightarrow> done_flags" where
  "done_view m s = map_option handler_done (m s)"

lemma views [simp]:
  "ptr_view (frames w) = ptrs w"
  "ptr_view (m(h := x)) = (ptr_view m)(h := map_option (\<lambda>f. task_status_ptr (promise f)) x)"
  "done_view (statuses w) = dones w"
  "done_view (k(s := y)) = (done_view k)(s := map_option handler_done y)"
  by (simp_all add: ptr_view_def done_view_def ptrs_def dones_def fun_eq_iff)

lemma views_updates [simp]:
  "ptrs (w\<lparr>frames := m\<rparr>) = ptr_view m" "ptrs (w\<lparr>statuses := k\<rparr>) = ptrs w"
  "ptrs (w\<lparr>tasks := n\<rparr>) = ptrs w" "ptrs (w\<lparr>next_addr := a\<rparr>) = ptrs w"
  "dones (w\<lparr>statuses := k\<rparr>) = done_view k" "dones (w\<lparr>frames := m\<rparr>) = dones w"
  "dones (w\<lparr>tasks := n\<rparr>) = dones w" "dones (w\<lparr>next_addr := a\<rparr>) = dones w"
  by (simp_all add: ptrs_def dones_def ptr_view_def done_view_def fun_eq_iff)

lemma ptrs_Some: "ptrs w h = Some p \<longleftrightarrow> (\<exists>f. frames w h = Some f \<and> task_status_ptr (promise f) = p)"
  by (auto simp: ptrs_def)

lemma ptrs_None: "ptrs w h = None \<longleftrightarrow> frames w h = None"
  by (simp add: ptrs_def)

lemma dones_Some: "dones w s = Some b \<longleftrightarrow> (\<exists>st. statuses w s = Some st \<and> handler_done st = b)"
  by (auto simp: dones_def)

text \<open>A write that keeps the status pointer of a frame, or the flag of a status, changes neither map.\<close>

lemma ptrs_same:
  "frames w h = Some f \<Longrightarrow> task_status_ptr p = task_status_ptr (promise f) \<Longrightarrow>
     (ptrs w)(h \<mapsto> task_status_ptr p) = ptrs w"
  by (auto simp: ptrs_def fun_eq_iff)

lemma dones_same:
  "statuses w s = Some st \<Longrightarrow> handler_done st' = handler_done st \<Longrightarrow>
     (dones w)(s \<mapsto> handler_done st') = dones w"
  by (auto simp: dones_def fun_eq_iff)

lemma heap_ok_live_status:
  assumes "heap_ok w xs" and "frames w h = Some f" and "task_status_ptr (promise f) = Some s"
  shows "\<exists>st. statuses w s = Some st \<and> \<not> handler_done st"
  using frames_invD(1) [OF ownership_frames, of "ptrs w" "dones w" "tasks w" "next_addr w" xs h s]
    assms by (auto simp: heap_ok_def ptrs_Some dones_Some)

lemma heap_ok_write_promise:
  assumes "heap_ok w xs" and "frames w h = Some f"
    and "task_status_ptr (promise f') = task_status_ptr (promise f)"
  shows "heap_ok (w\<lparr>frames := (frames w)(h \<mapsto> f')\<rparr>) xs"
  using assms ptrs_same [OF assms(2,3)] by (simp add: heap_ok_def)

lemma heap_ok_write_status:
  assumes "heap_ok w xs" and "statuses w s = Some st" and "handler_done st' = handler_done st"
  shows "heap_ok (w\<lparr>statuses := (statuses w)(s \<mapsto> st')\<rparr>) xs"
  using assms dones_same [OF assms(2,3)] by (simp add: heap_ok_def)

subsection \<open>The primitive accesses, inverted\<close>

lemma frame_at_Inr: "frame_at h w = Inr (f, w') \<longleftrightarrow> frames w h = Some f \<and> w' = w"
  by (auto simp: frame_at_def run_iffs)

lemma promise_at_Inr:
  "promise_at h w = Inr (p, w') \<longleftrightarrow> (\<exists>f. frames w h = Some f \<and> p = promise f) \<and> w' = w"
  by (auto simp: promise_at_def run_iffs frame_at_Inr)

lemma status_at_Inr: "status_at s w = Inr (st, w') \<longleftrightarrow> statuses w s = Some st \<and> w' = w"
  by (auto simp: status_at_def run_iffs)

lemma task_at_Inr: "task_at t w = Inr (x, w') \<longleftrightarrow> tasks w t = Some x \<and> w' = w"
  by (auto simp: task_at_def run_iffs)

lemma update_promise_Inr:
  "update_promise u h w = Inr (x, w') \<longleftrightarrow>
     (\<exists>f. frames w h = Some f \<and> w' = w\<lparr>frames := (frames w)(h \<mapsto> f\<lparr>promise := u (promise f)\<rparr>)\<rparr>)"
  by (auto simp: update_promise_def put_frame_def run_iffs frame_at_Inr)

lemma put_status_Inr:
  "put_status s st w = Inr (x, w') \<longleftrightarrow> w' = w\<lparr>statuses := (statuses w)(s \<mapsto> st)\<rparr>"
  by (auto simp: put_status_def)

lemma put_task_Inr: "put_task t x w = Inr (y, w') \<longleftrightarrow> w' = w\<lparr>tasks := (tasks w)(t \<mapsto> x)\<rparr>"
  by (auto simp: put_task_def)

lemma free_frame_Inr:
  "free_frame h w = Inr (x, w') \<longleftrightarrow>
     frames w h \<noteq> None \<and> w' = w\<lparr>frames := (frames w)(h := None)\<rparr>"
  by (auto simp: free_frame_def run_iffs frame_at_Inr)

lemma free_status_Inr:
  "free_status s w = Inr (x, w') \<longleftrightarrow>
     statuses w s \<noteq> None \<and> w' = w\<lparr>statuses := (statuses w)(s := None)\<rparr>"
  by (auto simp: free_status_def run_iffs status_at_Inr)

lemma non_null_Inr: "non_null p w = Inr (x, w') \<longleftrightarrow> p = Some x \<and> w' = w"
  by (auto simp: non_null_def run_iffs)

lemma task_finished_Inr:
  "task_finished t w = Inr (b, w') \<longleftrightarrow> w' = w \<and>
     (case own_status t of None \<Rightarrow> \<not> b
      | Some s \<Rightarrow> \<exists>st. statuses w s = Some st \<and> b = handler_done st)"
  by (auto simp: task_finished_def run_iffs status_at_Inr split: option.splits)

lemma rethrow_if_Inr:
  "rethrow_if h w = Inr (x, w') \<longleftrightarrow>
     w' = w \<and> (\<exists>f. frames w h = Some f \<and> exception_ptr (promise f) = None)"
  by (auto simp: rethrow_if_def run_iffs promise_at_Inr split: if_splits)

lemmas heap_iffs = run_iffs frame_at_Inr promise_at_Inr status_at_Inr task_at_Inr
  update_promise_Inr put_status_Inr put_task_Inr free_frame_Inr free_status_Inr non_null_Inr
  task_finished_Inr rethrow_if_Inr

subsection \<open>Objects are made, moved and destroyed\<close>

lemma new_coroutine_Inr:
  "new_coroutine b w = Inr (t, w') \<longleftrightarrow>
     t = \<lparr>started_coro = False, own_status = Some (Suc (next_addr w)), own_handle = Some (next_addr w)\<rparr> \<and>
     w' = w\<lparr>frames := (frames w)(next_addr w \<mapsto>
               \<lparr>promise = new_promise\<lparr>task_status_ptr := Some (Suc (next_addr w))\<rparr>,
                suspended = True, body = b\<rparr>),
            statuses := (statuses w)(Suc (next_addr w) \<mapsto> \<lparr>handler_done = False, ret_code = 0\<rparr>),
            next_addr := Suc (Suc (next_addr w))\<rparr>"
  by (auto simp: new_coroutine_def EvTask_construct_def fresh_addr_def put_frame_def heap_iffs)

lemma new_coroutine_ok:
  assumes "heap_ok w xs" and "new_coroutine b w = Inr (t, w')"
  shows "heap_ok w' (t # xs)"
  using ownership_new [OF assms(1) [unfolded heap_ok_def]] assms(2)
  by (simp add: new_coroutine_Inr heap_ok_def)

text \<open>A move only succeeds while the frame is alive, and then changes nothing on the heap.\<close>

lemma move_construct_same:
  assumes inv: "task_inv (ptrs w) (dones w) (next_addr w) t"
    and "EvTask_move_construct t w = Inr (u, w')"
  shows "u = t \<and> w' = w"
proof -
  from assms(2) obtain h f where h: "own_handle t = Some h" "frames w h = Some f" "u = t"
    "w' = w\<lparr>frames := (frames w)(h \<mapsto> f\<lparr>promise := (promise f)\<lparr>task_status_ptr := own_status t\<rparr>\<rparr>)\<rparr>"
    by (auto simp: EvTask_move_construct_def heap_iffs)
  from inv h have "task_status_ptr (promise f) = own_status t"
    by (cases rule: task_inv_cases) (auto simp: ptrs_Some ptrs_None)
  then have "f\<lparr>promise := (promise f)\<lparr>task_status_ptr := own_status t\<rparr>\<rparr> = f"
    by (cases f; cases "promise f") auto
  with h show ?thesis by (simp add: fun_upd_idem)
qed

lemma heap_ok_task_inv:
  assumes "heap_ok w xs"
  shows "t \<in> set xs \<Longrightarrow> task_inv (ptrs w) (dones w) (next_addr w) t"
    and "tasks w a = Some t \<Longrightarrow> task_inv (ptrs w) (dones w) (next_addr w) t"
  using assms unfolding heap_ok_def by (blast intro: ownership_elem ownership_task)+

lemma destruct_ok:
  assumes "heap_ok w (t # xs)" and "EvTask_destruct t w = Inr (u, w')"
  shows "heap_ok w' xs"
proof (cases "own_status t")
  case None
  with assms show ?thesis
    by (auto simp: EvTask_destruct_def heap_ok_def dest: ownership_forget)
next
  case (Some s)
  from assms(1) have inv: "task_inv (ptrs w) (dones w) (next_addr w) t"
    unfolding heap_ok_def by (rule ownership_elem) simp
  then obtain h where h: "own_handle t = Some h" using Some by (cases rule: task_inv_cases) auto
  note release = ownership_release [OF assms(1) [unfolded heap_ok_def] Some h]
  show ?thesis
  proof (cases "ptrs w h")
    case None
    with inv Some h have "dones w s = Some True" by (cases rule: task_inv_cases) auto
    with assms(2) Some have "w' = w\<lparr>statuses := (statuses w)(s := None)\<rparr>"
      by (auto simp: EvTask_destruct_def heap_iffs dones_Some split: if_splits)
    with release [of None] None show ?thesis by (simp add: heap_ok_def fun_upd_idem)
  next
    case (Some p)
    with inv \<open>own_status t = Some s\<close> h have "dones w s = Some False"
      by (cases rule: task_inv_cases) auto
    with assms(2) \<open>own_status t = Some s\<close> h obtain f where "frames w h = Some f"
      "w' = w\<lparr>frames := (frames w)(h \<mapsto> f\<lparr>promise := (promise f)\<lparr>task_status_ptr := None\<rparr>\<rparr>),
              statuses := (statuses w)(s := None)\<rparr>"
      by (auto simp: EvTask_destruct_def heap_iffs dones_Some split: if_splits)
    with release [of "Some None"] Some show ?thesis by (simp add: heap_ok_def)
  qed
qed

text \<open>
  \<open>destroy h\<close> runs the destructors of the locals of the frame, which keep the invariant and end
  variables but make none, and then frees it.
\<close>

definition destroys :: "(addr \<Rightarrow> ('b, 'z, unit) heap_op) \<Rightarrow> bool" where
  "destroys destroy \<longleftrightarrow> (\<forall>h w w' zs. heap_ok w zs \<longrightarrow> destroy h w = Inr ((), w') \<longrightarrow>
     (\<exists>v. heap_ok v zs \<and> frames v h \<noteq> None \<and> w' = v\<lparr>frames := (frames v)(h := None)\<rparr>) \<and>
     (\<forall>a. tasks w' a = tasks w a \<or> tasks w' a = None))"

lemma move_assign_split:
  "EvTask_move_assign destroy this other =
     thenM (case own_handle this of
              None \<Rightarrow> returnM ()
            | Some h \<Rightarrow>
                bindM (non_null (own_status this)) (\<lambda>s.
                bindM (status_at s) (\<lambda>st. whenM (\<not> handler_done st) (destroy h))))
     (thenM (case own_status this of None \<Rightarrow> returnM () | Some s \<Rightarrow> free_status s)
      (EvTask_move_construct other))"
  by (simp add: EvTask_move_assign_def EvTask_move_construct_def)

text \<open>
  A move assignment from a variable that outlives it: the invariant then holds with the target out
  of the account and the source still in its variable.
\<close>

lemma move_assign_ok:
  assumes ok: "heap_ok w (this # xs)" and other: "tasks w t = Some other" and "destroys destroy"
    and run: "EvTask_move_assign destroy this other w = Inr (u, w')" and alive: "tasks w' t \<noteq> None"
  shows "u = other \<and> heap_ok w' xs \<and> tasks w' t = Some other"
proof (cases "own_handle this")
  case None
  have "task_inv (ptrs w) (dones w) (next_addr w) this" by (rule heap_ok_task_inv [OF ok]) simp
  with None have "own_status this = None" by (simp add: task_inv_none)
  with None run have "EvTask_move_construct other w = Inr (u, w')"
    by (simp add: move_assign_split thenM_run)
  moreover have "heap_ok w xs" using ok unfolding heap_ok_def by (rule ownership_forget)
  ultimately show ?thesis
    using move_construct_same heap_ok_task_inv(2) [OF ok other] other by blast
next
  case (Some h)
  have inv: "task_inv (ptrs w) (dones w) (next_addr w) this" by (rule heap_ok_task_inv [OF ok]) simp
  then obtain s where s: "own_status this = Some s" using Some by (cases rule: task_inv_cases) auto
  from run Some s obtain st v1 v2 where st: "statuses w s = Some st"
    and v1: "whenM (\<not> handler_done st) (destroy h) w = Inr ((), v1)"
    and v2: "free_status s v1 = Inr ((), v2)" and tail: "EvTask_move_construct other v2 = Inr (u, w')"
    by (auto simp: move_assign_split thenM_Inr_iff bindM_Inr_iff status_at_Inr non_null_Inr)
  have "tasks w' = tasks v1"
    using v2 tail by (auto simp: free_status_Inr EvTask_move_construct_def heap_iffs)
  have "heap_ok v2 xs \<and> (tasks v1 t = Some other \<or> tasks v1 t = None)"
  proof (cases "handler_done st")
    case True
    with inv Some s st have "ptrs w h = None"
      by (cases rule: task_inv_cases) (auto simp: dones_Some)
    then show ?thesis
      using ownership_release [OF ok [unfolded heap_ok_def] s Some, of None] True v1 v2 other
      by (simp add: heap_ok_def whenM_Inr_iff free_status_Inr fun_upd_idem)
  next
    case False
    with v1 have "destroy h w = Inr ((), v1)" by (simp add: whenM_Inr_iff)
    with ok assms(3) obtain v where "heap_ok v (this # xs)"
      "v1 = v\<lparr>frames := (frames v)(h := None)\<rparr>" "tasks v1 t = tasks w t \<or> tasks v1 t = None"
      unfolding destroys_def by blast
    then show ?thesis
      using ownership_release [of "ptrs v" "dones v" "tasks v" "next_addr v" this xs s h None]
        s Some v2 other by (simp add: heap_ok_def free_status_Inr)
  qed
  with alive \<open>tasks w' = tasks v1\<close> have ok2: "heap_ok v2 xs" and t: "tasks v1 t = Some other" by auto
  from v2 t have "tasks v2 t = Some other" by (simp add: free_status_Inr)
  with ok2 tail t \<open>tasks w' = tasks v1\<close> show ?thesis
    using move_construct_same heap_ok_task_inv(2) by metis
qed

text \<open>Variables: a new coroutine in one, and its end.\<close>

lemma spawn_Inr:
  "spawn b w = Inr (a, w') \<longleftrightarrow>
     (\<exists>t v. new_coroutine b w = Inr (t, v) \<and> a = next_addr v \<and>
       w' = v\<lparr>next_addr := Suc a, tasks := (tasks v)(a \<mapsto> t)\<rparr>)"
  by (auto simp: spawn_def fresh_addr_def heap_iffs)

lemma spawn_ok:
  assumes "heap_ok w xs" and "spawn b w = Inr (a, w')"
  shows "heap_ok w' xs"
proof -
  from assms(2) obtain t v where t: "new_coroutine b w = Inr (t, v)" "a = next_addr v"
      "w' = v\<lparr>next_addr := Suc a, tasks := (tasks v)(a \<mapsto> t)\<rparr>"
    by (auto simp: spawn_Inr)
  from new_coroutine_ok [OF assms(1) t(1)]
  have ok: "ownership (ptrs v) (dones v) (tasks v) (next_addr v) (t # xs)" by (simp add: heap_ok_def)
  have "tasks v a = None"
    using ownership_addrs [OF ok] t(2) by (auto simp: addrs_inv_def)
  then show ?thesis
    using ownership_move_in [OF ownership_next [OF ok, of "Suc a"], of a] t(2,3)
    by (simp add: heap_ok_def)
qed

lemma destruct_tasks_run:
  "EvTask_destruct t (w\<lparr>tasks := m\<rparr>) =
     (case EvTask_destruct t w of Inl e \<Rightarrow> Inl e | Inr (u, w') \<Rightarrow> Inr (u, w'\<lparr>tasks := m\<rparr>))"
  by (auto simp: EvTask_destruct_def runs status_at_def free_status_def update_promise_def
      frame_at_def put_frame_def non_null_def split: option.splits sum.splits)

lemma destruct_tasks:
  assumes "EvTask_destruct t w = Inr (u, w')"
  shows "tasks w' = tasks w" "EvTask_destruct t (w\<lparr>tasks := m\<rparr>) = Inr (u, w'\<lparr>tasks := m\<rparr>)"
proof -
  show "tasks w' = tasks w"
    using assms by (auto simp: EvTask_destruct_def heap_iffs split: option.splits if_splits)
qed (use assms in \<open>simp add: destruct_tasks_run\<close>)

lemma drop_task_ok:
  assumes "heap_ok w xs" and "drop_task t w = Inr (u, w')"
  shows "heap_ok w' xs"
proof -
  from assms(2) obtain x v where x: "tasks w t = Some x" and v: "EvTask_destruct x w = Inr ((), v)"
      and w': "w' = v\<lparr>tasks := (tasks v)(t := None)\<rparr>"
    by (auto simp: drop_task_def free_task_def heap_iffs)
  from destruct_tasks [OF v] w'
  have "EvTask_destruct x (w\<lparr>tasks := (tasks w)(t := None)\<rparr>) = Inr ((), w')" by simp
  moreover have "heap_ok (w\<lparr>tasks := (tasks w)(t := None)\<rparr>) (x # xs)"
    using ownership_move_out [OF assms(1) [unfolded heap_ok_def] x, of None] by (simp add: heap_ok_def)
  ultimately show ?thesis by (metis destruct_ok)
qed

text \<open>Suspension and resumption.\<close>

lemma suspend_at_Inr:
  "suspend_at h b w = Inr (x, w') \<longleftrightarrow> (\<exists>f. frames w h = Some f \<and>
     w' = w\<lparr>frames := (frames w)(h \<mapsto> f\<lparr>suspended := True, body := b\<rparr>)\<rparr>)"
  by (auto simp: suspend_at_def put_frame_def heap_iffs)

lemma begin_resume_Inr:
  "begin_resume h w = Inr (b, w') \<longleftrightarrow> (\<exists>f. frames w h = Some f \<and> suspended f \<and> b = body f \<and>
     w' = w\<lparr>frames := (frames w)(h \<mapsto> f\<lparr>suspended := False\<rparr>)\<rparr>)"
  by (auto simp: begin_resume_def put_frame_def heap_iffs split: if_splits)

lemma suspend_at_ok: "heap_ok w xs \<Longrightarrow> suspend_at h b w = Inr (x, w') \<Longrightarrow> heap_ok w' xs"
  by (auto simp: suspend_at_Inr intro!: heap_ok_write_promise)

lemma begin_resume_ok: "heap_ok w xs \<Longrightarrow> begin_resume h w = Inr (x, w') \<Longrightarrow> heap_ok w' xs"
  by (auto simp: begin_resume_Inr intro!: heap_ok_write_promise)

subsection \<open>Observations the heap does not touch\<close>

text \<open>
  \<open>heap_writes obs\<close>: the operations of \<open>Em_Task\<close> that resume nothing and allocate nothing write three
  fields of the heap only, so they preserve every observation of the rest of the state. With
  \<open>heap_frame obs\<close> the observation does not depend on what has been allocated either.
\<close>

locale heap_writes =
  fixes obs :: "('b, 'z) coro_heap_scheme \<Rightarrow> 'o"
  assumes obs_frames [simp]: "obs (w\<lparr>frames := m\<rparr>) = obs w"
    and obs_statuses [simp]: "obs (w\<lparr>statuses := k\<rparr>) = obs w"
    and obs_tasks [simp]: "obs (w\<lparr>tasks := n\<rparr>) = obs w"
begin

lemma preserves_simple:
  "keeps (preserves obs) (frame_at h)" "keeps (preserves obs) (promise_at h)"
  "keeps (preserves obs) (status_at s)" "keeps (preserves obs) (task_at t)"
  "keeps (preserves obs) (update_promise u h)" "keeps (preserves obs) (put_status s st)"
  "keeps (preserves obs) (put_task t x)" "keeps (preserves obs) (free_frame h)"
  "keeps (preserves obs) (free_status s)" "keeps (preserves obs) (non_null p)"
  "keeps (preserves obs) (task_finished x)" "keeps (preserves obs) (rethrow_if h)"
  "keeps (preserves obs) (free_task t)" "keeps (preserves obs) (put_frame h f)"
  by (auto simp: keeps_def preserves_def heap_iffs free_task_def put_frame_def)

lemma preserves_return_value: "keeps (preserves obs) (return_value c h)"
  unfolding return_value_def
  by (intro same.keeps_rules preserves_simple) (auto split: option.split
      intro: same.keeps_rules preserves_simple)

lemma preserves_destruct: "keeps (preserves obs) (EvTask_destruct t)"
  by (auto simp: keeps_def preserves_def EvTask_destruct_def heap_iffs split: option.splits
      if_splits)

lemma preserves_suspend:
  "keeps (preserves obs) (suspend_at h b)" "keeps (preserves obs) (begin_resume h)"
  by (auto simp: keeps_def preserves_def suspend_at_Inr begin_resume_Inr)

lemma preserves_drop_task: "keeps (preserves obs) (drop_task t)"
  unfolding drop_task_def by (intro same.keeps_rules preserves_simple preserves_destruct)

lemma preserves_move_construct: "keeps (preserves obs) (EvTask_move_construct t)"
  by (auto simp: keeps_def preserves_def EvTask_move_construct_def heap_iffs)

lemma preserves_move_assign:
  assumes "\<And>h. keeps (preserves obs) (destroy h)"
  shows "keeps (preserves obs) (EvTask_move_assign destroy t u)"
  unfolding move_assign_split
  by (intro same.keeps_then preserves_move_construct)
    (auto split: option.split intro: same.keeps_rules preserves_simple assms)

end

locale heap_frame = heap_writes obs
  for obs :: "('b, 'z) coro_heap_scheme \<Rightarrow> 'o" +
  assumes obs_next [simp]: "obs (w\<lparr>next_addr := a\<rparr>) = obs w"
begin

lemma preserves_new_coroutine: "keeps (preserves obs) (new_coroutine b)"
  by (auto simp: keeps_def preserves_def new_coroutine_Inr)

lemma preserves_spawn: "keeps (preserves obs) (spawn b)"
  by (auto simp: keeps_def preserves_def spawn_Inr new_coroutine_Inr)

end

subsection \<open>The operations that resume a coroutine\<close>

text \<open>
  \<open>resuming extra rs\<close>: the interface between an \<open>EvTask\<close> and whatever runs its coroutine. What it runs
  (\<open>rs\<close>) promises to keep the invariant, with \<open>extra\<close> the objects outside \<open>tasks\<close>; then every operation
  that resumes keeps it too.
\<close>

locale resuming = heap_frame extra
  for extra :: "('b, 'z) coro_heap_scheme \<Rightarrow> EvTask list" +
  fixes rs :: "addr \<Rightarrow> ('b, 'z, unit) heap_op"
  assumes resume_keeps: "heap_ok w (extra w) \<Longrightarrow> rs h w = Inr ((), w') \<Longrightarrow> heap_ok w' (extra w')"
begin

abbreviation ok_now :: "('b, 'z) coro_heap_scheme \<Rightarrow> bool" where
  "ok_now w \<equiv> heap_ok w (extra w)"

lemma keeps_simple:
  "keeps (invariance ok_now) (frame_at h)" "keeps (invariance ok_now) (promise_at h)"
  "keeps (invariance ok_now) (status_at s)" "keeps (invariance ok_now) (task_at t)"
  "keeps (invariance ok_now) (non_null p)" "keeps (invariance ok_now) (task_finished x)"
  "keeps (invariance ok_now) (rethrow_if h)"
  by (auto simp: keeps_def invariance_def heap_iffs)

lemma keeps_rs: "keeps (invariance ok_now) (rs h)"
  by (auto simp: keeps_def invariance_def dest: resume_keeps)

lemma keeps_update_promise:
  "(\<And>p. task_status_ptr (u p) = task_status_ptr p) \<Longrightarrow> keeps (invariance ok_now) (update_promise u h)"
  by (auto simp: keeps_def invariance_def update_promise_Inr intro: heap_ok_write_promise)

lemma keeps_return_value: "keeps (invariance ok_now) (return_value c h)"
  by (auto simp: keeps_def invariance_def return_value_def heap_iffs split: option.splits
      intro!: heap_ok_write_status)

lemma keeps_unhandled_exception: "keeps (invariance ok_now) (unhandled_exception e h)"
  unfolding unhandled_exception_def by (rule keeps_update_promise) simp

lemma keeps_publish: "keeps (invariance ok_now) (publish_to_promise d h)"
  unfolding publish_to_promise_def by (rule keeps_update_promise) simp

lemma keeps_set_metadata: "keeps (invariance ok_now) (set_coro_metadata m t)"
  unfolding set_coro_metadata_def
  by (auto split: option.split intro!: stable.keeps_rules keeps_update_promise)

lemma keeps_set_started:
  "keeps (invariance ok_now) (bindM (task_at t) (\<lambda>x. put_task t (x\<lparr>started_coro := b\<rparr>)))"
  by (auto simp: keeps_def invariance_def heap_iffs heap_ok_def intro: ownership_started)

text \<open>
  The end of a coroutine: whatever the awaiter did to the frame in the meantime, the status it then
  points to is marked done together with the end of the frame.
\<close>

lemma finish_ok:
  assumes "heap_ok w xs" and "frames w h = Some f"
    and "bindM (promise_at h) (\<lambda>p.
      thenM (case task_status_ptr p of
               None \<Rightarrow> returnM ()
             | Some s \<Rightarrow> bindM (status_at s) (\<lambda>st. put_status s (st\<lparr>handler_done := True\<rparr>)))
      (free_frame h)) w = Inr ((), w')"
  shows "heap_ok w' xs"
proof -
  have "ptrs w h = Some (task_status_ptr (promise f))" using assms(2) by (simp add: ptrs_def)
  note finish = ownership_finish [OF assms(1) [unfolded heap_ok_def] this HOL.refl]
  show ?thesis
    using assms(2,3) finish
    by (cases "task_status_ptr (promise f)") (auto simp: heap_iffs heap_ok_def)
qed

lemma keeps_final_suspend: "keeps (invariance ok_now) (final_suspend rs h)"
  unfolding final_suspend_def
proof (rule stable.keeps_bind [OF keeps_simple(2)], rule stable.keeps_then)
  show "keeps (invariance ok_now) (case awaiter_handle p of None \<Rightarrow> returnM () | Some a \<Rightarrow> rs a)" for p
    by (auto split: option.split intro: stable.keeps_return keeps_rs)
next
  fix p
  show "keeps (invariance ok_now) (bindM (promise_at h) (\<lambda>p.
      thenM (case task_status_ptr p of
               None \<Rightarrow> returnM ()
             | Some s \<Rightarrow> bindM (status_at s) (\<lambda>st. put_status s (st\<lparr>handler_done := True\<rparr>)))
      (free_frame h)))" (is "keeps _ ?end")
  proof (rule keepsI)
    fix w x w' assume run: "?end w = Inr (x, w')"
    then obtain f where "frames w h = Some f" by (auto simp: heap_iffs)
    moreover have "extra w' = extra w"
      using run by (auto simp: heap_iffs split: option.splits)
    ultimately show "invariance ok_now w w'"
      using run by (auto simp: invariance_def intro: finish_ok)
  qed
qed

lemma keeps_start: "keeps (invariance ok_now) (EvTask_start rs t)"
proof -
  have split: "EvTask_start rs t =
    bindM (task_at t) (\<lambda>this.
      if started_coro this then returnM None
      else thenM (bindM (task_at t) (\<lambda>x. put_task t (x\<lparr>started_coro := True\<rparr>)))
        (bindM (non_null (own_handle this)) (\<lambda>h.
         thenM (rs h) (bindM (task_at t) (\<lambda>this. bindM (task_finished this) (\<lambda>finished.
           if finished then returnM None else thenM (rethrow_if h) (returnM (Some h))))))))"
    by (rule ext) (auto simp: EvTask_start_def runs task_at_def split: option.split sum.split)
  show ?thesis
    unfolding split
    by (auto intro!: stable.keeps_rules keeps_simple keeps_rs keeps_set_started split: if_splits)
qed

lemma keeps_task_resume: "keeps (invariance ok_now) (EvTask_resume rs t)"
  unfolding EvTask_resume_def by (intro stable.keeps_bind keeps_simple keeps_rs)

lemma keeps_await_suspend: "keeps (invariance ok_now) (EvTask_await_suspend rs t other)"
  unfolding EvTask_await_suspend_def
  by (auto intro!: stable.keeps_rules keeps_simple keeps_rs keeps_start keeps_update_promise
      split: if_splits)

lemma keeps_await_resume: "keeps (invariance ok_now) (EvTask_await_resume t)"
  by (auto simp: keeps_def invariance_def EvTask_await_resume_def heap_iffs split: option.splits)

lemma keeps_resume_with: "keeps (invariance ok_now) (EvTask_resume_with rs d t)"
proof -
  have split: "EvTask_resume_with rs d t =
    bindM (task_at t) (\<lambda>this.
      thenM (bindM (task_at t) (\<lambda>x. put_task t (x\<lparr>started_coro := True\<rparr>)))
        (bindM (non_null (own_handle this)) (\<lambda>h. thenM (publish_to_promise d h) (thenM (rs h)
          (thenM (rethrow_if h) (returnM h))))))"
    by (rule ext) (auto simp: EvTask_resume_with_def runs task_at_def split: option.split sum.split)
  show ?thesis
    unfolding split
    by (auto intro!: stable.keeps_rules keeps_simple keeps_rs keeps_set_started keeps_publish)
qed

end

end
