(* ===== verification/Em_Task_Laws.thy ===== *)
theory Em_Task_Laws
  imports Em_Ownership
begin

text \<open>
  What the ownership of the heap means for the code that uses tasks: when the flags it tests can be
  set, which operations a finished task still has, and how a result and an awaiting coroutine travel
  through the shared status and promise.
\<close>

text \<open>A heap with one coroutine, suspended before its first statement or running.\<close>

definition one_coroutine :: "bool \<Rightarrow> unit coro_heap" where
  "one_coroutine started =
     \<lparr>frames = [0 \<mapsto> \<lparr>promise = new_promise\<lparr>task_status_ptr := Some 1\<rparr>, suspended = \<not> started, body = ()\<rparr>],
      statuses = [1 \<mapsto> \<lparr>handler_done = False, ret_code = 0\<rparr>],
      tasks = [2 \<mapsto> \<lparr>started_coro = started, own_status = Some 1, own_handle = Some 0\<rparr>],
      next_addr = 3\<rparr>"

lemma one_coroutine_ok: "heap_ok (one_coroutine started) []"
  by (auto simp: one_coroutine_def heap_ok_def ownership_def task_inv_def frames_inv_def owners_inv_def
      addrs_inv_def ptrs_def dones_def split: if_splits)

lemma one_coroutine_sel [simp]:
  "frames (one_coroutine b) =
     [0 \<mapsto> \<lparr>promise = new_promise\<lparr>task_status_ptr := Some 1\<rparr>, suspended = \<not> b, body = ()\<rparr>]"
  "statuses (one_coroutine b) = [1 \<mapsto> \<lparr>handler_done = False, ret_code = 0\<rparr>]"
  "tasks (one_coroutine b) = [2 \<mapsto> \<lparr>started_coro = b, own_status = Some 1, own_handle = Some 0\<rparr>]"
  by (simp_all add: one_coroutine_def)

definition finished_coroutine :: "unit coro_heap" where
  "finished_coroutine =
     \<lparr>frames = Map.empty, statuses = [1 \<mapsto> \<lparr>handler_done = True, ret_code = 7\<rparr>],
      tasks = Map.empty, next_addr = 3\<rparr>"

definition its_task :: EvTask where
  "its_task = \<lparr>started_coro = True, own_status = Some 1, own_handle = Some 0\<rparr>"

lemma finished_coroutine_ok: "heap_ok finished_coroutine [its_task]"
  by (auto simp: finished_coroutine_def its_task_def heap_ok_def ownership_def task_inv_def
      frames_inv_def owners_inv_def addrs_inv_def ptrs_def dones_def split: if_splits)

lemma new_promise_sel [simp]:
  "awaiter_handle new_promise = None" "exception_ptr new_promise = None"
  "task_status_ptr new_promise = None"
  by (simp_all add: new_promise_def)

text \<open>
  C28. No live coroutine is ever seen finished: wherever the ownership of the heap is sound, \<open>is_done()\<close>
  of a promise returns \<open>false\<close> or reads a frame that is gone. The flag is set and the frame freed by the
  same \<open>final_suspend\<close>, so the test by which the event loop decides to give a slot of
  \<open>_managed_coroutines_store\<close> back never succeeds on a promise it may read.
\<close>

theorem live_promise_not_done:
  assumes "heap_ok w xs" and "promise_is_done h w = Inr (finished, w')"
  shows "\<not> finished \<and> w' = w"
proof -
  from assms(2) obtain f where f: "frames w h = Some f"
      and rest: "(case task_status_ptr (promise f) of None \<Rightarrow> returnM False
        | Some s \<Rightarrow> bindM (status_at s) (\<lambda>st. returnM (handler_done st))) w = Inr (finished, w')"
    by (auto simp: promise_is_done_def heap_iffs)
  show ?thesis
  proof (cases "task_status_ptr (promise f)")
    case None
    with rest show ?thesis by simp
  next
    case (Some s)
    with heap_ok_live_status [OF assms(1) f] rest show ?thesis by (auto simp: heap_iffs)
  qed
qed

theorem live_promise_not_done_witness:
  "promise_is_done 0 (one_coroutine True) = Inr (False, one_coroutine True)"
proof -
  have "\<exists>b w. promise_is_done 0 (one_coroutine True) = Inr (b, w)"
    by (auto simp: promise_is_done_def promise_at_def frame_at_def status_at_def runs)
  then obtain b w where run: "promise_is_done 0 (one_coroutine True) = Inr (b, w)" by blast
  from live_promise_not_done [OF one_coroutine_ok run] run show ?thesis by simp
qed

text \<open>
  C27. A task whose coroutine has finished cannot be moved, although it can be destroyed and asked for its
  result: both ways to move an \<open>EvTask\<close> write to the promise of the coroutine, whose frame is gone by
  then, and so does \<open>set_coro_metadata\<close>. Registering a coroutine that finishes while it is being
  started, or growing the vector of the managed coroutines when one of them has finished, does this.
\<close>

theorem finished_task_cannot_move:
  assumes "heap_ok w (t # xs)" and "own_status t = Some s" and "dones w s = Some True"
  shows "EvTask_move_construct t w = Inl UseAfterFree \<and>
    EvTask_move_assign destroy moved_from t w = Inl UseAfterFree \<and>
    set_coro_metadata m t w = Inl UseAfterFree \<and>
    (\<exists>w'. EvTask_destruct t w = Inr ((), w'))"
proof -
  from heap_ok_task_inv(1) [OF assms(1), of t]
  have inv: "task_inv (ptrs w) (dones w) (next_addr w) t" by simp
  then obtain h where h: "own_handle t = Some h" "frames w h = None"
    using assms(2,3) by (cases rule: task_inv_cases) (auto simp: ptrs_None)
  from assms(3) obtain st where st: "statuses w s = Some st" "handler_done st"
    by (auto simp: dones_Some)
  show ?thesis
    using h st assms(2)
    by (simp add: EvTask_move_construct_def EvTask_move_assign_def set_coro_metadata_def
        EvTask_destruct_def non_null_def update_promise_def frame_at_def status_at_def free_status_def
        runs)
qed

theorem finished_task_cannot_move_witness:
  "EvTask_move_construct its_task finished_coroutine = Inl UseAfterFree"
proof -
  have "own_status its_task = Some 1" "dones finished_coroutine 1 = Some True"
    by (simp_all add: its_task_def dones_def finished_coroutine_def)
  with finished_coroutine_ok finished_task_cannot_move show ?thesis by blast
qed

text \<open>
  C26. What a coroutine returns is what awaiting its task yields: after \<open>co_return value\<close> of a coroutine
  that nobody awaits yet, with its frame freed, the status its task owns is done and holds the value,
  and \<open>await_resume\<close> reads it from there.
\<close>

theorem returned_value_awaited:
  assumes "heap_ok w xs" and "tasks w t = Some x" and "own_handle x = Some h"
    and "frames w h = Some f" and "awaiter_handle (promise f) = None"
  shows "\<exists>s w'. thenM (return_value v h) (thenM (final_suspend rs h) (EvTask_await_resume t)) w =
      Inr (v, w') \<and> own_status x = Some s \<and> frames w' = (frames w)(h := None) \<and>
      statuses w' s = Some \<lparr>handler_done = True, ret_code = v\<rparr> \<and> EvTask_is_done t w' = Inr (True, w')"
proof -
  from heap_ok_task_inv(2) [OF assms(1,2)]
  obtain s where s: "own_status x = Some s" "dones w s = Some False" "ptrs w h = Some (Some s)"
    using assms(3,4) by (cases rule: task_inv_cases) (auto simp: ptrs_None)
  then obtain st where "statuses w s = Some st" "task_status_ptr (promise f) = Some s"
    using assms(4) by (auto simp: dones_Some ptrs_Some)
  then show ?thesis
    using s assms(2-5)
    by (cases st) (simp add: return_value_def final_suspend_def EvTask_await_resume_def
        EvTask_is_done_def promise_at_def frame_at_def status_at_def put_status_def free_frame_def
        task_at_def non_null_def runs)
qed

theorem returned_value_awaited_witness:
  "\<exists>w'. thenM (return_value 7 0) (thenM (final_suspend (\<lambda>h. returnM ()) 0) (EvTask_await_resume 2))
     (one_coroutine True) = Inr (7, w')"
  using returned_value_awaited [OF one_coroutine_ok, of True 2 its_task 0 _ 7 "\<lambda>h. returnM ()"]
  by (fastforce simp: its_task_def)

text \<open>
  C29. A task has room for one awaiting coroutine: awaiting a coroutine that has started and not
  finished stores the handle of the one that awaits it and resumes nobody, and a second one that
  awaits it takes the place of the first, which nothing will resume any more.
\<close>

theorem second_awaiter_replaces_first:
  assumes "heap_ok w xs" and "tasks w t = Some x" and "started_coro x" and "own_handle x = Some h"
    and "frames w h = Some f"
  shows "\<exists>w1 w2 f2. EvTask_await_suspend rs t a w = Inr ((), w1) \<and>
    EvTask_await_suspend rs t b w1 = Inr ((), w2) \<and> frames w2 h = Some f2 \<and>
    awaiter_handle (promise f2) = Some b \<and> frames w2 = (frames w)(h \<mapsto> f2) \<and>
    statuses w2 = statuses w \<and> tasks w2 = tasks w"
proof -
  from heap_ok_task_inv(2) [OF assms(1,2)]
  obtain s where s: "own_status x = Some s" "dones w s = Some False"
    using assms(4,5) by (cases rule: task_inv_cases) (auto simp: ptrs_None)
  then obtain st where "statuses w s = Some st" "\<not> handler_done st" by (auto simp: dones_Some)
  then show ?thesis
    using s assms(2-5)
    by (simp add: EvTask_await_suspend_def task_finished_def task_at_def status_at_def non_null_def
        update_promise_def frame_at_def put_frame_def runs)
qed

theorem second_awaiter_replaces_first_witness:
  "\<exists>w1 w2 f2. EvTask_await_suspend (\<lambda>h. returnM ()) 2 8 (one_coroutine True) = Inr ((), w1) \<and>
     EvTask_await_suspend (\<lambda>h. returnM ()) 2 9 w1 = Inr ((), w2) \<and> frames w2 0 = Some f2 \<and>
     awaiter_handle (promise f2) = Some 9"
  using second_awaiter_replaces_first [OF one_coroutine_ok, of True 2 its_task 0 _ "\<lambda>h. returnM ()" 8 9]
  by (fastforce simp: its_task_def)

end
