(* ===== verification/Em_Store.thy ===== *)
theory Em_Store
  imports Em_Prelude
begin

text \<open>
  \<open>ItemStore\<close> of \<open>event_manager.hpp\<close>: a vector whose erased slots are remembered in an unordered set
  and reused by later insertions. Two things the standard library leaves open are parameters:
  \<open>pick\<close> says which element of a non-empty \<open>unordered_set\<close> its \<open>begin()\<close> is, and \<open>grow\<close> the capacity
  a full vector grows to; both are corrected to a value the library may give, so no hypothesis
  on them is needed.

  A \<open>T\<close> is moved into the store, and a vector that grows moves every element. For \<open>T = EvTask\<close> these
  moves have effects (and can fault), so the move construction and the move assignment of \<open>T\<close> are
  arguments of \<open>ItemStore_insert\<close>; \<open>ItemStore_put\<close> is what it does to the store itself when they
  succeed. The locale \<open>slots\<close> is what the event manager relies on.
\<close>

record 'a ItemStore =
  items :: "'a list"
  capacity :: nat
  freed_idxs :: "nat set"

definition new_ItemStore :: "'a ItemStore" where
  "new_ItemStore = \<lparr>items = [], capacity = 0, freed_idxs = {}\<rparr>"

text \<open>\<open>*_freed_idxs.begin()\<close> of a non-empty set: some element of it.\<close>

definition first_of :: "(nat set \<Rightarrow> nat) \<Rightarrow> nat set \<Rightarrow> nat" where
  "first_of pick S = (if pick S \<in> S then pick S else Min S)"

definition grown :: "(nat \<Rightarrow> nat) \<Rightarrow> nat \<Rightarrow> nat" where
  "grown grow n = max (grow n) (Suc n)"

text \<open>
  \<open>insert\<close>. A freed slot is move-assigned to; otherwise \<open>push_back\<close> move-constructs the new element
  behind the last, after which a full vector has moved its old elements to its new storage.
\<close>

definition ItemStore_insert ::
    "(nat set \<Rightarrow> nat) \<Rightarrow> (nat \<Rightarrow> nat) \<Rightarrow> ('a \<Rightarrow> ('w, 'a) op) \<Rightarrow> ('a \<Rightarrow> 'a \<Rightarrow> ('w, 'a) op) \<Rightarrow>
     'a \<Rightarrow> 'a ItemStore \<Rightarrow> ('w, nat \<times> 'a ItemStore) op" where
  "ItemStore_insert pick grow move_construct move_assign item st =
     (if freed_idxs st \<noteq> {}
      then let selected_idx = first_of pick (freed_idxs st);
               st' = st\<lparr>freed_idxs := freed_idxs st - {selected_idx}\<rparr>
           in if selected_idx < length (items st)
              then bindM (move_assign (items st ! selected_idx) item) (\<lambda>x.
                   returnM (selected_idx, st'\<lparr>items := (items st)[selected_idx := x]\<rparr>))
              else faultM OutOfRangeIndex
      else bindM (move_construct item) (\<lambda>x.
           if length (items st) < capacity st
           then returnM (length (items st), st\<lparr>items := items st @ [x]\<rparr>)
           else bindM (mapM move_construct (items st)) (\<lambda>xs.
                returnM (length (items st),
                  st\<lparr>items := xs @ [x], capacity := grown grow (capacity st)\<rparr>))))"

text \<open>\<open>operator[]\<close>: reading past the end is undefined.\<close>

definition ItemStore_at :: "'a ItemStore \<Rightarrow> nat \<Rightarrow> ('w, 'a) op" where
  "ItemStore_at st idx =
     (if idx < length (items st) then returnM (items st ! idx) else faultM OutOfRangeIndex)"

definition ItemStore_erase :: "nat \<Rightarrow> 'a ItemStore \<Rightarrow> 'a ItemStore" where
  "ItemStore_erase idx st = st\<lparr>freed_idxs := insert idx (freed_idxs st)\<rparr>"

subsection \<open>What an insertion does to the store\<close>

text \<open>The effect of an insertion on the store alone, which \<open>ItemStore_insert_put\<close> ties to the code.\<close>

definition ItemStore_put ::
    "(nat set \<Rightarrow> nat) \<Rightarrow> (nat \<Rightarrow> nat) \<Rightarrow> 'a \<Rightarrow> 'a ItemStore \<Rightarrow> nat \<times> 'a ItemStore" where
  "ItemStore_put pick grow item st =
     (if freed_idxs st \<noteq> {}
      then let i = first_of pick (freed_idxs st)
           in (i, st\<lparr>freed_idxs := freed_idxs st - {i}, items := (items st)[i := item]\<rparr>)
      else (length (items st),
            st\<lparr>items := items st @ [item],
               capacity := (if length (items st) < capacity st then capacity st
                            else grown grow (capacity st))\<rparr>))"

definition ItemStore_live :: "'a ItemStore \<Rightarrow> nat set" where
  "ItemStore_live st = {..<length (items st)} - freed_idxs st"

definition ItemStore_ok :: "'a ItemStore \<Rightarrow> bool" where
  "ItemStore_ok st \<longleftrightarrow>
     freed_idxs st \<subseteq> {..<length (items st)} \<and> length (items st) \<le> capacity st"

lemma ItemStore_ok_new [simp]: "ItemStore_ok new_ItemStore"
  by (simp add: ItemStore_ok_def new_ItemStore_def)

lemma first_of_mem: "finite S \<Longrightarrow> S \<noteq> {} \<Longrightarrow> first_of pick S \<in> S"
  by (simp add: first_of_def)

lemma ItemStore_ok_finite: "ItemStore_ok st \<Longrightarrow> finite (freed_idxs st)"
  by (auto simp: ItemStore_ok_def intro: finite_subset)

lemma mapM_faithful:
  assumes "\<And>x w y w'. f x w = Inr (y, w') \<Longrightarrow> y = x"
  shows "mapM f xs w = Inr (ys, w') \<Longrightarrow> ys = xs"
  by (induction xs arbitrary: ys w w') (auto simp: bindM_Inr_iff dest: assms)

text \<open>
  Where the moves of \<open>T\<close> hand over the object unchanged, an insertion that does not fault is
  \<open>ItemStore_put\<close>.
\<close>

lemma ItemStore_insert_put:
  assumes "\<And>x w y w'. mc x w = Inr (y, w') \<Longrightarrow> y = x"
    and "\<And>old x w y w'. ma old x w = Inr (y, w') \<Longrightarrow> y = x"
    and run: "ItemStore_insert pick grow mc ma item st w = Inr ((i, st'), w')"
  shows "(i, st') = ItemStore_put pick grow item st"
proof (cases "freed_idxs st = {}")
  case True
  have moved: "mapM mc xs u = Inr (ys, u') \<Longrightarrow> ys = xs" for xs ys u u'
    using assms(1) by (rule mapM_faithful)
  from True run show ?thesis
    by (auto simp: ItemStore_insert_def ItemStore_put_def bindM_Inr_iff dest!: assms(1) moved
        split: if_splits)
next
  case False
  with run show ?thesis
    by (auto simp: ItemStore_insert_def ItemStore_put_def Let_def bindM_Inr_iff dest!: assms(2)
        split: if_splits)
qed

subsection \<open>The interface: slots\<close>

locale slots =
  fixes put :: "'a \<Rightarrow> 's \<Rightarrow> nat \<times> 's"
    and erase :: "nat \<Rightarrow> 's \<Rightarrow> 's"
    and at :: "'s \<Rightarrow> nat \<Rightarrow> 'a"
    and live :: "'s \<Rightarrow> nat set"
    and ok :: "'s \<Rightarrow> bool"
  assumes put_fresh: "ok s \<Longrightarrow> put x s = (i, s') \<Longrightarrow> i \<notin> live s"
    and put_live: "ok s \<Longrightarrow> put x s = (i, s') \<Longrightarrow> live s' = insert i (live s)"
    and put_at: "ok s \<Longrightarrow> put x s = (i, s') \<Longrightarrow> at s' i = x"
    and put_other: "ok s \<Longrightarrow> put x s = (i, s') \<Longrightarrow> j \<in> live s \<Longrightarrow> at s' j = at s j"
    and put_ok: "ok s \<Longrightarrow> put x s = (i, s') \<Longrightarrow> ok s'"
    and erase_live: "ok s \<Longrightarrow> i \<in> live s \<Longrightarrow> live (erase i s) = live s - {i}"
    and erase_at: "at (erase i s) j = at s j"
    and erase_ok: "ok s \<Longrightarrow> i \<in> live s \<Longrightarrow> ok (erase i s)"
begin

text \<open>The store as a finite map from the live indices, which is what its clients see.\<close>

definition contents :: "'s \<Rightarrow> nat \<rightharpoonup> 'a" where
  "contents s i = (if i \<in> live s then Some (at s i) else None)"

lemma contents_put:
  assumes "ok s" and "put x s = (i, s')"
  shows "contents s i = None \<and> contents s' = (contents s)(i \<mapsto> x)"
  using assms by (auto simp: contents_def fun_eq_iff put_live put_at put_other dest: put_fresh)

lemma contents_erase: "ok s \<Longrightarrow> i \<in> live s \<Longrightarrow> contents (erase i s) = (contents s)(i := None)"
  by (auto simp: contents_def fun_eq_iff erase_live erase_at)

lemma two_puts_differ:
  assumes "ok s" and "put x s = (i, s')" and "put y s' = (j, s'')"
  shows "i \<noteq> j"
  using assms put_fresh [OF put_ok] put_live by blast

text \<open>Insertions in a row: each item is found at the index it was given.\<close>

fun puts :: "'a list \<Rightarrow> 's \<Rightarrow> nat list \<times> 's" where
  "puts [] s = ([], s)"
| "puts (x # xs) s =
     (case put x s of (i, s') \<Rightarrow> case puts xs s' of (is, s'') \<Rightarrow> (i # is, s''))"

lemma puts_spec:
  "ok s \<Longrightarrow> puts xs s = (is, s') \<Longrightarrow>
     ok s' \<and> distinct is \<and> set is \<inter> live s = {} \<and> live s' = live s \<union> set is \<and>
     map (at s') is = xs \<and> (\<forall>j \<in> live s. at s' j = at s j)"
proof (induction xs arbitrary: s "is" s')
  case Nil
  then show ?case by simp
next
  case (Cons x xs)
  obtain i t where put: "put x s = (i, t)" by (cases "put x s")
  obtain js t' where rest: "puts xs t = (js, t')" by (cases "puts xs t")
  from Cons.prems put rest have eq: "is = i # js" "s' = t'" by auto
  have t: "ok t" "live t = insert i (live s)" "i \<notin> live s" "at t i = x"
      "\<forall>j \<in> live s. at t j = at s j"
    using Cons.prems(1) put by (auto simp: put_live put_at put_other intro: put_ok dest: put_fresh)
  from Cons.IH [OF t(1) rest] t show ?case unfolding eq by auto
qed

end

interpretation store: slots "ItemStore_put pick grow" ItemStore_erase "\<lambda>st i. items st ! i"
  ItemStore_live ItemStore_ok for pick grow
proof
  fix s s' :: "'a ItemStore" and x i j
  assume ok: "ItemStore_ok s"
  have first: "freed_idxs s \<noteq> {} \<Longrightarrow> first_of pick (freed_idxs s) \<in> freed_idxs s"
    by (rule first_of_mem) (simp_all add: ItemStore_ok_finite ok)
  have below: "freed_idxs s \<subseteq> {..<length (items s)}"
    using ok by (simp add: ItemStore_ok_def)
  show "i \<notin> ItemStore_live s" if "ItemStore_put pick grow x s = (i, s')"
    using that first by (auto simp: ItemStore_put_def ItemStore_live_def Let_def split: if_splits)
  show "ItemStore_live s' = insert i (ItemStore_live s)" if "ItemStore_put pick grow x s = (i, s')"
    using that first below
    by (auto simp: ItemStore_put_def ItemStore_live_def Let_def split: if_splits)
  show "items s' ! i = x" if "ItemStore_put pick grow x s = (i, s')"
    using that first below by (auto simp: ItemStore_put_def Let_def split: if_splits)
  show "items s' ! j = items s ! j"
    if "ItemStore_put pick grow x s = (i, s')" and "j \<in> ItemStore_live s"
    using that first by (cases "j = first_of pick (freed_idxs s)")
      (auto simp: ItemStore_put_def ItemStore_live_def Let_def nth_append split: if_splits)
  show "ItemStore_ok s'" if "ItemStore_put pick grow x s = (i, s')"
    using that ok first
    by (auto simp: ItemStore_put_def ItemStore_ok_def Let_def grown_def split: if_splits)
  show "ItemStore_live (ItemStore_erase i s) = ItemStore_live s - {i}" if "i \<in> ItemStore_live s"
    by (auto simp: ItemStore_erase_def ItemStore_live_def)
  show "ItemStore_ok (ItemStore_erase i s)" if "i \<in> ItemStore_live s"
    using that ok by (auto simp: ItemStore_erase_def ItemStore_ok_def ItemStore_live_def)
qed (simp add: ItemStore_erase_def)

subsection \<open>What the store guarantees\<close>

text \<open>Insertions in a row, with the indices they return.\<close>

fun ItemStore_inserts ::
    "(nat set \<Rightarrow> nat) \<Rightarrow> (nat \<Rightarrow> nat) \<Rightarrow> ('a \<Rightarrow> ('w, 'a) op) \<Rightarrow> ('a \<Rightarrow> 'a \<Rightarrow> ('w, 'a) op) \<Rightarrow>
     'a list \<Rightarrow> 'a ItemStore \<Rightarrow> ('w, nat list \<times> 'a ItemStore) op" where
  "ItemStore_inserts pick grow mc ma [] st = returnM ([], st)"
| "ItemStore_inserts pick grow mc ma (x # xs) st =
     bindM (ItemStore_insert pick grow mc ma x st) (\<lambda>(i, st').
     bindM (ItemStore_inserts pick grow mc ma xs st') (\<lambda>(is, st'').
     returnM (i # is, st'')))"

text \<open>The moves of \<open>T\<close> hand over the object they are given, if they do not fault.\<close>

definition hands_over :: "('a \<Rightarrow> ('w, 'a) op) \<Rightarrow> ('a \<Rightarrow> 'a \<Rightarrow> ('w, 'a) op) \<Rightarrow> bool" where
  "hands_over mc ma \<longleftrightarrow> (\<forall>x w y w'. mc x w = Inr (y, w') \<longrightarrow> y = x) \<and>
     (\<forall>old x w y w'. ma old x w = Inr (y, w') \<longrightarrow> y = x)"

lemma insert_put:
  "\<lbrakk>hands_over mc ma; ItemStore_insert pick grow mc ma x st w = Inr ((i, st'), w')\<rbrakk> \<Longrightarrow>
     ItemStore_put pick grow x st = (i, st')"
  unfolding hands_over_def by (rule ItemStore_insert_put [of mc ma, symmetric]) blast+

lemma inserts_puts:
  "hands_over mc ma \<Longrightarrow> ItemStore_inserts pick grow mc ma xs st w = Inr ((is, st'), w') \<Longrightarrow>
     store.puts pick grow xs st = (is, st')"
proof (induction xs arbitrary: st w "is")
  case Nil
  then show ?case by simp
next
  case (Cons x xs)
  then obtain i t v js where 1: "ItemStore_insert pick grow mc ma x st w = Inr ((i, t), v)"
      and 2: "ItemStore_inserts pick grow mc ma xs t v = Inr ((js, st'), w')" and "is = i # js"
    by (auto simp: bindM_Inr_iff)
  then show ?case using Cons.IH [OF Cons.prems(1) 2] insert_put [OF Cons.prems(1) 1] by simp
qed

text \<open>
  C30. A store hands out fresh indices and keeps what it holds: after any number of insertions into a
  well-formed store, whatever order the standard library offers its freed slots in, the indices
  returned are pairwise different and none was in use, each item is at the index returned for it,
  the items that were there before have not moved, and the store is well formed again. The moves of the
  items may have effects and may fault; all that is asked of them is that they hand over the item.
\<close>

theorem store_insertions:
  assumes "ItemStore_ok st" and "hands_over mc ma"
    and "ItemStore_inserts pick grow mc ma xs st w = Inr ((is, st'), w')"
  shows "distinct is \<and> set is \<inter> ItemStore_live st = {} \<and>
    ItemStore_live st' = ItemStore_live st \<union> set is \<and> map ((!) (items st')) is = xs \<and>
    map ((!) (items st')) (sorted_list_of_set (ItemStore_live st)) =
      map ((!) (items st)) (sorted_list_of_set (ItemStore_live st)) \<and> ItemStore_ok st'"
proof -
  have "finite (ItemStore_live st)" by (simp add: ItemStore_live_def)
  then show ?thesis
    using store.puts_spec [OF assms(1) inserts_puts [OF assms(2,3)]] by simp
qed

lemma hands_over_return [simp]: "hands_over returnM (\<lambda>_. returnM)"
  by (simp add: hands_over_def)

theorem store_insertions_witness:
  "\<exists>st'. ItemStore_inserts (\<lambda>S. 0) ((*) 2) returnM (\<lambda>_. returnM) [''b'', ''c'']
       (ItemStore_erase 1 \<lparr>items = [''a'', ''x''], capacity = 2, freed_idxs = {}\<rparr>) () =
     Inr (([1, 2], st'), ()) \<and>
     ItemStore_live st' = {0, 1, 2} \<and> map ((!) (items st')) [1, 2] = [''b'', ''c''] \<and> ItemStore_ok st'"
proof -
  let ?st = "ItemStore_erase 1 \<lparr>items = [''a'', ''x''], capacity = 2, freed_idxs = {}\<rparr>"
  let ?st' = "\<lparr>items = [''a'', ''b'', ''c''], capacity = 4, freed_idxs = {}\<rparr>"
  have ok: "ItemStore_ok ?st" by (simp add: ItemStore_ok_def ItemStore_erase_def)
  have run: "ItemStore_inserts (\<lambda>S. 0) ((*) 2) returnM (\<lambda>_. returnM) [''b'', ''c''] ?st () =
      Inr (([1, 2], ?st'), ())"
    by (simp add: ItemStore_erase_def ItemStore_insert_def first_of_def grown_def Let_def runs)
  have "ItemStore_live ?st = {0}"
    by (auto simp: ItemStore_live_def ItemStore_erase_def less_Suc_eq)
  with store_insertions [OF ok hands_over_return run] run show ?thesis
    by (intro exI [of _ ?st']) auto
qed

text \<open>
  C31. A slot that is erased is used again before the vector grows: the insertion after an erase takes
  a freed index, the length of the vector stays the same, and only that element is replaced.
\<close>

theorem store_reuses:
  assumes "ItemStore_ok st" and "i \<in> ItemStore_live st" and "hands_over mc ma"
    and "ItemStore_insert pick grow mc ma x (ItemStore_erase i st) w = Inr ((j, st'), w')"
  shows "j \<in> insert i (freed_idxs st) \<and> length (items st') = length (items st) \<and>
    items st' = (items st)[j := x] \<and> freed_idxs st' = insert i (freed_idxs st) - {j} \<and>
    capacity st' = capacity st"
  using assms(1,2) insert_put [OF assms(3,4)] first_of_mem [of "insert i (freed_idxs st)" pick]
    ItemStore_ok_finite [OF assms(1)]
  by (auto simp: ItemStore_put_def ItemStore_erase_def Let_def)

theorem store_reuses_witness:
  "\<exists>st'. ItemStore_insert Min ((*) 2) returnM (\<lambda>_. returnM) ''new''
       (ItemStore_erase 0 \<lparr>items = [''old''], capacity = 1, freed_idxs = {}\<rparr>) () = Inr ((0, st'), ()) \<and>
     items st' = [''new''] \<and> freed_idxs st' = {} \<and> capacity st' = 1"
proof -
  let ?st = "\<lparr>items = [''old''], capacity = 1, freed_idxs = {}\<rparr>"
  have ok: "ItemStore_ok ?st" "0 \<in> ItemStore_live ?st"
    by (simp_all add: ItemStore_ok_def ItemStore_live_def)
  have "\<exists>st'. ItemStore_insert Min ((*) 2) returnM (\<lambda>_. returnM) ''new'' (ItemStore_erase 0 ?st) () =
      Inr ((0, st'), ())"
    by (simp add: ItemStore_erase_def ItemStore_insert_def first_of_def Let_def runs)
  then obtain st' where run: "ItemStore_insert Min ((*) 2) returnM (\<lambda>_. returnM) ''new'' (ItemStore_erase 0 ?st) () =
      Inr ((0, st'), ())" by blast
  with store_reuses [OF ok hands_over_return run] show ?thesis by simp
qed

end
