(* ===== verification/Em_Packs.thy ===== *)
theory Em_Packs
  imports Em_Channel
begin

text \<open>
  \<open>event_loop/parameter_packs.hpp\<close>, \<open>parameter_packs.cpp\<close> and \<open>request_data.hpp\<close>: the parameters of
  each kind of request, the variant over them, the queue of a batch, and \<open>RequestData\<close>, the record
  whose address travels through io_uring as the user data of a request.

  Each pack is a record; its fields carry the name of the operation (\<open>read_p_fd\<close> is
  \<open>ReadParameterPack::fd\<close>). \<open>socklen_t\<close>, \<open>mode_t\<close> and \<open>unsigned int\<close> are 32-bit words.
\<close>

type_synonym u32 = "32 word"

subsection \<open>Parameter packs\<close>

record ReadParameterPack =
  read_p_fd :: cint
  read_p_buffer :: uptr
  read_p_length :: csize

record WriteParameterPack =
  write_p_fd :: cint
  write_p_buffer :: uptr
  write_p_length :: csize

record CloseParameterPack =
  close_p_fd :: cint

record ShutdownParameterPack =
  shutdown_p_fd :: cint
  shutdown_p_how :: cint

record ReadvParameterPack =
  readv_p_fd :: cint
  readv_p_iovs :: uptr
  readv_p_num :: csize

record WritevParameterPack =
  writev_p_fd :: cint
  writev_p_iovs :: uptr
  writev_p_num :: csize

record AcceptParameterPack =
  accept_p_sockfd :: cint
  accept_p_addr :: uptr
  accept_p_addrlen :: uptr

record ConnectParameterPack =
  connect_p_sockfd :: cint
  connect_p_addr :: uptr
  connect_p_addrlen :: u32

record OpenatParameterPack =
  openat_p_dirfd :: cint
  openat_p_pathname :: uptr
  openat_p_flags :: cint
  openat_p_mode :: u32

record StatxParameterPack =
  statx_p_dirfd :: cint
  statx_p_pathname :: uptr
  statx_p_flags :: cint
  statx_p_mask :: u32
  statx_p_statxbuf :: uptr

record UnlinkatParameterPack =
  unlinkat_p_dirfd :: cint
  unlinkat_p_pathname :: uptr
  unlinkat_p_flags :: cint

record RenameatParameterPack =
  renameat_p_olddirfd :: cint
  renameat_p_oldpathname :: uptr
  renameat_p_newdirfd :: cint
  renameat_p_newpathname :: uptr
  renameat_p_flags :: cint

text \<open>
  \<open>OperationParameterPackVariant\<close>, one alternative per operation in the order of \<open>RequestType\<close>.
  The trait \<open>RequestToParamPack\<close> is the argument type of the constructor; \<open>Op_type\<close> reads it from the
  alternative to the request type.
\<close>

datatype OperationParameterPackVariant =
    ReadPack ReadParameterPack
  | WritePack WriteParameterPack
  | ClosePack CloseParameterPack
  | ShutdownPack ShutdownParameterPack
  | ReadvPack ReadvParameterPack
  | WritevPack WritevParameterPack
  | AcceptPack AcceptParameterPack
  | ConnectPack ConnectParameterPack
  | OpenatPack OpenatParameterPack
  | StatxPack StatxParameterPack
  | UnlinkatPack UnlinkatParameterPack
  | RenameatPack RenameatParameterPack

fun Op_index :: "OperationParameterPackVariant \<Rightarrow> nat" where
  "Op_index (ReadPack p) = 0"
| "Op_index (WritePack p) = 1"
| "Op_index (ClosePack p) = 2"
| "Op_index (ShutdownPack p) = 3"
| "Op_index (ReadvPack p) = 4"
| "Op_index (WritevPack p) = 5"
| "Op_index (AcceptPack p) = 6"
| "Op_index (ConnectPack p) = 7"
| "Op_index (OpenatPack p) = 8"
| "Op_index (StatxPack p) = 9"
| "Op_index (UnlinkatPack p) = 10"
| "Op_index (RenameatPack p) = 11"

fun Op_type :: "OperationParameterPackVariant \<Rightarrow> RequestType" where
  "Op_type (ReadPack p) = READ"
| "Op_type (WritePack p) = WRITE"
| "Op_type (ClosePack p) = CLOSE"
| "Op_type (ShutdownPack p) = SHUTDOWN"
| "Op_type (ReadvPack p) = READV"
| "Op_type (WritevPack p) = WRITEV"
| "Op_type (AcceptPack p) = ACCEPT"
| "Op_type (ConnectPack p) = CONNECT"
| "Op_type (OpenatPack p) = OPENAT"
| "Op_type (StatxPack p) = STATX"
| "Op_type (UnlinkatPack p) = UNLINKAT"
| "Op_type (RenameatPack p) = RENAMEAT"

text \<open>
  The trait \<open>RequestToParamPack\<close>: the type it maps a request type to, given by its value-initialised
  object.
\<close>

fun ParamPack_init :: "RequestType \<Rightarrow> OperationParameterPackVariant" where
  "ParamPack_init READ = ReadPack \<lparr>read_p_fd = 0, read_p_buffer = 0, read_p_length = 0\<rparr>"
| "ParamPack_init WRITE = WritePack \<lparr>write_p_fd = 0, write_p_buffer = 0, write_p_length =
     0\<rparr>"
| "ParamPack_init CLOSE = ClosePack \<lparr>close_p_fd = 0\<rparr>"
| "ParamPack_init SHUTDOWN = ShutdownPack \<lparr>shutdown_p_fd = 0, shutdown_p_how = 0\<rparr>"
| "ParamPack_init READV = ReadvPack \<lparr>readv_p_fd = 0, readv_p_iovs = 0, readv_p_num =
     0\<rparr>"
| "ParamPack_init WRITEV = WritevPack \<lparr>writev_p_fd = 0, writev_p_iovs = 0, writev_p_num =
     0\<rparr>"
| "ParamPack_init ACCEPT = AcceptPack \<lparr>accept_p_sockfd = 0, accept_p_addr = 0,
     accept_p_addrlen = 0\<rparr>"
| "ParamPack_init CONNECT = ConnectPack \<lparr>connect_p_sockfd = 0, connect_p_addr = 0,
     connect_p_addrlen = 0\<rparr>"
| "ParamPack_init OPENAT = OpenatPack \<lparr>openat_p_dirfd = 0, openat_p_pathname = 0,
     openat_p_flags = 0, openat_p_mode = 0\<rparr>"
| "ParamPack_init STATX = StatxPack \<lparr>statx_p_dirfd = 0, statx_p_pathname = 0, statx_p_flags
     = 0, statx_p_mask = 0, statx_p_statxbuf = 0\<rparr>"
| "ParamPack_init UNLINKAT = UnlinkatPack \<lparr>unlinkat_p_dirfd = 0, unlinkat_p_pathname = 0,
     unlinkat_p_flags = 0\<rparr>"
| "ParamPack_init RENAMEAT = RenameatPack \<lparr>renameat_p_olddirfd = 0, renameat_p_oldpathname
     = 0, renameat_p_newdirfd = 0, renameat_p_newpathname = 0, renameat_p_flags = 0\<rparr>"

lemma Op_type_init [simp]: "Op_type (ParamPack_init t) = t"
  by (cases t) simp_all

text \<open>
  \<open>std::get_if\<close> for each alternative. The same projections read the members of the union
  \<open>specific_data\<close>, where the absence of the alternative is a read of an inactive member.
\<close>

fun get_read :: "OperationParameterPackVariant \<Rightarrow> ReadParameterPack option" where
  "get_read (ReadPack p) = Some p"
| "get_read _ = None"

fun get_write :: "OperationParameterPackVariant \<Rightarrow> WriteParameterPack option" where
  "get_write (WritePack p) = Some p"
| "get_write _ = None"

fun get_close :: "OperationParameterPackVariant \<Rightarrow> CloseParameterPack option" where
  "get_close (ClosePack p) = Some p"
| "get_close _ = None"

fun get_shutdown :: "OperationParameterPackVariant \<Rightarrow> ShutdownParameterPack option" where
  "get_shutdown (ShutdownPack p) = Some p"
| "get_shutdown _ = None"

fun get_readv :: "OperationParameterPackVariant \<Rightarrow> ReadvParameterPack option" where
  "get_readv (ReadvPack p) = Some p"
| "get_readv _ = None"

fun get_writev :: "OperationParameterPackVariant \<Rightarrow> WritevParameterPack option" where
  "get_writev (WritevPack p) = Some p"
| "get_writev _ = None"

fun get_accept :: "OperationParameterPackVariant \<Rightarrow> AcceptParameterPack option" where
  "get_accept (AcceptPack p) = Some p"
| "get_accept _ = None"

fun get_connect :: "OperationParameterPackVariant \<Rightarrow> ConnectParameterPack option" where
  "get_connect (ConnectPack p) = Some p"
| "get_connect _ = None"

fun get_openat :: "OperationParameterPackVariant \<Rightarrow> OpenatParameterPack option" where
  "get_openat (OpenatPack p) = Some p"
| "get_openat _ = None"

fun get_statx :: "OperationParameterPackVariant \<Rightarrow> StatxParameterPack option" where
  "get_statx (StatxPack p) = Some p"
| "get_statx _ = None"

fun get_unlinkat :: "OperationParameterPackVariant \<Rightarrow> UnlinkatParameterPack option" where
  "get_unlinkat (UnlinkatPack p) = Some p"
| "get_unlinkat _ = None"

fun get_renameat :: "OperationParameterPackVariant \<Rightarrow> RenameatParameterPack option" where
  "get_renameat (RenameatPack p) = Some p"
| "get_renameat _ = None"

lemma pack_eta [simp]:
  "\<lparr>read_p_fd = read_p_fd read_p, read_p_buffer = read_p_buffer read_p, read_p_length =
     read_p_length read_p\<rparr> = read_p"
  "\<lparr>write_p_fd = write_p_fd write_p, write_p_buffer = write_p_buffer write_p,
     write_p_length = write_p_length write_p\<rparr> = write_p"
  "\<lparr>close_p_fd = close_p_fd close_p\<rparr> = close_p"
  "\<lparr>shutdown_p_fd = shutdown_p_fd shutdown_p, shutdown_p_how = shutdown_p_how
     shutdown_p\<rparr> = shutdown_p"
  "\<lparr>readv_p_fd = readv_p_fd readv_p, readv_p_iovs = readv_p_iovs readv_p, readv_p_num =
     readv_p_num readv_p\<rparr> = readv_p"
  "\<lparr>writev_p_fd = writev_p_fd writev_p, writev_p_iovs = writev_p_iovs writev_p,
     writev_p_num = writev_p_num writev_p\<rparr> = writev_p"
  "\<lparr>accept_p_sockfd = accept_p_sockfd accept_p, accept_p_addr = accept_p_addr accept_p,
     accept_p_addrlen = accept_p_addrlen accept_p\<rparr> = accept_p"
  "\<lparr>connect_p_sockfd = connect_p_sockfd connect_p, connect_p_addr = connect_p_addr
     connect_p, connect_p_addrlen = connect_p_addrlen connect_p\<rparr> = connect_p"
  "\<lparr>openat_p_dirfd = openat_p_dirfd openat_p, openat_p_pathname = openat_p_pathname
     openat_p, openat_p_flags = openat_p_flags openat_p, openat_p_mode = openat_p_mode
     openat_p\<rparr> = openat_p"
  "\<lparr>statx_p_dirfd = statx_p_dirfd statx_p, statx_p_pathname = statx_p_pathname statx_p,
     statx_p_flags = statx_p_flags statx_p, statx_p_mask = statx_p_mask statx_p, statx_p_statxbuf
     = statx_p_statxbuf statx_p\<rparr> = statx_p"
  "\<lparr>unlinkat_p_dirfd = unlinkat_p_dirfd unlinkat_p, unlinkat_p_pathname =
     unlinkat_p_pathname unlinkat_p, unlinkat_p_flags = unlinkat_p_flags unlinkat_p\<rparr> =
     unlinkat_p"
  "\<lparr>renameat_p_olddirfd = renameat_p_olddirfd renameat_p, renameat_p_oldpathname =
     renameat_p_oldpathname renameat_p, renameat_p_newdirfd = renameat_p_newdirfd renameat_p,
     renameat_p_newpathname = renameat_p_newpathname renameat_p, renameat_p_flags =
     renameat_p_flags renameat_p\<rparr> = renameat_p"
  by (auto intro: ReadParameterPack.equality WriteParameterPack.equality CloseParameterPack.equality
      ShutdownParameterPack.equality ReadvParameterPack.equality
      WritevParameterPack.equality AcceptParameterPack.equality
      ConnectParameterPack.equality OpenatParameterPack.equality
      StatxParameterPack.equality UnlinkatParameterPack.equality
      RenameatParameterPack.equality)

lemma Op_index_type: "Op_index p = RequestType_value (Op_type p)"
  by (cases p) simp_all

lemma RequestType_of_Op_index [simp]: "RequestType_of (Op_index p) = Some (Op_type p)"
  by (simp add: Op_index_type)

subsection \<open>The queue of a batch\<close>

record RequestQueue =
  req_vec :: "OperationParameterPackVariant list"

definition make_request_queue :: RequestQueue where
  "make_request_queue = \<lparr>req_vec = []\<rparr>"

definition push_req :: "OperationParameterPackVariant \<Rightarrow> RequestQueue \<Rightarrow> RequestQueue" where
  "push_req p q = q\<lparr>req_vec := req_vec q @ [p]\<rparr>"

definition queue_read :: "cint \<Rightarrow> uptr \<Rightarrow> csize \<Rightarrow> RequestQueue \<Rightarrow> RequestQueue" where
  "queue_read fd buffer len q =
     push_req (ReadPack
       \<lparr>read_p_fd = fd, read_p_buffer = buffer, read_p_length = len\<rparr>) q"

definition queue_write :: "cint \<Rightarrow> uptr \<Rightarrow> csize \<Rightarrow> RequestQueue \<Rightarrow> RequestQueue" where
  "queue_write fd buffer len q =
     push_req (WritePack
       \<lparr>write_p_fd = fd, write_p_buffer = buffer, write_p_length = len\<rparr>) q"

definition queue_close :: "cint \<Rightarrow> RequestQueue \<Rightarrow> RequestQueue" where
  "queue_close fd q =
     push_req (ClosePack \<lparr>close_p_fd = fd\<rparr>) q"

definition queue_shutdown :: "cint \<Rightarrow> cint \<Rightarrow> RequestQueue \<Rightarrow> RequestQueue" where
  "queue_shutdown fd how q =
     push_req (ShutdownPack \<lparr>shutdown_p_fd = fd, shutdown_p_how = how\<rparr>) q"

definition queue_readv :: "cint \<Rightarrow> uptr \<Rightarrow> csize \<Rightarrow> RequestQueue \<Rightarrow> RequestQueue" where
  "queue_readv fd iovs num q =
     push_req (ReadvPack
       \<lparr>readv_p_fd = fd, readv_p_iovs = iovs, readv_p_num = num\<rparr>) q"

definition queue_writev :: "cint \<Rightarrow> uptr \<Rightarrow> csize \<Rightarrow> RequestQueue \<Rightarrow> RequestQueue" where
  "queue_writev fd iovs num q =
     push_req (WritevPack
       \<lparr>writev_p_fd = fd, writev_p_iovs = iovs, writev_p_num = num\<rparr>) q"

definition queue_accept :: "cint \<Rightarrow> uptr \<Rightarrow> uptr \<Rightarrow> RequestQueue \<Rightarrow> RequestQueue" where
  "queue_accept sockfd addr addrlen q =
     push_req (AcceptPack
       \<lparr>accept_p_sockfd = sockfd, accept_p_addr = addr,
        accept_p_addrlen = addrlen\<rparr>) q"

definition queue_connect :: "cint \<Rightarrow> uptr \<Rightarrow> u32 \<Rightarrow> RequestQueue \<Rightarrow> RequestQueue" where
  "queue_connect sockfd addr addrlen q =
     push_req (ConnectPack
       \<lparr>connect_p_sockfd = sockfd, connect_p_addr = addr,
        connect_p_addrlen = addrlen\<rparr>) q"

definition queue_openat :: "cint \<Rightarrow> uptr \<Rightarrow> cint \<Rightarrow> u32 \<Rightarrow> RequestQueue \<Rightarrow> RequestQueue" where
  "queue_openat dirfd pathname flags mode q =
     push_req (OpenatPack
       \<lparr>openat_p_dirfd = dirfd, openat_p_pathname = pathname, openat_p_flags = flags,
        openat_p_mode = mode\<rparr>) q"

definition queue_statx :: "cint \<Rightarrow> uptr \<Rightarrow> cint \<Rightarrow> u32 \<Rightarrow> uptr \<Rightarrow> RequestQueue \<Rightarrow> RequestQueue" where
  "queue_statx dirfd pathname flags stx_mask statxbuf q =
     push_req (StatxPack
       \<lparr>statx_p_dirfd = dirfd, statx_p_pathname = pathname, statx_p_flags = flags,
        statx_p_mask = stx_mask, statx_p_statxbuf = statxbuf\<rparr>) q"

definition queue_unlinkat :: "cint \<Rightarrow> uptr \<Rightarrow> cint \<Rightarrow> RequestQueue \<Rightarrow> RequestQueue" where
  "queue_unlinkat dirfd pathname flags q =
     push_req (UnlinkatPack
       \<lparr>unlinkat_p_dirfd = dirfd, unlinkat_p_pathname = pathname,
        unlinkat_p_flags = flags\<rparr>) q"

definition queue_renameat :: "cint \<Rightarrow> uptr \<Rightarrow> cint \<Rightarrow> uptr \<Rightarrow> cint \<Rightarrow> RequestQueue \<Rightarrow> RequestQueue" where
  "queue_renameat olddirfd oldpathname newdirfd newpathname flags q =
     push_req (RenameatPack
       \<lparr>renameat_p_olddirfd = olddirfd, renameat_p_oldpathname = oldpathname,
        renameat_p_newdirfd = newdirfd, renameat_p_newpathname = newpathname,
        renameat_p_flags = flags\<rparr>) q"

subsection \<open>Request data\<close>

text \<open>
  \<open>RequestData\<close>. The handle is the coroutine to resume with the response (null for a request nobody
  awaits), \<open>coro_finished\<close> the address of the status whose flag it points into. The union
  \<open>specific_data\<close> is the variant of its members, the constructor being the active member; \<open>{}\<close>
  activates the first one, \<open>read_data\<close>, with zeroes.
\<close>

definition specific_data_init :: OperationParameterPackVariant where
  "specific_data_init = ParamPack_init READ"

record RequestData =
  handle :: "addr option"
  coro_idx :: csize
  coro_finished :: "addr option"
  req_type :: RequestType
  allocated_dynamic :: bool
  specific_data :: OperationParameterPackVariant

definition new_RequestData :: RequestData where
  "new_RequestData = \<lparr>handle = None, coro_idx = 0, coro_finished = None, req_type = READ,
     allocated_dynamic = False, specific_data = specific_data_init\<rparr>"

text \<open>
  What makes a request safe to answer: its tag names the active member of the union, so that no
  handler that dispatches on the tag reads an inactive one.
\<close>

definition well_tagged :: "RequestData \<Rightarrow> bool" where
  "well_tagged r \<longleftrightarrow> Op_type (specific_data r) = req_type r"

lemma well_tagged_new [simp]: "well_tagged new_RequestData"
  by (simp add: well_tagged_def new_RequestData_def specific_data_init_def)

subsection \<open>The call for a given parameter pack\<close>

fun queue_call :: "OperationParameterPackVariant \<Rightarrow> RequestQueue \<Rightarrow> RequestQueue" where
  "queue_call (ReadPack p) = queue_read (read_p_fd p) (read_p_buffer p) (read_p_length p)"
| "queue_call (WritePack p) = queue_write (write_p_fd p) (write_p_buffer p) (write_p_length p)"
| "queue_call (ClosePack p) = queue_close (close_p_fd p)"
| "queue_call (ShutdownPack p) = queue_shutdown (shutdown_p_fd p) (shutdown_p_how p)"
| "queue_call (ReadvPack p) = queue_readv (readv_p_fd p) (readv_p_iovs p) (readv_p_num p)"
| "queue_call (WritevPack p) = queue_writev (writev_p_fd p) (writev_p_iovs p) (writev_p_num p)"
| "queue_call (AcceptPack p) = queue_accept (accept_p_sockfd p) (accept_p_addr p)
     (accept_p_addrlen p)"
| "queue_call (ConnectPack p) = queue_connect (connect_p_sockfd p) (connect_p_addr p)
     (connect_p_addrlen p)"
| "queue_call (OpenatPack p) = queue_openat (openat_p_dirfd p) (openat_p_pathname p)
     (openat_p_flags p) (openat_p_mode p)"
| "queue_call (StatxPack p) = queue_statx (statx_p_dirfd p) (statx_p_pathname p) (statx_p_flags p)
     (statx_p_mask p) (statx_p_statxbuf p)"
| "queue_call (UnlinkatPack p) = queue_unlinkat (unlinkat_p_dirfd p) (unlinkat_p_pathname p)
     (unlinkat_p_flags p)"
| "queue_call (RenameatPack p) = queue_renameat (renameat_p_olddirfd p) (renameat_p_oldpathname p)
     (renameat_p_newdirfd p) (renameat_p_newpathname p) (renameat_p_flags p)"

lemma queue_call_req_vec: "req_vec (queue_call p q) = req_vec q @ [p]"
  by (cases p) (simp_all add: push_req_def queue_read_def queue_write_def queue_close_def queue_shutdown_def
    queue_readv_def queue_writev_def queue_accept_def queue_connect_def queue_openat_def
    queue_statx_def queue_unlinkat_def queue_renameat_def)

lemma queue_calls_req_vec: "req_vec (fold queue_call ps q) = req_vec q @ ps"
  by (induction ps arbitrary: q) (simp_all add: queue_call_req_vec)

end
