(* ===== verification/Em_Manager.thy ===== *)
theory Em_Manager
  imports Em_Ownership Em_Store Em_Packs Em_Errors
begin

text \<open>
  The state of \<open>EventManager\<close> (\<open>event_manager.hpp\<close>), what it needs of liburing, and the operations on
  the submission queue (\<open>core.cpp\<close>: \<open>should_restrict_usage\<close>, \<open>submit_queued_entries\<close>,
  \<open>get_uring_sqe\<close>).

  liburing is not part of the repository: it is the argument \<open>U\<close>, a record with one field for each
  function the code calls, over a ring state of any type. What is recorded of a
  \<open>io_uring_prep_\<close> call is its argument list, with the conversion to the \<open>unsigned\<close> of the
  prototype that the compiler inserts. \<open>counts U infl\<close> states the documented behaviour that the
  accounting of requests relies on; it is a hypothesis where it is used.
\<close>

subsection \<open>The functions of liburing\<close>

datatype sqe_prep =
    PrepRead cint uptr u32 csize
  | PrepWrite cint uptr u32 csize
  | PrepClose cint
  | PrepShutdown cint cint
  | PrepReadv cint uptr u32 csize
  | PrepWritev cint uptr u32 csize
  | PrepAccept cint uptr uptr cint
  | PrepConnect cint uptr u32
  | PrepOpenat cint uptr cint u32
  | PrepStatx cint uptr cint u32 uptr
  | PrepUnlinkat cint uptr cint
  | PrepRenameat cint uptr cint uptr u32
  | PrepCancelAny

text \<open>
  A completion: its queue entry, \<open>res\<close>, and the user data. \<open>Blocks\<close> is a wait that never returns.
\<close>

datatype wait_result = Ready nat cint "addr option" | WaitError cint | Blocks

record 'r uring =
  u_queue_init :: "u32 \<Rightarrow> cint option \<Rightarrow> cint \<times> 'r \<times> cint"
  u_get_sqe :: "'r \<Rightarrow> nat option \<times> 'r"
  u_prep :: "nat \<Rightarrow> sqe_prep \<Rightarrow> 'r \<Rightarrow> 'r"
  u_set_data :: "nat \<Rightarrow> addr \<Rightarrow> 'r \<Rightarrow> 'r"
  u_submit :: "'r \<Rightarrow> cint \<times> 'r"
  u_sqe_tail :: "'r \<Rightarrow> u32"
  u_sqe_head :: "'r \<Rightarrow> u32"
  u_wait_cqe :: "'r \<Rightarrow> wait_result \<times> 'r"
  u_cqe_seen :: "nat \<Rightarrow> 'r \<Rightarrow> 'r"
  u_queue_exit :: "'r \<Rightarrow> 'r"

text \<open>
  \<open>infl r\<close> is the number of requests the kernel has taken whose completions have not been marked
  seen: a submission adds as many as it reports, \<open>io_uring_cqe_seen\<close> takes one off, nothing else
  changes it, and a completion is only there for a request that was taken. The kernel holds less than
  \<open>2 ^ 64\<close> requests at a time.
\<close>

definition counts :: "'r uring \<Rightarrow> ('r \<Rightarrow> nat) \<Rightarrow> bool" where
  "counts U infl \<longleftrightarrow>
     (\<forall>r. infl (snd (u_get_sqe U r)) = infl r) \<and>
     (\<forall>n p r. infl (u_prep U n p r) = infl r) \<and>
     (\<forall>n a r. infl (u_set_data U n a r) = infl r) \<and>
     (\<forall>r k r'. u_submit U r = (k, r') \<longrightarrow>
        infl r' = infl r + (if 0 <s k then unat k else 0) \<and>
        (infl r < 2 ^ 64 \<longrightarrow> infl r' < 2 ^ 64)) \<and>
     (\<forall>r x r'. u_wait_cqe U r = (x, r') \<longrightarrow>
        infl r' = infl r \<and> ((\<exists>n res d. x = Ready n res d) \<longrightarrow> 0 < infl r)) \<and>
     (\<forall>n r. infl (u_cqe_seen U n r) = infl r - 1)"

subsection \<open>The state of the manager\<close>

datatype LivingState = NOT_STARTED | LIVING | DYING | DEAD

fun LivingState_value :: "LivingState \<Rightarrow> nat" where
  "LivingState_value NOT_STARTED = 0"
| "LivingState_value LIVING = 1"
| "LivingState_value DYING = 2"
| "LivingState_value DEAD = 3"

instantiation LivingState :: linorder
begin

definition less_eq_LivingState :: "LivingState \<Rightarrow> LivingState \<Rightarrow> bool" where
  "less_eq_LivingState a b = (LivingState_value a \<le> LivingState_value b)"

definition less_LivingState :: "LivingState \<Rightarrow> LivingState \<Rightarrow> bool" where
  "less_LivingState a b = (LivingState_value a < LivingState_value b)"

instance
proof
  fix a b :: LivingState
  show "a \<le> b \<Longrightarrow> b \<le> a \<Longrightarrow> a = b"
    by (cases a; cases b) (simp_all add: less_eq_LivingState_def)
qed (auto simp: less_eq_LivingState_def less_LivingState_def)

end

lemmas LivingState_order = less_eq_LivingState_def less_LivingState_def

text \<open>
  The awaitable of an I/O operation (\<open>IOAwaitable\<close>). It holds its \<open>RequestData\<close> as a member, so the
  two share an address; \<open>request_home\<close> is the frame an awaitable lives in, whose end is its own
  end, and is \<open>None\<close> for a request made with \<open>new\<close>.
\<close>

record IOAwaitable =
  channel :: "addr option"
  aw_type :: RequestType
  aw_error :: ErrorCodes
  SQE :: "nat option"

text \<open>
  \<open>ring_open\<close> says that the ring is set up and not yet torn down; the functions of liburing on a ring
  that is not are undefined behaviour, and the fault \<open>UseAfterFree\<close>. \<open>iov_base_of\<close> is the memory of the
  user that the code reads itself: the \<open>iov_base\<close> of the \<open>iovec\<close> at a pointer. \<open>user_variable\<close> is a global
  variable of the program that its coroutines share (\<open>event_loop_example.cpp\<close> has one); the library
  never touches it.
\<close>

record ('b, 'r) manager = "'b coro_heap" +
  requests :: "addr \<rightharpoonup> RequestData"
  request_home :: "addr \<rightharpoonup> addr"
  awaitables :: "addr \<rightharpoonup> IOAwaitable"
  ring :: 'r
  ring_open :: bool
  manager_life_state :: LivingState
  managed_coroutines_store :: "EvTask ItemStore"
  polling_requests :: bool
  polling_handle :: "addr option"
  ready_requests_store :: "(cint \<times> addr) list"
  in_flight_requests :: csize
  kill_coro_task :: addr
  shared_ring_fd :: cint
  ring_instances :: csize
  iov_base_of :: "uptr \<Rightarrow> uptr"
  user_variable :: csize

type_synonym ('b, 'r, 'a) em_op = "(('b, 'r) manager, 'a) op"

subsection \<open>The submission queue\<close>

definition should_restrict_usage :: "('b, 'r, bool) em_op" where
  "should_restrict_usage = getM (\<lambda>w. LIVING < manager_life_state w)"

definition on_ring :: "('r \<Rightarrow> 'a \<times> 'r) \<Rightarrow> ('b, 'r, 'a) em_op" where
  "on_ring f = (\<lambda>w. if ring_open w then case f (ring w) of (x, r) \<Rightarrow> Inr (x, w\<lparr>ring := r\<rparr>)
     else Inl UseAfterFree)"

definition io_uring_get_sqe :: "'r uring \<Rightarrow> ('b, 'r, nat option) em_op" where
  "io_uring_get_sqe U = on_ring (u_get_sqe U)"

definition io_uring_prep :: "'r uring \<Rightarrow> nat \<Rightarrow> sqe_prep \<Rightarrow> ('b, 'r, unit) em_op" where
  "io_uring_prep U n p = on_ring (\<lambda>r. ((), u_prep U n p r))"

definition io_uring_sqe_set_data :: "'r uring \<Rightarrow> nat \<Rightarrow> addr \<Rightarrow> ('b, 'r, unit) em_op" where
  "io_uring_sqe_set_data U n a = on_ring (\<lambda>r. ((), u_set_data U n a r))"

text \<open>\<open>_in_flight_requests += ret\<close> for a positive \<open>int\<close>.\<close>

definition submit_queued_entries :: "'r uring \<Rightarrow> ('b, 'r, cint) em_op" where
  "submit_queued_entries U =
     bindM (on_ring (u_submit U)) (\<lambda>ret.
     thenM (whenM (0 <s ret)
              (modifyM (\<lambda>w. w\<lparr>in_flight_requests := in_flight_requests w + scast ret\<rparr>)))
     (returnM ret))"

definition get_uring_sqe :: "'r uring \<Rightarrow> ('b, 'r, nat option) em_op" where
  "get_uring_sqe U =
     bindM should_restrict_usage (\<lambda>restricted.
     if restricted then returnM None else io_uring_get_sqe U)"

text \<open>\<open>_ring.sq.sqe_tail - _ring.sq.sqe_head\<close>, in unsigned arithmetic.\<close>

definition sq_pending :: "'r uring \<Rightarrow> ('b, 'r, u32) em_op" where
  "sq_pending U = getM (\<lambda>w. u_sqe_tail U (ring w) - u_sqe_head U (ring w))"

subsection \<open>Accounting of the requests in flight\<close>

definition accounted :: "('r \<Rightarrow> nat) \<Rightarrow> ('b, 'r) manager \<Rightarrow> bool" where
  "accounted infl w \<longleftrightarrow> (ring_open w \<longrightarrow> unat (in_flight_requests w) = infl (ring w))"

lemma accounted_cong:
  "in_flight_requests w' = in_flight_requests w \<Longrightarrow> infl (ring w') = infl (ring w) \<Longrightarrow>
     ring_open w' = ring_open w \<Longrightarrow> accounted infl w' = accounted infl w"
  by (simp add: accounted_def)

lemma countsD:
  assumes "counts U infl"
  shows "infl (snd (u_get_sqe U r)) = infl r"
    and "infl (u_prep U n p r) = infl r"
    and "infl (u_set_data U n a r) = infl r"
    and "u_submit U r = (k, r') \<Longrightarrow> infl r' = infl r + (if 0 <s k then unat k else 0)"
    and "u_wait_cqe U r = (x, r') \<Longrightarrow> infl r' = infl r"
    and "u_wait_cqe U r = (Ready m res d, r') \<Longrightarrow> 0 < infl r"
    and "infl (u_cqe_seen U n r) = infl r - 1"
    and "u_submit U r = (k, r') \<Longrightarrow> infl r < 2 ^ 64 \<Longrightarrow> infl r' < 2 ^ 64"
  using assms unfolding counts_def by blast+

lemma on_ring_Inr:
  "on_ring f w = Inr (x, w') \<longleftrightarrow>
     ring_open w \<and> (\<exists>r. f (ring w) = (x, r) \<and> w' = w\<lparr>ring := r\<rparr>)"
  by (auto simp: on_ring_def split: prod.splits)

lemma unat_scast_positive:
  assumes "0 <s (k :: cint)"
  shows "unat (scast k :: csize) = unat k"
proof -
  from assms have pos: "0 \<le> sint k" by (simp add: word_sless_alt)
  moreover have small: "sint k < 2 ^ 31" using sint_lt [of k] by simp
  ultimately have "uint k = sint k"
    by (simp add: uint_sint take_bit_int_eq_self)
  moreover have "uint (scast k :: csize) = sint k"
    unfolding scast_eq uint_word_of_int by (rule mod_pos_pos_trivial) (use pos small in simp_all)
  ultimately show ?thesis by (simp add: unat_eq_nat_uint)
qed

lemma submit_run:
  "ring_open w \<Longrightarrow> submit_queued_entries U w =
     (case u_submit U (ring w) of (k, r) \<Rightarrow>
       Inr (k, if 0 <s k
               then w\<lparr>ring := r, in_flight_requests := in_flight_requests w + scast k\<rparr>
               else w\<lparr>ring := r\<rparr>))"
  by (cases "u_submit U (ring w)")
    (simp add: submit_queued_entries_def bindM_run thenM_run whenM_run on_ring_def)

lemma submit_Inr:
  "submit_queued_entries U w = Inr (k, w') \<longleftrightarrow> ring_open w \<and>
     (\<exists>r. u_submit U (ring w) = (k, r) \<and>
       w' = (if 0 <s k
             then w\<lparr>ring := r, in_flight_requests := in_flight_requests w + scast k\<rparr>
             else w\<lparr>ring := r\<rparr>))"
  by (cases "u_submit U (ring w)")
    (auto simp: submit_queued_entries_def run_iffs on_ring_Inr split: if_splits)

lemma submit_accounted:
  assumes "counts U infl" and "accounted infl w" and "submit_queued_entries U w = Inr (k, w')"
  shows "accounted infl w'"
proof -
  from assms(3) obtain r where o: "ring_open w" and r: "u_submit U (ring w) = (k, r)" and w': "w' = (if 0 <s k
      then w\<lparr>ring := r, in_flight_requests := in_flight_requests w + scast k\<rparr>
      else w\<lparr>ring := r\<rparr>)"
    by (auto simp: submit_Inr)
  have eq: "infl (ring w) = unat (in_flight_requests w)" using assms(2) o by (simp add: accounted_def)
  have "infl r = infl (ring w) + (if 0 <s k then unat k else 0)" and "infl r < 2 ^ 64"
    using countsD(4) [OF assms(1) r] countsD(8) [OF assms(1) r]
      unsigned_less [of "in_flight_requests w"]
    by (auto simp: eq)
  then show ?thesis
    using eq w' o by (auto simp: accounted_def unat_word_ariths unat_scast_positive)
qed

lemma get_uring_sqe_Inr:
  "get_uring_sqe U w = Inr (x, w') \<longleftrightarrow>
     (if LIVING < manager_life_state w then x = None \<and> w' = w
      else ring_open w \<and> (\<exists>r. u_get_sqe U (ring w) = (x, r) \<and> w' = w\<lparr>ring := r\<rparr>))"
  by (auto simp: get_uring_sqe_def should_restrict_usage_def io_uring_get_sqe_def run_iffs
      on_ring_Inr split: if_splits)

end
