(* ===== verification/Em_Evolution.thy ===== *)
theory Em_Evolution
  imports Em_Manager
begin

text \<open>
  The invariants of the manager and the interface under which every operation is shown to keep them.
  \<open>driving infl rs\<close> is the contract between an operation that resumes a coroutine and what the
  resumption runs: \<open>rs\<close> has the two-state property \<open>evolves infl\<close>, and then so has the operation.
  The operations of the later theories are added to it where they are defined.
\<close>

subsection \<open>What every operation keeps\<close>

text \<open>
  \<open>evolves infl\<close> is the two-state property that every operation of the manager is shown to have. It
  does not lose the invariants: the ownership of the coroutine heap, with the elements of
  \<open>managed_coroutines_store\<close> as the objects outside \<open>tasks\<close>; the accounting of the requests in flight;
  the agreement of each request's tag with its union; the ring open until the manager is dead. The
  life state never goes back, and the address of a request that is gone is not used again. \<open>evolves_rest\<close> is the part of it that the heap has no say in.
\<close>

definition managed :: "('b, 'r) manager \<Rightarrow> EvTask list" where
  "managed w = items (managed_coroutines_store w)"

definition heap_sound :: "('b, 'r) manager \<Rightarrow> bool" where
  "heap_sound w \<longleftrightarrow> heap_ok w (managed w)"

definition tagged :: "('b, 'r) manager \<Rightarrow> bool" where
  "tagged w \<longleftrightarrow> (\<forall>r d. requests w r = Some d \<longrightarrow> well_tagged d)"

text \<open>The ring is torn down exactly when the manager dies.\<close>

definition ring_lives :: "('b, 'r) manager \<Rightarrow> bool" where
  "ring_lives w \<longleftrightarrow> (ring_open w \<longleftrightarrow> manager_life_state w \<noteq> DEAD)"

text \<open>
  While the accounting is right, an operation does not lose a request in flight: their number does
  not fall while the ring is open, and the ring is closed only if there was none. When the ring is
  closed the counter is 0, and it stays as it is from then on.
\<close>

definition no_loss :: "('r \<Rightarrow> nat) \<Rightarrow> ('b, 'r) manager \<Rightarrow> ('b, 'r) manager \<Rightarrow> bool" where
  "no_loss infl w w' \<longleftrightarrow> (ring_open w' \<longrightarrow> ring_open w) \<and>
     (ring_open w \<and> \<not> ring_open w' \<longrightarrow> in_flight_requests w' = 0) \<and>
     (\<not> ring_open w \<longrightarrow> in_flight_requests w' = in_flight_requests w) \<and>
     (accounted infl w \<longrightarrow> ring_open w \<longrightarrow>
        (if ring_open w' then infl (ring w) \<le> infl (ring w') else infl (ring w) = 0))"

definition no_reuse :: "('b, 'r) manager \<Rightarrow> ('b, 'r) manager \<Rightarrow> bool" where
  "no_reuse w w' \<longleftrightarrow> next_addr w \<le> next_addr w' \<and>
     (\<forall>r < next_addr w. requests w r = None \<longrightarrow> requests w' r = None)"

definition evolves_rest :: "('r \<Rightarrow> nat) \<Rightarrow> ('b, 'r) manager \<Rightarrow> ('b, 'r) manager \<Rightarrow> bool" where
  "evolves_rest infl w w' \<longleftrightarrow>
     (accounted infl w \<longrightarrow> accounted infl w') \<and> (tagged w \<longrightarrow> tagged w') \<and>
     (ring_lives w \<longrightarrow> ring_lives w') \<and> no_loss infl w w' \<and> no_reuse w w' \<and>
     manager_life_state w \<le> manager_life_state w'"

definition evolves :: "('r \<Rightarrow> nat) \<Rightarrow> ('b, 'r) manager \<Rightarrow> ('b, 'r) manager \<Rightarrow> bool" where
  "evolves infl w w' \<longleftrightarrow> (heap_sound w \<longrightarrow> heap_sound w') \<and> evolves_rest infl w w'"

interpretation rest: keeping "evolves_rest infl" for infl :: "'r \<Rightarrow> nat"
  by unfold_locales (auto simp: evolves_rest_def no_loss_def no_reuse_def split: if_splits)

interpretation evolving: keeping "evolves infl" for infl :: "'r \<Rightarrow> nat"
  by unfold_locales (auto simp: evolves_def intro: rest.refl rest.trans)

lemma evolves_split:
  "keeps (evolves infl) m \<longleftrightarrow> keeps (invariance heap_sound) m \<and> keeps (evolves_rest infl) m"
  unfolding keeps_def evolves_def invariance_def by blast

lemma rest_evolves: "keeps (evolves infl) m \<Longrightarrow> keeps (evolves_rest infl) m"
  by (simp add: evolves_split)

definition rest_of :: "('b, 'r) manager \<Rightarrow> _" where
  "rest_of w = (next_addr w, requests w, ring w, ring_open w, manager_life_state w, in_flight_requests w)"

lemma rest_same: "rest_of w' = rest_of w \<Longrightarrow> evolves_rest infl w w'"
  by (simp add: rest_of_def evolves_rest_def accounted_def tagged_def no_loss_def no_reuse_def
      ring_lives_def)

lemma preserves_rest: "keeps (preserves rest_of) m \<Longrightarrow> keeps (evolves_rest infl) m"
  by (auto simp: keeps_def preserves_def intro: rest_same)

interpretation rest_frame: heap_writes "rest_of :: ('b, 'r) manager \<Rightarrow> _"
  by unfold_locales (simp_all add: rest_of_def)

interpretation managed_frame: heap_frame "managed :: ('b, 'r) manager \<Rightarrow> _"
  by unfold_locales (simp_all add: managed_def)

lemma store_views [simp]:
  "ptrs (w\<lparr>managed_coroutines_store := s\<rparr>) = ptrs w"
  "dones (w\<lparr>managed_coroutines_store := s\<rparr>) = dones w"
  by (simp_all add: ptrs_def dones_def fun_eq_iff)

text \<open>The part of the state \<open>heap_sound\<close> reads, up to the allocation of more addresses.\<close>

definition heap_of :: "('b, 'r) manager \<Rightarrow> _" where
  "heap_of w = (frames w, statuses w, tasks w, managed_coroutines_store w)"

lemma heap_sound_cong:
  assumes "heap_of w' = heap_of w" and "next_addr w \<le> next_addr w'" and "heap_sound w"
  shows "heap_sound w'"
proof -
  have "ptrs w' = ptrs w" and "dones w' = dones w" and "tasks w' = tasks w" and "managed w' = managed w"
    using assms(1) by (auto simp: heap_of_def ptrs_def dones_def managed_def fun_eq_iff)
  then show ?thesis
    using assms(2,3) by (simp add: heap_sound_def heap_ok_def ownership_next)
qed

lemma evolvesI:
  assumes "heap_of w' = heap_of w" and "next_addr w \<le> next_addr w'"
    and "accounted infl w \<Longrightarrow> accounted infl w'" and "tagged w \<Longrightarrow> tagged w'"
    and "manager_life_state w' = manager_life_state w" and "ring_open w' = ring_open w"
    and "infl (ring w) \<le> infl (ring w')"
    and "\<not> ring_open w \<Longrightarrow> in_flight_requests w' = in_flight_requests w"
    and "\<And>r. r < next_addr w \<Longrightarrow> requests w r = None \<Longrightarrow> requests w' r = None"
  shows "evolves infl w w'"
  using assms heap_sound_cong [OF assms(1,2)]
  by (simp add: evolves_def evolves_rest_def no_loss_def no_reuse_def ring_lives_def)

lemma taggedD: "tagged w \<Longrightarrow> requests w r = Some d \<Longrightarrow> well_tagged d"
  by (auto simp: tagged_def)

lemma tagged_put:
  "tagged w \<Longrightarrow> well_tagged d \<Longrightarrow> requests w' = (requests w)(r \<mapsto> d) \<Longrightarrow> tagged w'"
  by (auto simp: tagged_def split: if_splits)

lemma tagged_drop: "tagged w \<Longrightarrow> requests w' = (requests w)(r := None) \<Longrightarrow> tagged w'"
  by (auto simp: tagged_def split: if_splits)

named_theorems evolve "operations that keep the two-state property of the manager"

lemma evolve_ring:
  assumes "\<And>r. infl (snd (f r)) = infl r"
  shows "keeps (evolves infl) (on_ring f)"
proof (rule keepsI)
  fix w x w' assume "on_ring f w = Inr (x, w')"
  then obtain r where "f (ring w) = (x, r)" "w' = w\<lparr>ring := r\<rparr>" by (auto simp: on_ring_Inr)
  with assms [of "ring w"] show "evolves infl w w'"
    by (intro evolvesI) (simp_all add: heap_of_def accounted_def tagged_def)
qed

lemma evolve_should_restrict [evolve]: "keeps (evolves infl) should_restrict_usage"
  unfolding should_restrict_usage_def by (rule evolving.keeps_get)

text \<open>
  The accounting needs \<open>counts U infl\<close>. So that the lemmas below hold for any \<open>U\<close> whatever, they take
  the tally \<open>infl\<close> or, where \<open>U\<close> does not keep to it, the tally that no counter can agree with.
\<close>

definition no_tally :: "'r \<Rightarrow> nat" where
  "no_tally r = 2 ^ 64"

definition tallies :: "'r uring \<Rightarrow> ('r \<Rightarrow> nat) \<Rightarrow> bool" where
  "tallies U infl \<longleftrightarrow> counts U infl \<or> infl = no_tally"

definition tally :: "'r uring \<Rightarrow> ('r \<Rightarrow> nat) \<Rightarrow> 'r \<Rightarrow> nat" where
  "tally U infl = (if counts U infl then infl else no_tally)"

lemma tallies_tally [simp]: "tallies U (tally U infl)"
  by (simp add: tallies_def tally_def)

lemma tally_counts [simp]: "counts U infl \<Longrightarrow> tally U infl = infl"
  by (simp add: tally_def)

lemma tallies_counts:
  assumes "tallies U infl" and "accounted infl w" and "ring_open w"
  shows "counts U infl"
proof -
  have "unat (in_flight_requests w) < 2 ^ 64" using unsigned_less [of "in_flight_requests w"] by simp
  with assms show ?thesis by (auto simp: tallies_def accounted_def no_tally_def)
qed

lemma evolve_queue [evolve]:
  assumes "tallies U infl"
  shows "keeps (evolves infl) (io_uring_get_sqe U)" "keeps (evolves infl) (io_uring_prep U n p)"
    "keeps (evolves infl) (io_uring_sqe_set_data U n a)"
proof -
  from assms have "infl (snd (u_get_sqe U r)) = infl r" "infl (u_prep U n p r) = infl r"
      "infl (u_set_data U n a r) = infl r" for r
    by (auto simp: tallies_def no_tally_def countsD(1-3))
  then show "keeps (evolves infl) (io_uring_get_sqe U)" "keeps (evolves infl) (io_uring_prep U n p)"
      "keeps (evolves infl) (io_uring_sqe_set_data U n a)"
    unfolding io_uring_get_sqe_def io_uring_prep_def io_uring_sqe_set_data_def
    by (intro evolve_ring; simp)+
qed

lemma evolve_get_uring_sqe [evolve]:
  assumes "tallies U infl"
  shows "keeps (evolves infl) (get_uring_sqe U)"
  unfolding get_uring_sqe_def
  by (auto intro!: evolving.keeps_rules evolve assms split: if_splits)

lemma evolve_sq_pending [evolve]: "keeps (evolves infl) (sq_pending U)"
  unfolding sq_pending_def by (rule evolving.keeps_get)

lemma evolve_submit [evolve]:
  assumes "tallies U infl"
  shows "keeps (evolves infl) (submit_queued_entries U)"
proof (rule keepsI)
  fix w k w' assume run: "submit_queued_entries U w = Inr (k, w')"
  have same: "heap_of w' = heap_of w" "next_addr w' = next_addr w" "requests w' = requests w"
      "manager_life_state w' = manager_life_state w" "ring_open w' = ring_open w" "ring_open w"
    using run by (cases "0 <s k"; force simp: submit_Inr heap_of_def)+
  have grows: "infl (ring w) \<le> infl (ring w')"
  proof (cases "counts U infl")
    case True
    then show ?thesis
      using run countsD(4) [OF True, of "ring w" k] by (cases "0 <s k") (auto simp: submit_Inr)
  next
    case False
    with assms show ?thesis by (simp add: tallies_def no_tally_def)
  qed
  have "accounted infl w'" if "accounted infl w"
    using submit_accounted [OF tallies_counts [OF assms that] that run] same by blast
  with grows show "evolves infl w w'" by (intro evolvesI) (simp_all add: same tagged_def)
qed

text \<open>An operation on the coroutine heap alone.\<close>

lemma evolve_heap:
  assumes "keeps (preserves rest_of) m" and "keeps (invariance heap_sound) m"
  shows "keeps (evolves infl) m"
  using assms by (simp add: evolves_split preserves_rest)

subsection \<open>The interface to what a resumption runs\<close>

locale driving =
  fixes infl :: "'r \<Rightarrow> nat"
    and rs :: "addr \<Rightarrow> ('b, 'r, unit) em_op"
  assumes rs_evolves: "keeps (evolves infl) (rs h)"
begin

sublocale heap: resuming managed rs
  using rs_evolves
  by unfold_locales (fastforce simp: keeps_def evolves_def heap_sound_def)

abbreviation evo :: "('b, 'r) manager \<Rightarrow> ('b, 'r) manager \<Rightarrow> bool" where
  "evo \<equiv> evolves infl"

abbreviation evo_rest :: "('b, 'r) manager \<Rightarrow> ('b, 'r) manager \<Rightarrow> bool" where
  "evo_rest \<equiv> evolves_rest infl"

lemma rs_rest: "keeps evo_rest (rs h)"
  using rs_evolves by (simp add: evolves_split)

lemma sound_alt: "invariance (heap_sound :: ('b, 'r) manager \<Rightarrow> bool) = invariance heap.ok_now"
  by (simp add: invariance_def heap_sound_def fun_eq_iff)

lemma evolve_simple:
  "keeps evo (frame_at h)" "keeps evo (promise_at h)"
  "keeps evo (status_at s)" "keeps evo (task_at t)"
  "keeps evo (non_null p)" "keeps evo (task_finished x)"
  "keeps evo (rethrow_if h)"
  using heap.keeps_simple by (auto intro!: evolve_heap rest_frame.preserves_simple simp: sound_alt)

lemma evolve_update_promise:
  "(\<And>p. task_status_ptr (u p) = task_status_ptr p) \<Longrightarrow> keeps evo (update_promise u h)"
  by (intro evolve_heap rest_frame.preserves_simple) (simp add: sound_alt heap.keeps_update_promise)

lemma evolve_publish: "keeps evo (publish_to_promise d h)"
  unfolding publish_to_promise_def by (rule evolve_update_promise) simp

lemma evolve_unhandled_exception: "keeps evo (unhandled_exception e h)"
  unfolding unhandled_exception_def by (rule evolve_update_promise) simp

lemma evolve_return_value: "keeps evo (return_value c h)"
  by (intro evolve_heap rest_frame.preserves_return_value)
    (simp add: sound_alt heap.keeps_return_value)

lemma evolve_set_metadata: "keeps evo (set_coro_metadata m t)"
  unfolding set_coro_metadata_def
  by (auto split: option.split intro!: evolving.keeps_rules evolve_update_promise)

lemma evolve_get_metadata: "keeps evo (get_coro_metadata t)"
  unfolding get_coro_metadata_def
  by (auto split: option.split intro!: evolving.keeps_rules evolve_simple)

lemma evolve_promise_is_done: "keeps evo (promise_is_done h)"
  unfolding promise_is_done_def
  by (auto split: option.split intro!: evolving.keeps_rules evolve_simple)

lemmas rest_simple = rest_frame.preserves_simple [THEN preserves_rest]

lemma rest_update_started: "keeps evo_rest (put_task t x)"
  by (rule preserves_rest) (rule rest_frame.preserves_simple)

lemma rest_start: "keeps evo_rest (EvTask_start rs t)"
  unfolding EvTask_start_def
  by (auto intro!: rest.keeps_rules rest_simple rs_rest split: if_splits)

lemma evolve_start: "keeps evo (EvTask_start rs t)"
  using heap.keeps_start rest_start by (simp add: evolves_split sound_alt)

lemma evolve_task_resume: "keeps evo (EvTask_resume rs t)"
  unfolding EvTask_resume_def by (intro evolving.keeps_bind evolve_simple rs_evolves)

lemma evolve_task_await_suspend: "keeps evo (EvTask_await_suspend rs t other)"
  unfolding EvTask_await_suspend_def
  by (auto intro!: evolving.keeps_rules evolve_simple rs_evolves evolve_start evolve_update_promise
      split: if_splits)

lemma evolve_task_await_resume: "keeps evo (EvTask_await_resume t)"
  unfolding EvTask_await_resume_def
  by (auto intro!: evolving.keeps_rules evolve_simple split: option.split)

lemma evolve_is_done: "keeps evo (EvTask_is_done t)"
  unfolding EvTask_is_done_def by (intro evolving.keeps_rules evolve_simple)

lemma evolve_resume_with: "keeps evo (EvTask_resume_with rs d t)"
proof -
  have "keeps evo_rest (publish_to_promise d h)" for h
    using evolve_publish by (simp add: evolves_split)
  then have "keeps evo_rest (EvTask_resume_with rs d t)"
    unfolding EvTask_resume_with_def
    by (auto intro!: rest.keeps_rules rest_simple rs_rest)
  then show ?thesis using heap.keeps_resume_with by (simp add: evolves_split sound_alt)
qed

lemma evolve_final_suspend: "keeps evo (final_suspend rs h)"
proof -
  have "keeps evo_rest (final_suspend rs h)"
    unfolding final_suspend_def
    by (auto intro!: rest.keeps_rules rest_simple rs_rest split: option.split)
  then show ?thesis using heap.keeps_final_suspend by (simp add: evolves_split sound_alt)
qed

lemmas evolve_task = evolve_simple evolve_publish evolve_unhandled_exception evolve_return_value
  evolve_set_metadata evolve_get_metadata evolve_promise_is_done evolve_start evolve_task_resume
  evolve_task_await_suspend evolve_task_await_resume evolve_is_done evolve_resume_with
  evolve_final_suspend

end

lemma heap_sound_ops:
  assumes "\<And>w xs x w'. heap_ok w xs \<Longrightarrow> m w = Inr (x, w') \<Longrightarrow> heap_ok w' xs"
    and "keeps (preserves managed) m"
  shows "keeps (invariance heap_sound) m"
  using assms by (fastforce simp: keeps_def invariance_def heap_sound_def preserves_def)

lemma evolve_spawn [evolve]: "keeps (evolves infl) (spawn b)"
proof -
  have "keeps (evolves_rest infl) (spawn b)"
    by (auto simp: keeps_def spawn_Inr new_coroutine_Inr evolves_rest_def accounted_def tagged_def
        no_loss_def no_reuse_def ring_lives_def)
  moreover have "keeps (invariance heap_sound) (spawn b)"
    by (rule heap_sound_ops [OF spawn_ok managed_frame.preserves_spawn])
  ultimately show ?thesis by (simp add: evolves_split)
qed

lemma evolve_drop_task [evolve]: "keeps (evolves infl) (drop_task t)"
  by (intro evolve_heap rest_frame.preserves_drop_task heap_sound_ops
      managed_frame.preserves_drop_task) (rule drop_task_ok)

lemma evolve_suspend [evolve]:
  "keeps (evolves infl) (suspend_at h b)" "keeps (evolves infl) (begin_resume h)"
  by (intro evolve_heap rest_frame.preserves_suspend heap_sound_ops managed_frame.preserves_suspend;
      rule suspend_at_ok begin_resume_ok; assumption)+

end
