(* ===== verification/Em_Ring.thy ===== *)
theory Em_Ring
  imports Em_Evolution
begin

text \<open>
  A concrete ring, on which the theorems about an arbitrary \<open>U\<close> are applied: entries are handed out up
  to the depth of the queue, a submission takes all of them, completions come back in the order the
  requests were taken, with the results of a script. It satisfies \<open>counts\<close>, so that the hypothesis
  the accounting rests on can hold. A submission can be made to fail (\<open>sim_refuse\<close>).
\<close>

record sim_ring =
  sim_depth :: nat
  sim_head :: nat
  sim_queued :: "(sqe_prep option \<times> addr option) list"
  sim_taken :: "(sqe_prep option \<times> addr option) list"
  sim_script :: "cint list"
  sim_refuse :: "cint option"

definition sim_get_sqe :: "sim_ring \<Rightarrow> nat option \<times> sim_ring" where
  "sim_get_sqe r =
     (if length (sim_queued r) < sim_depth r
      then (Some (sim_head r + length (sim_queued r)),
            r\<lparr>sim_queued := sim_queued r @ [(None, None)]\<rparr>)
      else (None, r))"

definition sim_entry ::
    "(sqe_prep option \<times> addr option \<Rightarrow> sqe_prep option \<times> addr option) \<Rightarrow> nat \<Rightarrow> sim_ring \<Rightarrow> sim_ring" where
  "sim_entry f n r =
     (let i = n - sim_head r in
      if i < length (sim_queued r)
      then r\<lparr>sim_queued := (sim_queued r)[i := f (sim_queued r ! i)]\<rparr> else r)"

definition sim_submit :: "sim_ring \<Rightarrow> cint \<times> sim_ring" where
  "sim_submit r =
     (case sim_refuse r of
        Some e \<Rightarrow> (if 0 <s e then 0 else e, r)
      | None \<Rightarrow>
          if length (sim_taken r) + length (sim_queued r) < 2 ^ 31
          then (of_nat (length (sim_queued r)),
                r\<lparr>sim_head := sim_head r + length (sim_queued r), sim_queued := [],
                  sim_taken := sim_taken r @ sim_queued r\<rparr>)
          else (-16, r))"

definition sim_wait_cqe :: "sim_ring \<Rightarrow> wait_result \<times> sim_ring" where
  "sim_wait_cqe r =
     (case sim_taken r of
        [] \<Rightarrow> (Blocks, r)
      | (p, d) # _ \<Rightarrow> (Ready 0 (case sim_script r of [] \<Rightarrow> 0 | res # _ \<Rightarrow> res) d, r))"

definition sim_uring :: "sim_ring uring" where
  "sim_uring = \<lparr>
     u_queue_init = (\<lambda>n wq. (0, \<lparr>sim_depth = unat n, sim_head = 0, sim_queued = [], sim_taken = [],
       sim_script = [], sim_refuse = None\<rparr>, 3)),
     u_get_sqe = sim_get_sqe,
     u_prep = (\<lambda>n p. sim_entry (\<lambda>e. (Some p, snd e)) n),
     u_set_data = (\<lambda>n a. sim_entry (\<lambda>e. (fst e, Some a)) n),
     u_submit = sim_submit,
     u_sqe_tail = (\<lambda>r. of_nat (sim_head r + length (sim_queued r))),
     u_sqe_head = (\<lambda>r. of_nat (sim_head r)),
     u_wait_cqe = sim_wait_cqe,
     u_cqe_seen = (\<lambda>n r. r\<lparr>sim_taken := tl (sim_taken r), sim_script := tl (sim_script r)\<rparr>),
     u_queue_exit = id\<rparr>"

definition sim_infl :: "sim_ring \<Rightarrow> nat" where
  "sim_infl r = length (sim_taken r)"

lemma sim_uring_simps [simp]:
  "u_get_sqe sim_uring = sim_get_sqe"
  "u_prep sim_uring n p = sim_entry (\<lambda>e. (Some p, snd e)) n"
  "u_set_data sim_uring n a = sim_entry (\<lambda>e. (fst e, Some a)) n"
  "u_submit sim_uring = sim_submit"
  "u_sqe_tail sim_uring r = of_nat (sim_head r + length (sim_queued r))"
  "u_sqe_head sim_uring r = of_nat (sim_head r)"
  "u_wait_cqe sim_uring = sim_wait_cqe"
  "u_cqe_seen sim_uring n r = r\<lparr>sim_taken := tl (sim_taken r), sim_script := tl (sim_script r)\<rparr>"
  "u_queue_exit sim_uring r = r"
  "u_queue_init sim_uring m wq = (0, \<lparr>sim_depth = unat m, sim_head = 0, sim_queued = [],
     sim_taken = [], sim_script = [], sim_refuse = None\<rparr>, 3)"
  by (simp_all add: sim_uring_def)

lemma of_nat_positive:
  assumes "n < 2 ^ 31"
  shows "unat (of_nat n :: cint) = n" and "0 <s (of_nat n :: cint) \<longleftrightarrow> 0 < n"
proof -
  show n: "unat (of_nat n :: cint) = n" using assms by (simp add: unat_of_nat take_bit_nat_eq_self)
  have "sint (of_nat n :: cint) = int n"
    using assms by (simp add: signed_of_nat signed_take_bit_int_eq_self)
  then show "0 <s (of_nat n :: cint) \<longleftrightarrow> 0 < n" by (simp add: word_sless_alt)
qed

lemma sim_counts: "counts sim_uring sim_infl"
proof -
  have submit: "sim_infl r' = sim_infl r + (if 0 <s k then unat k else 0) \<and>
      (sim_infl r < 2 ^ 64 \<longrightarrow> sim_infl r' < 2 ^ 64)" if "sim_submit r = (k, r')" for r k r'
    using that of_nat_positive [of "length (sim_queued r)"]
    by (auto simp: sim_submit_def sim_infl_def word_sless_alt split: option.splits if_splits)
  then have "\<forall>r k r'. u_submit sim_uring r = (k, r') \<longrightarrow>
      sim_infl r' = sim_infl r + (if 0 <s k then unat k else 0) \<and>
      (sim_infl r < 2 ^ 64 \<longrightarrow> sim_infl r' < 2 ^ 64)"
    by (metis sim_uring_simps(4))
  moreover have "\<forall>r. sim_infl (snd (u_get_sqe sim_uring r)) = sim_infl r"
      "\<forall>n p r. sim_infl (u_prep sim_uring n p r) = sim_infl r"
      "\<forall>n a r. sim_infl (u_set_data sim_uring n a r) = sim_infl r"
      "\<forall>n r. sim_infl (u_cqe_seen sim_uring n r) = sim_infl r - 1"
      "\<forall>r x r'. u_wait_cqe sim_uring r = (x, r') \<longrightarrow>
        sim_infl r' = sim_infl r \<and> ((\<exists>n res d. x = Ready n res d) \<longrightarrow> 0 < sim_infl r)"
    by (auto simp: sim_get_sqe_def sim_entry_def sim_wait_cqe_def sim_infl_def Let_def
        split: list.splits prod.splits if_splits)
  ultimately show ?thesis unfolding counts_def by blast
qed

text \<open>The same ring, set up with the results its completions will have.\<close>

definition scripted :: "cint list \<Rightarrow> sim_ring uring" where
  "scripted script = sim_uring\<lparr>u_queue_init := (\<lambda>n wq. (0, \<lparr>sim_depth = unat n, sim_head = 0,
     sim_queued = [], sim_taken = [], sim_script = script, sim_refuse = None\<rparr>, 3))\<rparr>"

lemma scripted_simps [simp]:
  "u_get_sqe (scripted s) = sim_get_sqe"
  "u_prep (scripted s) n p = sim_entry (\<lambda>e. (Some p, snd e)) n"
  "u_set_data (scripted s) n a = sim_entry (\<lambda>e. (fst e, Some a)) n"
  "u_submit (scripted s) = sim_submit"
  "u_sqe_tail (scripted s) r = of_nat (sim_head r + length (sim_queued r))"
  "u_sqe_head (scripted s) r = of_nat (sim_head r)"
  "u_wait_cqe (scripted s) = sim_wait_cqe"
  "u_cqe_seen (scripted s) n r = r\<lparr>sim_taken := tl (sim_taken r), sim_script := tl (sim_script r)\<rparr>"
  "u_queue_exit (scripted s) r = r"
  "u_queue_init (scripted s) m wq = (0, \<lparr>sim_depth = unat m, sim_head = 0, sim_queued = [],
     sim_taken = [], sim_script = s, sim_refuse = None\<rparr>, 3)"
  by (simp_all add: scripted_def)

lemma counts_init [simp]: "counts (U\<lparr>u_queue_init := f\<rparr>) infl = counts U infl"
  by (simp add: counts_def)

lemma scripted_counts: "counts (scripted s) sim_infl"
  by (simp add: scripted_def sim_counts)

text \<open>A world in which nothing has been allocated yet, around a ring.\<close>

definition empty_world :: "LivingState \<Rightarrow> 'r \<Rightarrow> ('b, 'r) manager" where
  "empty_world life r = \<lparr>frames = Map.empty, statuses = Map.empty, tasks = Map.empty, next_addr = 0,
     requests = Map.empty, request_home = Map.empty, awaitables = Map.empty, ring = r,
     ring_open = True, manager_life_state = life, managed_coroutines_store = new_ItemStore,
     polling_requests = False, polling_handle = None, ready_requests_store = [],
     in_flight_requests = 0, kill_coro_task = 0, shared_ring_fd = 3, ring_instances = 1,
     iov_base_of = (\<lambda>p. p), user_variable = 0\<rparr>"

definition idle_ring :: sim_ring where
  "idle_ring = \<lparr>sim_depth = 4, sim_head = 0, sim_queued = [], sim_taken = [], sim_script = [],
     sim_refuse = None\<rparr>"

end
