(* ===== verification/Em_Requests.thy ===== *)
theory Em_Requests
  imports Em_Ring
begin

text \<open>
  The three ways to make a request (\<open>io_ops.cpp\<close>, \<open>coroutine/io_awaitables.hpp\<close>): awaited
  (\<open>ev_read\<close>, \<dots>), not awaited (\<open>read_na\<close>, \<dots>) and as a member of a batch
  (\<open>process_single_generic_request\<close>). The code writes each out twelve times. Here the arm that the
  twelve copies share is one definition over the parameter pack (\<open>request_na\<close>, \<open>make_awaitable\<close>),
  \<open>prep_of\<close> is the \<open>io_uring_prep_\<close> call of each type, and every public
  function is an instance; the switch of the batch keeps its twelve arms and their \<open>get_if\<close>.
\<close>

subsection \<open>Request data in memory\<close>

definition request_at :: "addr \<Rightarrow> ('b, 'r, RequestData) em_op" where
  "request_at r = bindM (getM requests) (\<lambda>m. derefM UseAfterFree (m r))"

definition update_request :: "(RequestData \<Rightarrow> RequestData) \<Rightarrow> addr \<Rightarrow> ('b, 'r, unit) em_op" where
  "update_request u r =
     bindM (request_at r) (\<lambda>d. modifyM (\<lambda>w. w\<lparr>requests := (requests w)(r \<mapsto> u d)\<rparr>))"

definition new_request :: "addr option \<Rightarrow> RequestData \<Rightarrow> ('b, 'r, addr) em_op" where
  "new_request home d =
     bindM fresh_addr (\<lambda>r.
     thenM (modifyM (\<lambda>w. w\<lparr>requests := (requests w)(r \<mapsto> d),
              request_home := (request_home w)(r := home)\<rparr>))
     (returnM r))"

definition delete_request :: "addr \<Rightarrow> ('b, 'r, unit) em_op" where
  "delete_request r =
     thenM (request_at r) (modifyM (\<lambda>w. w\<lparr>requests := (requests w)(r := None)\<rparr>))"

text \<open>The end of a frame is the end of the requests and the awaitables that live in it.\<close>

definition free_homed :: "addr \<Rightarrow> ('b, 'r, unit) em_op" where
  "free_homed h = modifyM (\<lambda>w. w\<lparr>
     requests := (\<lambda>r. if request_home w r = Some h then None else requests w r),
     awaitables := (\<lambda>a. if request_home w a = Some h then None else awaitables w a)\<rparr>)"

definition awaitable_at :: "addr \<Rightarrow> ('b, 'r, IOAwaitable) em_op" where
  "awaitable_at a = bindM (getM awaitables) (\<lambda>m. derefM UseAfterFree (m a))"

definition update_awaitable :: "(IOAwaitable \<Rightarrow> IOAwaitable) \<Rightarrow> addr \<Rightarrow> ('b, 'r, unit) em_op" where
  "update_awaitable u a =
     bindM (awaitable_at a) (\<lambda>x. modifyM (\<lambda>w. w\<lparr>awaitables := (awaitables w)(a \<mapsto> u x)\<rparr>))"

text \<open>
  The preparation of an entry: file offset and accept flags are 0, and the \<open>size_t\<close> lengths become
  the \<open>unsigned\<close> of the prototypes.
\<close>

fun prep_of :: "OperationParameterPackVariant \<Rightarrow> sqe_prep" where
  "prep_of (ReadPack p) = PrepRead (read_p_fd p) (read_p_buffer p) (ucast (read_p_length p)) 0"
| "prep_of (WritePack p) = PrepWrite (write_p_fd p) (write_p_buffer p) (ucast (write_p_length p))
  0"
| "prep_of (ClosePack p) = PrepClose (close_p_fd p)"
| "prep_of (ShutdownPack p) = PrepShutdown (shutdown_p_fd p) (shutdown_p_how p)"
| "prep_of (ReadvPack p) = PrepReadv (readv_p_fd p) (readv_p_iovs p) (ucast (readv_p_num p)) 0"
| "prep_of (WritevPack p) = PrepWritev (writev_p_fd p) (writev_p_iovs p) (ucast (writev_p_num p))
  0"
| "prep_of (AcceptPack p) = PrepAccept (accept_p_sockfd p) (accept_p_addr p) (accept_p_addrlen p)
  0"
| "prep_of (ConnectPack p) = PrepConnect (connect_p_sockfd p) (connect_p_addr p)
  (connect_p_addrlen p)"
| "prep_of (OpenatPack p) = PrepOpenat (openat_p_dirfd p) (openat_p_pathname p) (openat_p_flags p)
  (openat_p_mode p)"
| "prep_of (StatxPack p) = PrepStatx (statx_p_dirfd p) (statx_p_pathname p) (statx_p_flags p)
  (statx_p_mask p) (statx_p_statxbuf p)"
| "prep_of (UnlinkatPack p) = PrepUnlinkat (unlinkat_p_dirfd p) (unlinkat_p_pathname p)
  (unlinkat_p_flags p)"
| "prep_of (RenameatPack p) = PrepRenameat (renameat_p_olddirfd p) (renameat_p_oldpathname p)
  (renameat_p_newdirfd p) (renameat_p_newpathname p) (renameat_p_flags p)"

subsection \<open>Requests nobody awaits\<close>

text \<open>
  \<open>submit_request\<close> and \<open>get_sqe_and_req_data\<close>. Both results of the second are null together, so they
  are one option.
\<close>

definition submit_request :: "'r uring \<Rightarrow> nat \<Rightarrow> addr \<Rightarrow> ('b, 'r, Errnos) em_op" where
  "submit_request U sqe r =
     thenM (io_uring_sqe_set_data U sqe r)
     (bindM (submit_queued_entries U) (\<lambda>ret.
      if ret <s 1
      then bindM (request_at r) (\<lambda>d.
           thenM (whenM (allocated_dynamic d) (delete_request r))
           (returnM (ucast (- ret))))
      else returnM UNKNOWN_ERROR))"

definition get_sqe_and_req_data ::
    "'r uring \<Rightarrow> RequestType \<Rightarrow> ('b, 'r, (nat \<times> addr) option) em_op" where
  "get_sqe_and_req_data U Rt =
     bindM (get_uring_sqe U) (\<lambda>sqe. case sqe of
       None \<Rightarrow> returnM None
     | Some s \<Rightarrow>
         bindM (new_request None (new_RequestData\<lparr>req_type := Rt, allocated_dynamic := True\<rparr>)) (\<lambda>r.
         returnM (Some (s, r))))"

definition request_na ::
    "'r uring \<Rightarrow> RequestType \<Rightarrow> OperationParameterPackVariant \<Rightarrow> ('b, 'r, Errnos) em_op" where
  "request_na U Rt p =
     bindM (get_sqe_and_req_data U Rt) (\<lambda>pair. case pair of
       None \<Rightarrow> returnM UNKNOWN_ERROR
     | Some (sqe, r) \<Rightarrow>
         thenM (update_request (\<lambda>d. d\<lparr>specific_data := p\<rparr>) r)
         (thenM (io_uring_prep U sqe (prep_of p))
          (submit_request U sqe r)))"

definition read_na :: "'r uring \<Rightarrow> cint \<Rightarrow> uptr \<Rightarrow> csize \<Rightarrow> ('b, 'r, Errnos) em_op" where
  "read_na U fd buffer len = request_na U READ (ReadPack \<lparr>read_p_fd = fd, read_p_buffer =
    buffer, read_p_length = len\<rparr>)"

definition write_na :: "'r uring \<Rightarrow> cint \<Rightarrow> uptr \<Rightarrow> csize \<Rightarrow> ('b, 'r, Errnos) em_op" where
  "write_na U fd buffer len = request_na U WRITE (WritePack \<lparr>write_p_fd = fd,
    write_p_buffer = buffer, write_p_length = len\<rparr>)"

definition close_na :: "'r uring \<Rightarrow> cint \<Rightarrow> ('b, 'r, Errnos) em_op" where
  "close_na U fd = request_na U CLOSE (ClosePack \<lparr>close_p_fd = fd\<rparr>)"

definition shutdown_na :: "'r uring \<Rightarrow> cint \<Rightarrow> cint \<Rightarrow> ('b, 'r, Errnos) em_op" where
  "shutdown_na U fd how = request_na U SHUTDOWN (ShutdownPack \<lparr>shutdown_p_fd = fd,
    shutdown_p_how = how\<rparr>)"

definition readv_na :: "'r uring \<Rightarrow> cint \<Rightarrow> uptr \<Rightarrow> csize \<Rightarrow> ('b, 'r, Errnos) em_op" where
  "readv_na U fd iovs num = request_na U READV (ReadvPack \<lparr>readv_p_fd = fd, readv_p_iovs =
    iovs, readv_p_num = num\<rparr>)"

definition writev_na :: "'r uring \<Rightarrow> cint \<Rightarrow> uptr \<Rightarrow> csize \<Rightarrow> ('b, 'r, Errnos) em_op" where
  "writev_na U fd iovs num = request_na U WRITEV (WritevPack \<lparr>writev_p_fd = fd,
    writev_p_iovs = iovs, writev_p_num = num\<rparr>)"

definition accept_na :: "'r uring \<Rightarrow> cint \<Rightarrow> uptr \<Rightarrow> uptr \<Rightarrow> ('b, 'r, Errnos) em_op" where
  "accept_na U sockfd addr addrlen = request_na U ACCEPT (AcceptPack \<lparr>accept_p_sockfd =
    sockfd, accept_p_addr = addr, accept_p_addrlen = addrlen\<rparr>)"

definition connect_na :: "'r uring \<Rightarrow> cint \<Rightarrow> uptr \<Rightarrow> u32 \<Rightarrow> ('b, 'r, Errnos) em_op" where
  "connect_na U sockfd addr addrlen = request_na U CONNECT (ConnectPack \<lparr>connect_p_sockfd =
    sockfd, connect_p_addr = addr, connect_p_addrlen = addrlen\<rparr>)"

definition openat_na :: "'r uring \<Rightarrow> cint \<Rightarrow> uptr \<Rightarrow> cint \<Rightarrow> u32 \<Rightarrow> ('b, 'r, Errnos) em_op" where
  "openat_na U dirfd pathname flags mode = request_na U OPENAT (OpenatPack \<lparr>openat_p_dirfd
    = dirfd, openat_p_pathname = pathname, openat_p_flags = flags, openat_p_mode = mode\<rparr>)"

definition statx_na :: "'r uring \<Rightarrow> cint \<Rightarrow> uptr \<Rightarrow> cint \<Rightarrow> u32 \<Rightarrow> uptr \<Rightarrow> ('b, 'r, Errnos) em_op" where
  "statx_na U dirfd pathname flags stx_mask statxbuf = request_na U STATX (StatxPack
    \<lparr>statx_p_dirfd = dirfd, statx_p_pathname = pathname, statx_p_flags = flags,
    statx_p_mask = stx_mask, statx_p_statxbuf = statxbuf\<rparr>)"

definition unlinkat_na :: "'r uring \<Rightarrow> cint \<Rightarrow> uptr \<Rightarrow> cint \<Rightarrow> ('b, 'r, Errnos) em_op" where
  "unlinkat_na U dirfd pathname flags = request_na U UNLINKAT (UnlinkatPack
    \<lparr>unlinkat_p_dirfd = dirfd, unlinkat_p_pathname = pathname, unlinkat_p_flags =
    flags\<rparr>)"

definition renameat_na :: "'r uring \<Rightarrow> cint \<Rightarrow> uptr \<Rightarrow> cint \<Rightarrow> uptr \<Rightarrow> cint \<Rightarrow> ('b, 'r, Errnos) em_op" where
  "renameat_na U olddirfd oldpathname newdirfd newpathname flags = request_na U RENAMEAT
    (RenameatPack \<lparr>renameat_p_olddirfd = olddirfd, renameat_p_oldpathname = oldpathname,
    renameat_p_newdirfd = newdirfd, renameat_p_newpathname = newpathname, renameat_p_flags =
    flags\<rparr>)"

subsection \<open>Members of a batch\<close>

text \<open>
  The switch of \<open>process_single_generic_request\<close>: for each type, what the arm stores in
  \<open>specific_data\<close> and prepares, and \<open>None\<close> where its \<open>get_if\<close> fails.
\<close>

fun switch_prep ::
    "RequestType \<Rightarrow> OperationParameterPackVariant \<Rightarrow>
     (OperationParameterPackVariant \<times> sqe_prep) option" where
  "switch_prep READ req = map_option (\<lambda>pack. (ReadPack \<lparr>read_p_fd = read_p_fd pack,
    read_p_buffer = read_p_buffer pack, read_p_length = read_p_length pack\<rparr>, PrepRead
    (read_p_fd pack) (read_p_buffer pack) (ucast (read_p_length pack)) 0)) (get_read req)"
| "switch_prep WRITE req = map_option (\<lambda>pack. (WritePack \<lparr>write_p_fd = write_p_fd
  pack, write_p_buffer = write_p_buffer pack, write_p_length = write_p_length pack\<rparr>,
  PrepWrite (write_p_fd pack) (write_p_buffer pack) (ucast (write_p_length pack)) 0)) (get_write
  req)"
| "switch_prep CLOSE req = map_option (\<lambda>pack. (ClosePack \<lparr>close_p_fd = close_p_fd
  pack\<rparr>, PrepClose (close_p_fd pack))) (get_close req)"
| "switch_prep SHUTDOWN req = map_option (\<lambda>pack. (ShutdownPack \<lparr>shutdown_p_fd =
  shutdown_p_fd pack, shutdown_p_how = shutdown_p_how pack\<rparr>, PrepShutdown (shutdown_p_fd
  pack) (shutdown_p_how pack))) (get_shutdown req)"
| "switch_prep READV req = map_option (\<lambda>pack. (ReadvPack \<lparr>readv_p_fd = readv_p_fd
  pack, readv_p_iovs = readv_p_iovs pack, readv_p_num = readv_p_num pack\<rparr>, PrepReadv
  (readv_p_fd pack) (readv_p_iovs pack) (ucast (readv_p_num pack)) 0)) (get_readv req)"
| "switch_prep WRITEV req = map_option (\<lambda>pack. (WritevPack \<lparr>writev_p_fd =
  writev_p_fd pack, writev_p_iovs = writev_p_iovs pack, writev_p_num = writev_p_num pack\<rparr>,
  PrepWritev (writev_p_fd pack) (writev_p_iovs pack) (ucast (writev_p_num pack)) 0)) (get_writev
  req)"
| "switch_prep ACCEPT req = map_option (\<lambda>pack. (AcceptPack \<lparr>accept_p_sockfd =
  accept_p_sockfd pack, accept_p_addr = accept_p_addr pack, accept_p_addrlen = accept_p_addrlen
  pack\<rparr>, PrepAccept (accept_p_sockfd pack) (accept_p_addr pack) (accept_p_addrlen pack) 0))
  (get_accept req)"
| "switch_prep CONNECT req = map_option (\<lambda>pack. (ConnectPack \<lparr>connect_p_sockfd =
  connect_p_sockfd pack, connect_p_addr = connect_p_addr pack, connect_p_addrlen =
  connect_p_addrlen pack\<rparr>, PrepConnect (connect_p_sockfd pack) (connect_p_addr pack)
  (connect_p_addrlen pack))) (get_connect req)"
| "switch_prep OPENAT req = map_option (\<lambda>pack. (OpenatPack \<lparr>openat_p_dirfd =
  openat_p_dirfd pack, openat_p_pathname = openat_p_pathname pack, openat_p_flags = openat_p_flags
  pack, openat_p_mode = openat_p_mode pack\<rparr>, PrepOpenat (openat_p_dirfd pack)
  (openat_p_pathname pack) (openat_p_flags pack) (openat_p_mode pack))) (get_openat req)"
| "switch_prep STATX req = map_option (\<lambda>pack. (StatxPack \<lparr>statx_p_dirfd =
  statx_p_dirfd pack, statx_p_pathname = statx_p_pathname pack, statx_p_flags = statx_p_flags
  pack, statx_p_mask = statx_p_mask pack, statx_p_statxbuf = statx_p_statxbuf pack\<rparr>,
  PrepStatx (statx_p_dirfd pack) (statx_p_pathname pack) (statx_p_flags pack) (statx_p_mask pack)
  (statx_p_statxbuf pack))) (get_statx req)"
| "switch_prep UNLINKAT req = map_option (\<lambda>pack. (UnlinkatPack \<lparr>unlinkat_p_dirfd =
  unlinkat_p_dirfd pack, unlinkat_p_pathname = unlinkat_p_pathname pack, unlinkat_p_flags =
  unlinkat_p_flags pack\<rparr>, PrepUnlinkat (unlinkat_p_dirfd pack) (unlinkat_p_pathname pack)
  (unlinkat_p_flags pack))) (get_unlinkat req)"
| "switch_prep RENAMEAT req = map_option (\<lambda>pack. (RenameatPack \<lparr>renameat_p_olddirfd
  = renameat_p_olddirfd pack, renameat_p_oldpathname = renameat_p_oldpathname pack,
  renameat_p_newdirfd = renameat_p_newdirfd pack, renameat_p_newpathname = renameat_p_newpathname
  pack, renameat_p_flags = renameat_p_flags pack\<rparr>, PrepRenameat (renameat_p_olddirfd pack)
  (renameat_p_oldpathname pack) (renameat_p_newdirfd pack) (renameat_p_newpathname pack)
  (renameat_p_flags pack))) (get_renameat req)"

definition process_single_generic_request ::
    "'r uring \<Rightarrow> OperationParameterPackVariant \<Rightarrow> addr \<Rightarrow> addr option \<Rightarrow> ('b, 'r, bool) em_op" where
  "process_single_generic_request U req single_req h =
     (let req_type' = RequestType_of (Op_index req) in
      bindM (get_uring_sqe U) (\<lambda>sqe. case sqe of
        None \<Rightarrow> returnM False
      | Some s \<Rightarrow>
          thenM (update_request (\<lambda>d. d\<lparr>handle := h, allocated_dynamic := False\<rparr>) single_req)
          (case req_type' of
             None \<Rightarrow>
               thenM (io_uring_sqe_set_data U s single_req) (returnM True)
           | Some Rt \<Rightarrow>
               thenM (update_request (\<lambda>d. d\<lparr>req_type := Rt\<rparr>) single_req)
               (case switch_prep Rt req of
                  None \<Rightarrow> returnM False
                | Some (p, prep) \<Rightarrow>
                    thenM (update_request (\<lambda>d. d\<lparr>specific_data := p\<rparr>) single_req)
                    (thenM (io_uring_prep U s prep)
                     (thenM (io_uring_sqe_set_data U s single_req) (returnM True)))))))"

subsection \<open>Awaited requests\<close>

text \<open>
  \<open>IOResponse\<close>; the payload of a default-constructed one is the zero pack of its type.
\<close>

record IOResponse =
  io_error :: ErrorCodes
  io_data :: RespData

text \<open>
  The construction of an awaitable inside the frame \<open>home\<close> of the coroutine that is going to await
  it. With a null \<open>EventManager*\<close> the initialiser of \<open>SQE\<close> calls a member function on it.
\<close>

definition IOAwaitable_construct ::
    "'r uring \<Rightarrow> bool \<Rightarrow> addr \<Rightarrow> RequestType \<Rightarrow> ('b, 'r, addr) em_op" where
  "IOAwaitable_construct U ev_is_null home Rt =
     (if ev_is_null then faultM NullDereference
      else
        bindM (get_uring_sqe U) (\<lambda>sqe.
        bindM (new_request (Some home) (new_RequestData\<lparr>req_type := Rt\<rparr>)) (\<lambda>a.
        thenM (modifyM (\<lambda>w. w\<lparr>awaitables := (awaitables w)(a \<mapsto>
                 \<lparr>channel = None, aw_type = Rt,
                  aw_error = (if sqe = None then EventManagerErr SUBMISSION_QUEUE_FULL else NoErr),
                  SQE = sqe\<rparr>)\<rparr>))
        (returnM a))))"

definition make_awaitable ::
    "'r uring \<Rightarrow> addr \<Rightarrow> RequestType \<Rightarrow> OperationParameterPackVariant \<Rightarrow> ('b, 'r, addr) em_op" where
  "make_awaitable U home Rt p =
     bindM (IOAwaitable_construct U False home Rt) (\<lambda>a.
     thenM (update_request (\<lambda>d. d\<lparr>specific_data := p\<rparr>) a)
     (returnM a))"

text \<open>The constructors of the twelve awaitables.\<close>

definition ReadAwaitable ::
    "'r uring \<Rightarrow> addr \<Rightarrow> cint \<Rightarrow> uptr \<Rightarrow> csize \<Rightarrow> ('b, 'r, addr) em_op" where
  "ReadAwaitable U home fd buffer len = make_awaitable U home READ (ReadPack \<lparr>read_p_fd =
     fd, read_p_buffer = buffer, read_p_length = len\<rparr>)"

definition WriteAwaitable ::
    "'r uring \<Rightarrow> addr \<Rightarrow> cint \<Rightarrow> uptr \<Rightarrow> csize \<Rightarrow> ('b, 'r, addr) em_op" where
  "WriteAwaitable U home fd buffer len = make_awaitable U home WRITE (WritePack \<lparr>write_p_fd
     = fd, write_p_buffer = buffer, write_p_length = len\<rparr>)"

definition CloseAwaitable ::
    "'r uring \<Rightarrow> addr \<Rightarrow> cint \<Rightarrow> ('b, 'r, addr) em_op" where
  "CloseAwaitable U home fd = make_awaitable U home CLOSE (ClosePack \<lparr>close_p_fd =
     fd\<rparr>)"

definition ShutdownAwaitable ::
    "'r uring \<Rightarrow> addr \<Rightarrow> cint \<Rightarrow> cint \<Rightarrow> ('b, 'r, addr) em_op" where
  "ShutdownAwaitable U home fd how = make_awaitable U home SHUTDOWN (ShutdownPack
     \<lparr>shutdown_p_fd = fd, shutdown_p_how = how\<rparr>)"

definition ReadvAwaitable ::
    "'r uring \<Rightarrow> addr \<Rightarrow> cint \<Rightarrow> uptr \<Rightarrow> csize \<Rightarrow> ('b, 'r, addr) em_op" where
  "ReadvAwaitable U home fd iovs num = make_awaitable U home READV (ReadvPack \<lparr>readv_p_fd =
     fd, readv_p_iovs = iovs, readv_p_num = num\<rparr>)"

definition WritevAwaitable ::
    "'r uring \<Rightarrow> addr \<Rightarrow> cint \<Rightarrow> uptr \<Rightarrow> csize \<Rightarrow> ('b, 'r, addr) em_op" where
  "WritevAwaitable U home fd iovs num = make_awaitable U home WRITEV (WritevPack
     \<lparr>writev_p_fd = fd, writev_p_iovs = iovs, writev_p_num = num\<rparr>)"

definition AcceptAwaitable ::
    "'r uring \<Rightarrow> addr \<Rightarrow> cint \<Rightarrow> uptr \<Rightarrow> uptr \<Rightarrow> ('b, 'r, addr) em_op" where
  "AcceptAwaitable U home sockfd addr addrlen = make_awaitable U home ACCEPT (AcceptPack
     \<lparr>accept_p_sockfd = sockfd, accept_p_addr = addr, accept_p_addrlen = addrlen\<rparr>)"

definition ConnectAwaitable ::
    "'r uring \<Rightarrow> addr \<Rightarrow> cint \<Rightarrow> uptr \<Rightarrow> u32 \<Rightarrow> ('b, 'r, addr) em_op" where
  "ConnectAwaitable U home sockfd addr addrlen = make_awaitable U home CONNECT (ConnectPack
     \<lparr>connect_p_sockfd = sockfd, connect_p_addr = addr, connect_p_addrlen =
     addrlen\<rparr>)"

definition OpenatAwaitable ::
    "'r uring \<Rightarrow> addr \<Rightarrow> cint \<Rightarrow> uptr \<Rightarrow> cint \<Rightarrow> u32 \<Rightarrow> ('b, 'r, addr) em_op" where
  "OpenatAwaitable U home dirfd pathname flags mode = make_awaitable U home OPENAT (OpenatPack
     \<lparr>openat_p_dirfd = dirfd, openat_p_pathname = pathname, openat_p_flags = flags,
     openat_p_mode = mode\<rparr>)"

definition StatxAwaitable ::
    "'r uring \<Rightarrow> addr \<Rightarrow> cint \<Rightarrow> uptr \<Rightarrow> cint \<Rightarrow> u32 \<Rightarrow> uptr \<Rightarrow> ('b, 'r, addr) em_op" where
  "StatxAwaitable U home dirfd pathname flags stx_mask statxbuf = make_awaitable U home STATX
     (StatxPack \<lparr>statx_p_dirfd = dirfd, statx_p_pathname = pathname, statx_p_flags = flags,
     statx_p_mask = stx_mask, statx_p_statxbuf = statxbuf\<rparr>)"

definition UnlinkatAwaitable ::
    "'r uring \<Rightarrow> addr \<Rightarrow> cint \<Rightarrow> uptr \<Rightarrow> cint \<Rightarrow> ('b, 'r, addr) em_op" where
  "UnlinkatAwaitable U home dirfd pathname flags = make_awaitable U home UNLINKAT (UnlinkatPack
     \<lparr>unlinkat_p_dirfd = dirfd, unlinkat_p_pathname = pathname, unlinkat_p_flags =
     flags\<rparr>)"

definition RenameatAwaitable ::
    "'r uring \<Rightarrow> addr \<Rightarrow> cint \<Rightarrow> uptr \<Rightarrow> cint \<Rightarrow> uptr \<Rightarrow> cint \<Rightarrow> ('b, 'r, addr) em_op" where
  "RenameatAwaitable U home olddirfd oldpathname newdirfd newpathname flags = make_awaitable U
     home RENAMEAT (RenameatPack \<lparr>renameat_p_olddirfd = olddirfd, renameat_p_oldpathname =
     oldpathname, renameat_p_newdirfd = newdirfd, renameat_p_newpathname = newpathname,
     renameat_p_flags = flags\<rparr>)"

text \<open>
  \<open>EventManager::read\<close> and the others: past \<open>LIVING\<close> they return \<open>{}\<close>, which is the default
  constructor of the awaitable, \<open>IOAwaitable(nullptr)\<close>.
\<close>

definition restricted_awaitable ::
    "'r uring \<Rightarrow> addr \<Rightarrow> RequestType \<Rightarrow> ('b, 'r, addr) em_op \<Rightarrow> ('b, 'r, addr) em_op" where
  "restricted_awaitable U home Rt otherwise =
     bindM should_restrict_usage (\<lambda>restricted.
     if restricted then IOAwaitable_construct U True home Rt else otherwise)"

definition ev_read ::
    "'r uring \<Rightarrow> addr \<Rightarrow> cint \<Rightarrow> uptr \<Rightarrow> csize \<Rightarrow> ('b, 'r, addr) em_op" where
  "ev_read U home fd buffer len = restricted_awaitable U home READ (ReadAwaitable U home fd buffer
     len)"

definition ev_write ::
    "'r uring \<Rightarrow> addr \<Rightarrow> cint \<Rightarrow> uptr \<Rightarrow> csize \<Rightarrow> ('b, 'r, addr) em_op" where
  "ev_write U home fd buffer len = restricted_awaitable U home WRITE (WriteAwaitable U home fd
     buffer len)"

definition ev_close ::
    "'r uring \<Rightarrow> addr \<Rightarrow> cint \<Rightarrow> ('b, 'r, addr) em_op" where
  "ev_close U home fd = restricted_awaitable U home CLOSE (CloseAwaitable U home fd)"

definition ev_shutdown ::
    "'r uring \<Rightarrow> addr \<Rightarrow> cint \<Rightarrow> cint \<Rightarrow> ('b, 'r, addr) em_op" where
  "ev_shutdown U home fd how = restricted_awaitable U home SHUTDOWN (ShutdownAwaitable U home fd
     how)"

definition ev_readv ::
    "'r uring \<Rightarrow> addr \<Rightarrow> cint \<Rightarrow> uptr \<Rightarrow> csize \<Rightarrow> ('b, 'r, addr) em_op" where
  "ev_readv U home fd iovs num = restricted_awaitable U home READV (ReadvAwaitable U home fd iovs
     num)"

definition ev_writev ::
    "'r uring \<Rightarrow> addr \<Rightarrow> cint \<Rightarrow> uptr \<Rightarrow> csize \<Rightarrow> ('b, 'r, addr) em_op" where
  "ev_writev U home fd iovs num = restricted_awaitable U home WRITEV (WritevAwaitable U home fd
     iovs num)"

definition ev_accept ::
    "'r uring \<Rightarrow> addr \<Rightarrow> cint \<Rightarrow> uptr \<Rightarrow> uptr \<Rightarrow> ('b, 'r, addr) em_op" where
  "ev_accept U home sockfd addr addrlen = restricted_awaitable U home ACCEPT (AcceptAwaitable U
     home sockfd addr addrlen)"

definition ev_connect ::
    "'r uring \<Rightarrow> addr \<Rightarrow> cint \<Rightarrow> uptr \<Rightarrow> u32 \<Rightarrow> ('b, 'r, addr) em_op" where
  "ev_connect U home sockfd addr addrlen = restricted_awaitable U home CONNECT (ConnectAwaitable U
     home sockfd addr addrlen)"

definition ev_openat ::
    "'r uring \<Rightarrow> addr \<Rightarrow> cint \<Rightarrow> uptr \<Rightarrow> cint \<Rightarrow> u32 \<Rightarrow> ('b, 'r, addr) em_op" where
  "ev_openat U home dirfd pathname flags mode = restricted_awaitable U home OPENAT
     (OpenatAwaitable U home dirfd pathname flags mode)"

definition ev_statx ::
    "'r uring \<Rightarrow> addr \<Rightarrow> cint \<Rightarrow> uptr \<Rightarrow> cint \<Rightarrow> u32 \<Rightarrow> uptr \<Rightarrow> ('b, 'r, addr) em_op" where
  "ev_statx U home dirfd pathname flags stx_mask statxbuf = restricted_awaitable U home STATX
     (StatxAwaitable U home dirfd pathname flags stx_mask statxbuf)"

definition ev_unlinkat ::
    "'r uring \<Rightarrow> addr \<Rightarrow> cint \<Rightarrow> uptr \<Rightarrow> cint \<Rightarrow> ('b, 'r, addr) em_op" where
  "ev_unlinkat U home dirfd pathname flags = restricted_awaitable U home UNLINKAT
     (UnlinkatAwaitable U home dirfd pathname flags)"

definition ev_renameat ::
    "'r uring \<Rightarrow> addr \<Rightarrow> cint \<Rightarrow> uptr \<Rightarrow> cint \<Rightarrow> uptr \<Rightarrow> cint \<Rightarrow> ('b, 'r, addr) em_op" where
  "ev_renameat U home olddirfd oldpathname newdirfd newpathname flags = restricted_awaitable U
     home RENAMEAT (RenameatAwaitable U home olddirfd oldpathname newdirfd newpathname flags)"

text \<open>The call for a given parameter pack.\<close>

fun ev_request :: "'r uring \<Rightarrow> addr \<Rightarrow> OperationParameterPackVariant \<Rightarrow> ('b, 'r, addr) em_op" where
  "ev_request U home (ReadPack p) = ev_read U home (read_p_fd p) (read_p_buffer p) (read_p_length
     p)"
| "ev_request U home (WritePack p) = ev_write U home (write_p_fd p) (write_p_buffer p)
     (write_p_length p)"
| "ev_request U home (ClosePack p) = ev_close U home (close_p_fd p)"
| "ev_request U home (ShutdownPack p) = ev_shutdown U home (shutdown_p_fd p) (shutdown_p_how p)"
| "ev_request U home (ReadvPack p) = ev_readv U home (readv_p_fd p) (readv_p_iovs p) (readv_p_num
     p)"
| "ev_request U home (WritevPack p) = ev_writev U home (writev_p_fd p) (writev_p_iovs p)
     (writev_p_num p)"
| "ev_request U home (AcceptPack p) = ev_accept U home (accept_p_sockfd p) (accept_p_addr p)
     (accept_p_addrlen p)"
| "ev_request U home (ConnectPack p) = ev_connect U home (connect_p_sockfd p) (connect_p_addr p)
     (connect_p_addrlen p)"
| "ev_request U home (OpenatPack p) = ev_openat U home (openat_p_dirfd p) (openat_p_pathname p)
     (openat_p_flags p) (openat_p_mode p)"
| "ev_request U home (StatxPack p) = ev_statx U home (statx_p_dirfd p) (statx_p_pathname p)
     (statx_p_flags p) (statx_p_mask p) (statx_p_statxbuf p)"
| "ev_request U home (UnlinkatPack p) = ev_unlinkat U home (unlinkat_p_dirfd p)
     (unlinkat_p_pathname p) (unlinkat_p_flags p)"
| "ev_request U home (RenameatPack p) = ev_renameat U home (renameat_p_olddirfd p)
     (renameat_p_oldpathname p) (renameat_p_newdirfd p) (renameat_p_newpathname p)
     (renameat_p_flags p)"

fun na_request :: "'r uring \<Rightarrow> OperationParameterPackVariant \<Rightarrow> ('b, 'r, Errnos) em_op" where
  "na_request U (ReadPack p) = read_na U (read_p_fd p) (read_p_buffer p) (read_p_length p)"
| "na_request U (WritePack p) = write_na U (write_p_fd p) (write_p_buffer p) (write_p_length p)"
| "na_request U (ClosePack p) = close_na U (close_p_fd p)"
| "na_request U (ShutdownPack p) = shutdown_na U (shutdown_p_fd p) (shutdown_p_how p)"
| "na_request U (ReadvPack p) = readv_na U (readv_p_fd p) (readv_p_iovs p) (readv_p_num p)"
| "na_request U (WritevPack p) = writev_na U (writev_p_fd p) (writev_p_iovs p) (writev_p_num p)"
| "na_request U (AcceptPack p) = accept_na U (accept_p_sockfd p) (accept_p_addr p)
     (accept_p_addrlen p)"
| "na_request U (ConnectPack p) = connect_na U (connect_p_sockfd p) (connect_p_addr p)
     (connect_p_addrlen p)"
| "na_request U (OpenatPack p) = openat_na U (openat_p_dirfd p) (openat_p_pathname p)
     (openat_p_flags p) (openat_p_mode p)"
| "na_request U (StatxPack p) = statx_na U (statx_p_dirfd p) (statx_p_pathname p) (statx_p_flags
     p) (statx_p_mask p) (statx_p_statxbuf p)"
| "na_request U (UnlinkatPack p) = unlinkat_na U (unlinkat_p_dirfd p) (unlinkat_p_pathname p)
     (unlinkat_p_flags p)"
| "na_request U (RenameatPack p) = renameat_na U (renameat_p_olddirfd p) (renameat_p_oldpathname
     p) (renameat_p_newdirfd p) (renameat_p_newpathname p) (renameat_p_flags p)"

text \<open>
  \<open>prepare_sqring_op\<close> of each awaitable reads its own member of the union and passes on its fields;
  \<open>IOAwaitable\<close> calls the one of the class that derives from it.
\<close>

definition prepare_read :: "'r uring \<Rightarrow> addr \<Rightarrow> nat \<Rightarrow> ('b, 'r, unit) em_op" where
  "prepare_read U a sqe = bindM (request_at a) (\<lambda>req_data.
     bindM (derefM InactiveUnionMember (get_read (specific_data req_data))) (\<lambda>read_data.
     io_uring_prep U sqe (PrepRead (read_p_fd read_data) (read_p_buffer read_data) (ucast
       (read_p_length read_data)) 0)))"

definition prepare_write :: "'r uring \<Rightarrow> addr \<Rightarrow> nat \<Rightarrow> ('b, 'r, unit) em_op" where
  "prepare_write U a sqe = bindM (request_at a) (\<lambda>req_data.
     bindM (derefM InactiveUnionMember (get_write (specific_data req_data))) (\<lambda>write_data.
     io_uring_prep U sqe (PrepWrite (write_p_fd write_data) (write_p_buffer write_data) (ucast
       (write_p_length write_data)) 0)))"

definition prepare_close :: "'r uring \<Rightarrow> addr \<Rightarrow> nat \<Rightarrow> ('b, 'r, unit) em_op" where
  "prepare_close U a sqe = bindM (request_at a) (\<lambda>req_data.
     bindM (derefM InactiveUnionMember (get_close (specific_data req_data))) (\<lambda>close_data.
     io_uring_prep U sqe (PrepClose (close_p_fd close_data))))"

definition prepare_shutdown :: "'r uring \<Rightarrow> addr \<Rightarrow> nat \<Rightarrow> ('b, 'r, unit) em_op" where
  "prepare_shutdown U a sqe = bindM (request_at a) (\<lambda>req_data.
     bindM (derefM InactiveUnionMember (get_shutdown (specific_data req_data))) (\<lambda>shutdown_data.
     io_uring_prep U sqe (PrepShutdown (shutdown_p_fd shutdown_data) (shutdown_p_how
       shutdown_data))))"

definition prepare_readv :: "'r uring \<Rightarrow> addr \<Rightarrow> nat \<Rightarrow> ('b, 'r, unit) em_op" where
  "prepare_readv U a sqe = bindM (request_at a) (\<lambda>req_data.
     bindM (derefM InactiveUnionMember (get_readv (specific_data req_data))) (\<lambda>readv_data.
     io_uring_prep U sqe (PrepReadv (readv_p_fd readv_data) (readv_p_iovs readv_data) (ucast
       (readv_p_num readv_data)) 0)))"

definition prepare_writev :: "'r uring \<Rightarrow> addr \<Rightarrow> nat \<Rightarrow> ('b, 'r, unit) em_op" where
  "prepare_writev U a sqe = bindM (request_at a) (\<lambda>req_data.
     bindM (derefM InactiveUnionMember (get_writev (specific_data req_data))) (\<lambda>writev_data.
     io_uring_prep U sqe (PrepWritev (writev_p_fd writev_data) (writev_p_iovs writev_data) (ucast
       (writev_p_num writev_data)) 0)))"

definition prepare_accept :: "'r uring \<Rightarrow> addr \<Rightarrow> nat \<Rightarrow> ('b, 'r, unit) em_op" where
  "prepare_accept U a sqe = bindM (request_at a) (\<lambda>req_data.
     bindM (derefM InactiveUnionMember (get_accept (specific_data req_data))) (\<lambda>accept_data.
     io_uring_prep U sqe (PrepAccept (accept_p_sockfd accept_data) (accept_p_addr accept_data)
       (accept_p_addrlen accept_data) 0)))"

definition prepare_connect :: "'r uring \<Rightarrow> addr \<Rightarrow> nat \<Rightarrow> ('b, 'r, unit) em_op" where
  "prepare_connect U a sqe = bindM (request_at a) (\<lambda>req_data.
     bindM (derefM InactiveUnionMember (get_connect (specific_data req_data))) (\<lambda>connect_data.
     io_uring_prep U sqe (PrepConnect (connect_p_sockfd connect_data) (connect_p_addr
       connect_data) (connect_p_addrlen connect_data))))"

definition prepare_openat :: "'r uring \<Rightarrow> addr \<Rightarrow> nat \<Rightarrow> ('b, 'r, unit) em_op" where
  "prepare_openat U a sqe = bindM (request_at a) (\<lambda>req_data.
     bindM (derefM InactiveUnionMember (get_openat (specific_data req_data))) (\<lambda>openat_data.
     io_uring_prep U sqe (PrepOpenat (openat_p_dirfd openat_data) (openat_p_pathname openat_data)
       (openat_p_flags openat_data) (openat_p_mode openat_data))))"

definition prepare_statx :: "'r uring \<Rightarrow> addr \<Rightarrow> nat \<Rightarrow> ('b, 'r, unit) em_op" where
  "prepare_statx U a sqe = bindM (request_at a) (\<lambda>req_data.
     bindM (derefM InactiveUnionMember (get_statx (specific_data req_data))) (\<lambda>statx_data.
     io_uring_prep U sqe (PrepStatx (statx_p_dirfd statx_data) (statx_p_pathname statx_data)
       (statx_p_flags statx_data) (statx_p_mask statx_data) (statx_p_statxbuf statx_data))))"

definition prepare_unlinkat :: "'r uring \<Rightarrow> addr \<Rightarrow> nat \<Rightarrow> ('b, 'r, unit) em_op" where
  "prepare_unlinkat U a sqe = bindM (request_at a) (\<lambda>req_data.
     bindM (derefM InactiveUnionMember (get_unlinkat (specific_data req_data))) (\<lambda>unlinkat_data.
     io_uring_prep U sqe (PrepUnlinkat (unlinkat_p_dirfd unlinkat_data) (unlinkat_p_pathname
       unlinkat_data) (unlinkat_p_flags unlinkat_data))))"

definition prepare_renameat :: "'r uring \<Rightarrow> addr \<Rightarrow> nat \<Rightarrow> ('b, 'r, unit) em_op" where
  "prepare_renameat U a sqe = bindM (request_at a) (\<lambda>req_data.
     bindM (derefM InactiveUnionMember (get_renameat (specific_data req_data))) (\<lambda>renameat_data.
     io_uring_prep U sqe (PrepRenameat (renameat_p_olddirfd renameat_data) (renameat_p_oldpathname
       renameat_data) (renameat_p_newdirfd renameat_data) (renameat_p_newpathname renameat_data)
       (renameat_p_flags renameat_data))))"

fun prepare_member :: "RequestType \<Rightarrow> 'r uring \<Rightarrow> addr \<Rightarrow> nat \<Rightarrow> ('b, 'r, unit) em_op" where
  "prepare_member READ = prepare_read"
| "prepare_member WRITE = prepare_write"
| "prepare_member CLOSE = prepare_close"
| "prepare_member SHUTDOWN = prepare_shutdown"
| "prepare_member READV = prepare_readv"
| "prepare_member WRITEV = prepare_writev"
| "prepare_member ACCEPT = prepare_accept"
| "prepare_member CONNECT = prepare_connect"
| "prepare_member OPENAT = prepare_openat"
| "prepare_member STATX = prepare_statx"
| "prepare_member UNLINKAT = prepare_unlinkat"
| "prepare_member RENAMEAT = prepare_renameat"

definition prepare_sqring_op :: "'r uring \<Rightarrow> addr \<Rightarrow> nat \<Rightarrow> ('b, 'r, unit) em_op" where
  "prepare_sqring_op U a sqe =
     bindM (awaitable_at a) (\<lambda>this. prepare_member (aw_type this) U a sqe)"

definition IOAwaitable_await_ready :: "addr \<Rightarrow> ('b, 'r, bool) em_op" where
  "IOAwaitable_await_ready a =
     bindM (awaitable_at a) (\<lambda>this. returnM (is_there_an_error (aw_error this)))"

definition IOAwaitable_await_suspend ::
    "'r uring \<Rightarrow> (addr \<Rightarrow> ('b, 'r, unit) em_op) \<Rightarrow> addr \<Rightarrow> addr \<Rightarrow> ('b, 'r, unit) em_op" where
  "IOAwaitable_await_suspend U rs h a =
     bindM (promise_at h) (\<lambda>pr.
     thenM (update_awaitable (\<lambda>x. x\<lparr>channel := Some h\<rparr>) a)
     (thenM (update_request (\<lambda>d. d\<lparr>handle := Some h, coro_idx := metadata pr,
               coro_finished := task_status_ptr pr\<rparr>) a)
      (bindM (awaitable_at a) (\<lambda>this.
       bindM (non_null (SQE this)) (\<lambda>sqe.
       thenM (prepare_sqring_op U a sqe)
       (thenM (io_uring_sqe_set_data U sqe a)
        (bindM (submit_queued_entries U) (\<lambda>ret.
         if ret <s 1
         then thenM (update_awaitable (\<lambda>x. x\<lparr>aw_error :=
                       set_error_from_num LIBURING_SUBMISSION_ERR_ERRNO (aw_error x) (- ret)\<rparr>) a)
              (rs h)
         else returnM ()))))))))"

definition consume_from :: "RequestType \<Rightarrow> addr \<Rightarrow> ('b, 'r, RespData option) em_op" where
  "consume_from Rt ch =
     bindM (promise_at ch) (\<lambda>p.
     case consume_resp_data Rt (com_data p) of (val, c) \<Rightarrow>
       thenM (update_promise (\<lambda>p. p\<lparr>com_data := c\<rparr>) ch) (returnM val))"

definition IOAwaitable_await_resume :: "addr \<Rightarrow> ('b, 'r, IOResponse) em_op" where
  "IOAwaitable_await_resume a =
     bindM (awaitable_at a) (\<lambda>this.
     let error = aw_error this; none = RespData_init (aw_type this) in
     if is_there_an_error error then returnM \<lparr>io_error = error, io_data = none\<rparr>
     else
       bindM (non_null (channel this)) (\<lambda>ch.
       bindM (consume_from (aw_type this) ch) (\<lambda>val.
       case val of
         None \<Rightarrow> returnM \<lparr>io_error = set_error_from_enum EVENT_MANAGER_ERR error
                   SYSTEM_COMMUNICATION_CHANNEL_FAILURE, io_data = none\<rparr>
       | Some data \<Rightarrow>
           if RespData_error_num data \<noteq> 0
           then returnM \<lparr>io_error = set_error_from_num OPERATION_ERR_ERRNO error
                           (- RespData_error_num data), io_data = data\<rparr>
           else returnM \<lparr>io_error = NoErr, io_data = data\<rparr>)))"

subsection \<open>How these operations run\<close>

lemma fresh_addr_run: "fresh_addr w = Inr (next_addr w, w\<lparr>next_addr := Suc (next_addr w)\<rparr>)"
  by (simp add: fresh_addr_def runs)

lemma request_at_Inr: "request_at r w = Inr (d, w') \<longleftrightarrow> requests w r = Some d \<and> w' = w"
  by (auto simp: request_at_def run_iffs)

lemma update_request_Inr:
  "update_request u r w = Inr (x, w') \<longleftrightarrow>
     (\<exists>d. requests w r = Some d \<and> w' = w\<lparr>requests := (requests w)(r \<mapsto> u d)\<rparr>)"
  by (auto simp: update_request_def request_at_Inr run_iffs)

lemma new_request_run:
  "new_request home d w = Inr (next_addr w, w\<lparr>next_addr := Suc (next_addr w),
     requests := (requests w)(next_addr w \<mapsto> d),
     request_home := (request_home w)(next_addr w := home)\<rparr>)"
  by (simp add: new_request_def fresh_addr_run runs)

lemma delete_request_Inr:
  "delete_request r w = Inr (x, w') \<longleftrightarrow>
     requests w r \<noteq> None \<and> w' = w\<lparr>requests := (requests w)(r := None)\<rparr>"
  by (auto simp: delete_request_def request_at_Inr run_iffs)

lemma awaitable_at_Inr: "awaitable_at a w = Inr (x, w') \<longleftrightarrow> awaitables w a = Some x \<and> w' = w"
  by (auto simp: awaitable_at_def run_iffs)

lemma update_awaitable_Inr:
  "update_awaitable u a w = Inr (x, w') \<longleftrightarrow>
     (\<exists>y. awaitables w a = Some y \<and> w' = w\<lparr>awaitables := (awaitables w)(a \<mapsto> u y)\<rparr>)"
  by (auto simp: update_awaitable_def awaitable_at_Inr run_iffs)

lemmas request_iffs = request_at_Inr update_request_Inr delete_request_Inr awaitable_at_Inr
  update_awaitable_Inr

text \<open>The switch of a batch finds its alternative, so the two error branches of each arm are dead.\<close>

lemma switch_prep_own: "switch_prep (Op_type p) p = Some (p, prep_of p)"
  by (cases p) simp_all

lemma switch_prep_Some: "switch_prep Rt p = Some (q, c) \<Longrightarrow> Rt = Op_type p \<and> q = p \<and> c = prep_of p"
  by (cases Rt; cases p) auto

text \<open>The twelve copies of each operation are instances of one.\<close>

lemmas awaitable_defs = ReadAwaitable_def ev_read_def WriteAwaitable_def ev_write_def CloseAwaitable_def
  ev_close_def ShutdownAwaitable_def ev_shutdown_def ReadvAwaitable_def ev_readv_def
  WritevAwaitable_def ev_writev_def AcceptAwaitable_def ev_accept_def ConnectAwaitable_def
  ev_connect_def OpenatAwaitable_def ev_openat_def StatxAwaitable_def ev_statx_def
  UnlinkatAwaitable_def ev_unlinkat_def RenameatAwaitable_def ev_renameat_def

lemmas na_defs = read_na_def write_na_def close_na_def shutdown_na_def readv_na_def writev_na_def
  accept_na_def connect_na_def openat_na_def statx_na_def unlinkat_na_def renameat_na_def

lemmas prepare_defs = prepare_read_def prepare_write_def prepare_close_def prepare_shutdown_def prepare_readv_def
  prepare_writev_def prepare_accept_def prepare_connect_def prepare_openat_def
  prepare_statx_def prepare_unlinkat_def prepare_renameat_def

lemma ev_request_eq:
  "ev_request U home p =
     restricted_awaitable U home (Op_type p) (make_awaitable U home (Op_type p) p)"
  by (cases p) (simp_all add: awaitable_defs)

lemma na_request_eq: "na_request U p = request_na U (Op_type p) p"
  by (cases p) (simp_all add: na_defs)

lemma prepare_member_run:
  "requests w a = Some d \<Longrightarrow> prepare_member Rt U a sqe w =
     (if Op_type (specific_data d) = Rt then io_uring_prep U sqe (prep_of (specific_data d)) w
      else Inl InactiveUnionMember)"
  by (cases Rt; cases "specific_data d") (simp_all add: prepare_defs runs request_at_def)

lemma update_twice:
  "thenM (update_request u r) (thenM (update_request v r) m) = thenM (update_request (v \<circ> u) r) m"
  by (rule ext) (auto simp: update_request_def request_at_def runs split: option.splits)

text \<open>What \<open>process_single_generic_request\<close> amounts to.\<close>

lemma process_single_run:
  "process_single_generic_request U p r h =
     bindM (get_uring_sqe U) (\<lambda>sqe. case sqe of
       None \<Rightarrow> returnM False
     | Some s \<Rightarrow>
         thenM (update_request (\<lambda>d. d\<lparr>handle := h, allocated_dynamic := False, req_type := Op_type p,
                  specific_data := p\<rparr>) r)
         (thenM (io_uring_prep U s (prep_of p))
          (thenM (io_uring_sqe_set_data U s r) (returnM True))))"
  by (simp add: process_single_generic_request_def Let_def switch_prep_own update_twice comp_def
      cong: option.case_cong)

subsection \<open>They keep the invariants\<close>

lemma evolve_requests:
  assumes "heap_of w' = heap_of w" and "next_addr w \<le> next_addr w'" and "ring w' = ring w"
    and "ring_open w' = ring_open w" and "in_flight_requests w' = in_flight_requests w"
    and "manager_life_state w' = manager_life_state w" and "tagged w \<Longrightarrow> tagged w'"
    and "\<And>r. r < next_addr w \<Longrightarrow> requests w r = None \<Longrightarrow> requests w' r = None"
  shows "evolves infl w w'"
  using assms by (intro evolvesI) (simp_all add: accounted_def)

lemma evolve_reads [evolve]:
  "keeps (evolves infl) (request_at r)" "keeps (evolves infl) (awaitable_at a)"
  "keeps (evolves infl) (IOAwaitable_await_ready a)"
  by (auto simp: keeps_def request_iffs IOAwaitable_await_ready_def run_iffs evolving.refl)

lemma evolve_update_request [evolve]:
  assumes "\<And>d. well_tagged d \<Longrightarrow> well_tagged (u d)"
  shows "keeps (evolves infl) (update_request u r :: ('b, 'r, unit) em_op)"
proof (rule keepsI)
  fix w w' :: "('b, 'r) manager" and x assume "update_request u r w = Inr (x, w')"
  then obtain d where d: "requests w r = Some d" "w' = w\<lparr>requests := (requests w)(r \<mapsto> u d)\<rparr>"
    by (auto simp: request_iffs)
  show "evolves infl w w'"
  proof (rule evolve_requests)
    show "tagged w \<Longrightarrow> tagged w'" 
      by (rule tagged_put [OF _ assms [OF taggedD [OF _ d(1)]]]) (simp_all add: d(2))
  qed (use d(1) in \<open>auto simp: d(2) heap_of_def\<close>)
qed

lemma evolve_delete_request [evolve]: "keeps (evolves infl) (delete_request r)"
  by (auto simp: keeps_def request_iffs heap_of_def intro!: evolve_requests elim!: tagged_drop)

lemma evolve_update_awaitable [evolve]: "keeps (evolves infl) (update_awaitable u a)"
  by (auto simp: keeps_def request_iffs heap_of_def tagged_def intro!: evolve_requests)

lemma evolve_free_homed [evolve]: "keeps (evolves infl) (free_homed h)"
  by (auto simp: keeps_def free_homed_def heap_of_def tagged_def intro!: evolve_requests
      split: if_splits)

text \<open>A request is made with its tag before its union is set: the two steps are taken as one.\<close>

lemma evolve_new_request:
  assumes "\<And>r. keeps (evolves infl) (k r)" and "well_tagged (u d)"
  shows "keeps (evolves infl)
    (bindM (new_request home d) (\<lambda>r. thenM (update_request u r) (k r)) :: ('b, 'r, 'a) em_op)"
proof (rule keepsI)
  fix w :: "('b, 'r) manager" and x w'
  let ?v = "w\<lparr>next_addr := Suc (next_addr w), request_home := (request_home w)(next_addr w := home),
    requests := (requests w)(next_addr w \<mapsto> u d)\<rparr>"
  assume "bindM (new_request home d) (\<lambda>r. thenM (update_request u r) (k r)) w = Inr (x, w')"
  then have "k (next_addr w) ?v = Inr (x, w')"
    by (auto simp: run_iffs new_request_run request_iffs)
  moreover have "evolves infl w ?v"
    by (rule evolve_requests) (auto simp: heap_of_def elim!: tagged_put intro: assms(2))
  ultimately show "evolves infl w w'"
    using assms(1) by (meson evolving.trans keepsD)
qed

lemma evolve_submit_request [evolve]:
  "tallies U infl \<Longrightarrow> keeps (evolves infl) (submit_request U sqe r)"
  unfolding submit_request_def
  by (auto intro!: evolving.keeps_rules evolve split: if_splits)

lemma evolve_request_na [evolve]:
  assumes "tallies U infl" and "Op_type p = Rt"
  shows "keeps (evolves infl) (request_na U Rt p)"
proof -
  let ?d = "new_RequestData\<lparr>req_type := Rt, allocated_dynamic := True\<rparr>"
  have eq: "request_na U Rt p = bindM (get_uring_sqe U) (\<lambda>sqe. case sqe of
      None \<Rightarrow> returnM UNKNOWN_ERROR
    | Some s \<Rightarrow> bindM (new_request None ?d) (\<lambda>r.
        thenM (update_request (\<lambda>d. d\<lparr>specific_data := p\<rparr>) r)
        (thenM (io_uring_prep U s (prep_of p)) (submit_request U s r))))"
    by (rule ext) (auto simp: request_na_def get_sqe_and_req_data_def runs new_request_run
        split: option.splits sum.splits)
  have tag: "well_tagged (?d\<lparr>specific_data := p\<rparr>)" using assms(2) by (simp add: well_tagged_def)
  show ?thesis unfolding eq
    using tag assms(1) by (auto intro!: evolving.keeps_rules evolve evolve_new_request split: option.split)
qed

lemma evolve_process_single [evolve]:
  "tallies U infl \<Longrightarrow> keeps (evolves infl) (process_single_generic_request U p r h)"
  unfolding process_single_run
  by (auto intro!: evolving.keeps_rules evolve split: option.split simp: well_tagged_def)

lemma make_awaitable_run:
  "make_awaitable U home Rt p = bindM (get_uring_sqe U) (\<lambda>sqe.
     bindM (new_request (Some home) (new_RequestData\<lparr>req_type := Rt\<rparr>)) (\<lambda>a.
     thenM (update_request (\<lambda>d. d\<lparr>specific_data := p\<rparr>) a)
     (thenM (modifyM (\<lambda>w. w\<lparr>awaitables := (awaitables w)(a \<mapsto>
              \<lparr>channel = None, aw_type = Rt,
               aw_error = (if sqe = None then EventManagerErr SUBMISSION_QUEUE_FULL else NoErr),
               SQE = sqe\<rparr>)\<rparr>))
     (returnM a))))"
  by (rule ext) (auto simp: make_awaitable_def IOAwaitable_construct_def runs new_request_run
      update_request_def request_at_def split: option.splits sum.splits)

lemma evolve_put_awaitable [evolve]:
  "keeps (evolves infl) (modifyM (\<lambda>w. w\<lparr>awaitables := f w\<rparr>))"
  by (auto simp: keeps_def heap_of_def tagged_def intro!: evolve_requests)

lemma evolve_ev_request [evolve]:
  assumes "tallies U infl"
  shows "keeps (evolves infl) (ev_request U home p)"
proof -
  have "well_tagged (new_RequestData\<lparr>req_type := Op_type p, specific_data := p\<rparr>)"
    by (simp add: well_tagged_def)
  then show ?thesis
    unfolding ev_request_eq restricted_awaitable_def make_awaitable_run IOAwaitable_construct_def
    using assms by (auto intro!: evolving.keeps_rules evolve evolve_new_request)
qed

lemma evolve_na_request [evolve]: "tallies U infl \<Longrightarrow> keeps (evolves infl) (na_request U p)"
  unfolding na_request_eq by (rule evolve_request_na) simp_all

lemma evolve_prepare [evolve]:
  assumes "tallies U infl"
  shows "keeps (evolves infl) (prepare_sqring_op U a sqe)"
proof -
  have "keeps (evolves infl) (prepare_member Rt U a sqe)" for Rt
    by (cases Rt) (auto simp: prepare_defs intro!: evolving.keeps_rules evolve assms)
  then show ?thesis
    unfolding prepare_sqring_op_def by (intro evolving.keeps_bind evolve)
qed

context driving
begin

lemma evolve_await_suspend:
  "tallies U infl \<Longrightarrow> keeps evo (IOAwaitable_await_suspend U rs h a)"
  unfolding IOAwaitable_await_suspend_def
  by (auto intro!: evolving.keeps_rules evolve evolve_simple rs_evolves simp: well_tagged_def
      split: if_splits)

lemma evolve_consume_from: "keeps evo (consume_from Rt ch)"
  unfolding consume_from_def
  by (auto intro!: evolving.keeps_rules evolve_simple evolve_update_promise split: prod.split)

lemma evolve_await_resume: "keeps evo (IOAwaitable_await_resume a)"
  unfolding IOAwaitable_await_resume_def Let_def
  by (auto intro!: evolving.keeps_rules evolve evolve_simple evolve_consume_from
      split: option.split if_splits)

end

subsection \<open>What requests guarantee\<close>

lemma less_one_signed: "(k :: cint) <s 1 \<longleftrightarrow> \<not> 0 <s k"
  by (simp add: word_sless_alt) arith

text \<open>
  C12. What a request that nobody awaits does, on every path, for each of the twelve \<open>_na\<close> functions:
  without a free entry nothing is allocated and the result is \<open>UNKNOWN_ERROR\<close>; with one, the request
  data is made with its tag and its arguments, the entry is prepared with them and carries the
  address of the request data, and the queue is submitted. A submission that takes nothing deletes
  the request data again and returns the low byte of the negated return value, while the entry that
  points to it stays in the ring; any other result counts the requests taken as in flight and is
  \<open>UNKNOWN_ERROR\<close> too.
\<close>

theorem na_outcome:
  assumes "manager_life_state w \<le> LIVING" and "ring_open w"
  shows "na_request U p w =
    (case u_get_sqe U (ring w) of
       (None, r1) \<Rightarrow> Inr (UNKNOWN_ERROR, w\<lparr>ring := r1\<rparr>)
     | (Some s, r1) \<Rightarrow>
         (let a = next_addr w;
              d = \<lparr>handle = None, coro_idx = 0, coro_finished = None, req_type = Op_type p,
                   allocated_dynamic = True, specific_data = p\<rparr>;
              v = w\<lparr>next_addr := Suc a, request_home := (request_home w)(a := None)\<rparr>
          in case u_submit U (u_set_data U s a (u_prep U s (prep_of p) r1)) of (k, r2) \<Rightarrow>
               if k <s 1
               then Inr (ucast (- k), v\<lparr>requests := (requests w)(a := None), ring := r2\<rparr>)
               else Inr (UNKNOWN_ERROR, v\<lparr>requests := (requests w)(a \<mapsto> d), ring := r2,
                      in_flight_requests := in_flight_requests w + scast k\<rparr>)))"
proof -
  have living: "\<not> LIVING < manager_life_state w" using assms(1) by (simp add: not_less)
  show ?thesis
    using living assms(2)
    by (auto simp: na_request_eq request_na_def get_sqe_and_req_data_def get_uring_sqe_def
        should_restrict_usage_def io_uring_get_sqe_def io_uring_prep_def io_uring_sqe_set_data_def
        on_ring_def runs new_request_run update_request_def request_at_def submit_request_def
        submit_queued_entries_def delete_request_def new_RequestData_def less_one_signed Let_def
        split: option.split prod.split)
qed

theorem na_outcome_witness:
  "na_request sim_uring (ClosePack \<lparr>close_p_fd = 7\<rparr>)
     (empty_world LIVING (idle_ring\<lparr>sim_refuse := Some (- 16)\<rparr>) :: (nat, sim_ring) manager) =
   Inr (16, (empty_world LIVING (idle_ring\<lparr>sim_queued := [(Some (PrepClose 7), Some 0)],
     sim_refuse := Some (- 16)\<rparr>))\<lparr>next_addr := 1\<rparr>)"
proof -
  let ?w = "empty_world LIVING (idle_ring\<lparr>sim_refuse := Some (- 16)\<rparr>) :: (nat, sim_ring) manager"
  have 1: "manager_life_state ?w \<le> LIVING" "ring_open ?w" by (simp_all add: empty_world_def)
  have "(request_home ?w)(0 := None) = request_home ?w" "(requests ?w)(0 := None) = requests ?w"
    by (simp_all add: empty_world_def fun_eq_iff)
  then show ?thesis
    unfolding na_outcome [OF 1]
    by (simp add: empty_world_def idle_ring_def sim_get_sqe_def sim_entry_def sim_submit_def Let_def
        word_sless_alt)
qed

lemma batch_request_prepared_main:
  assumes "manager_life_state w \<le> LIVING" and "ring_open w" and "requests w r = Some d"
  shows "process_single_generic_request U p r h w =
    (case u_get_sqe U (ring w) of
       (None, r1) \<Rightarrow> Inr (False, w\<lparr>ring := r1\<rparr>)
     | (Some s, r1) \<Rightarrow>
         Inr (True, w\<lparr>requests := (requests w)(r \<mapsto> d\<lparr>handle := h, allocated_dynamic := False,
                req_type := Op_type p, specific_data := p\<rparr>),
              ring := u_set_data U s r (u_prep U s (prep_of p) r1)\<rparr>))"
proof -
  have living: "\<not> LIVING < manager_life_state w" using assms(1) by (simp add: not_less)
  show ?thesis
    unfolding process_single_run
    using living assms(2,3)
    by (auto simp: get_uring_sqe_def should_restrict_usage_def io_uring_get_sqe_def
        io_uring_prep_def io_uring_sqe_set_data_def on_ring_def runs update_request_def
        request_at_def split: option.split prod.split)
qed

text \<open>
  C13. \<open>process_single_generic_request\<close> never takes one of its twelve error branches: the index of the
  variant names the alternative its \<open>get_if\<close> asks for. It returns \<open>false\<close> only when there is no free
  entry, and then changes nothing but the ring; otherwise the request data gets the handle, the tag
  and the arguments, the entry is prepared with them and carries the address of the request data.
\<close>

theorem batch_request_prepared:
  assumes "manager_life_state w \<le> LIVING" and "ring_open w" and "requests w r = Some d"
  shows "process_single_generic_request U p r h w =
    (case u_get_sqe U (ring w) of
       (None, r1) \<Rightarrow> Inr (False, w\<lparr>ring := r1\<rparr>)
     | (Some s, r1) \<Rightarrow>
         Inr (True, w\<lparr>requests := (requests w)(r \<mapsto> d\<lparr>handle := h, allocated_dynamic := False,
                req_type := Op_type p, specific_data := p\<rparr>),
              ring := u_set_data U s r (u_prep U s (prep_of p) r1)\<rparr>))"
  by (rule batch_request_prepared_main [OF assms])

theorem batch_request_prepared_witness:
  "map_option req_type (case process_single_generic_request sim_uring (ClosePack \<lparr>close_p_fd = 7\<rparr>) 5
       (Some 9) ((empty_world LIVING idle_ring :: (nat, sim_ring) manager)
         \<lparr>requests := [5 \<mapsto> new_RequestData]\<rparr>) of Inr (b, w) \<Rightarrow> requests w 5) = Some CLOSE"
proof -
  let ?w = "(empty_world LIVING idle_ring :: (nat, sim_ring) manager)
    \<lparr>requests := [5 \<mapsto> new_RequestData]\<rparr>"
  have 1: "manager_life_state ?w \<le> LIVING" "ring_open ?w" "requests ?w 5 = Some new_RequestData"
    by (simp_all add: empty_world_def)
  show ?thesis
    unfolding batch_request_prepared [OF 1]
    by (simp add: empty_world_def idle_ring_def sim_get_sqe_def)
qed

text \<open>
  C14. Once the manager is dying no request is accepted. A request that nobody awaits returns
  \<open>UNKNOWN_ERROR\<close>, a member of a batch is skipped, and both leave the state as it is; but the twelve
  awaited operations return the default-constructed awaitable, whose constructor calls a member
  function of a null \<open>EventManager\<close>.
\<close>

theorem restricted_usage:
  assumes "LIVING < manager_life_state w"
  shows "na_request U p w = Inr (UNKNOWN_ERROR, w) \<and>
    process_single_generic_request U p r h w = Inr (False, w) \<and>
    ev_request U home p w = Inl NullDereference"
  using assms
  by (simp add: na_request_eq request_na_def get_sqe_and_req_data_def get_uring_sqe_def
      should_restrict_usage_def process_single_run ev_request_eq restricted_awaitable_def
      IOAwaitable_construct_def runs)

theorem restricted_usage_witness:
  "ev_read sim_uring 0 3 64 16 (empty_world DYING idle_ring :: (nat, sim_ring) manager) =
     Inl NullDereference \<and>
   ev_request sim_uring 0 (ReadPack \<lparr>read_p_fd = 3, read_p_buffer = 64, read_p_length = 16\<rparr>)
     (empty_world DYING idle_ring :: (nat, sim_ring) manager) = Inl NullDereference"
proof -
  have "LIVING < manager_life_state (empty_world DYING idle_ring :: (nat, sim_ring) manager)"
    by (simp add: empty_world_def LivingState_order)
  from restricted_usage [OF this] show ?thesis by (metis ev_request.simps(1)
      ReadParameterPack.select_convs)
qed

end
