(* ===== verification/Em_Handler.thy ===== *)
theory Em_Handler
  imports Em_Requests
begin

text \<open>
  What the event loop does with a completion (\<open>EventManager::event_handler\<close> of \<open>core.cpp\<close>) and how a
  coroutine is put under its management (\<open>register_coro\<close>).

  \<open>handler_response\<close> is the switch of the handler: the response each arm builds from \<open>res\<close> and the
  member of the union that it reads. \<open>completion_response\<close> states in one line per operation what the
  response should be, and the two agree on every request whose tag and union agree.
\<close>

subsection \<open>The response to a completion\<close>

definition error_num_of :: "cint \<Rightarrow> cint" where
  "error_num_of res = (if res <s 0 then - res else 0)"

text \<open>
  A byte count of the kernel that is not negative, as a \<open>size_t\<close>; a value-initialised pack has 0. The
  value is \<open>None\<close> when the arm reads a member of the union that is not active.
\<close>

fun handler_response ::
    "RequestType \<Rightarrow> cint \<Rightarrow> (uptr \<Rightarrow> uptr) \<Rightarrow> OperationParameterPackVariant \<Rightarrow> RespData option" where
  "handler_response READ res iov sd = map_option (\<lambda>read_data.
     let data = (if 0 \<le>s res
                 then \<lparr>error_num = 0, req_fd = 0, bytes_read = scast res,
                       buff = read_p_buffer read_data\<rparr>
                 else \<lparr>error_num = 0, req_fd = 0, bytes_read = 0, buff = 0\<rparr>)
     in ReadResp (data\<lparr>error_num := error_num_of res, req_fd := read_p_fd read_data\<rparr>)) (get_read sd)"
| "handler_response WRITE res iov sd = map_option (\<lambda>write_data.
     let data = (if 0 \<le>s res
                 then \<lparr>error_num = 0, req_fd = 0, bytes_wrote = scast res\<rparr>
                 else \<lparr>error_num = 0, req_fd = 0, bytes_wrote = 0\<rparr>)
     in WriteResp (data\<lparr>error_num := error_num_of res, req_fd := write_p_fd write_data\<rparr>))
       (get_write sd)"
| "handler_response CLOSE res iov sd = map_option (\<lambda>close_data.
     CloseResp \<lparr>error_num = error_num_of res, req_fd = close_p_fd close_data\<rparr>) (get_close sd)"
| "handler_response SHUTDOWN res iov sd = map_option (\<lambda>shutdown_data.
     ShutdownResp \<lparr>error_num = error_num_of res, req_fd = shutdown_p_fd shutdown_data\<rparr>)
       (get_shutdown sd)"
| "handler_response READV res iov sd = map_option (\<lambda>readv_data.
     let data = (if 0 \<le>s res
                 then let buffer = (if readv_p_iovs readv_data \<noteq> 0 \<and> 0 < readv_p_num readv_data
                                    then iov (readv_p_iovs readv_data) else 0)
                      in \<lparr>error_num = 0, req_fd = 0, readv_bytes_read = scast res,
                          readv_buff = buffer\<rparr>
                 else \<lparr>error_num = 0, req_fd = 0, readv_bytes_read = 0, readv_buff = 0\<rparr>)
     in ReadvResp (data\<lparr>error_num := error_num_of res, req_fd := readv_p_fd readv_data\<rparr>))
       (get_readv sd)"
| "handler_response WRITEV res iov sd = map_option (\<lambda>writev_data.
     let data = (if 0 \<le>s res
                 then \<lparr>error_num = 0, req_fd = 0, writev_bytes_wrote = scast res\<rparr>
                 else \<lparr>error_num = 0, req_fd = 0, writev_bytes_wrote = 0\<rparr>)
     in WritevResp (data\<lparr>error_num := error_num_of res, req_fd := writev_p_fd writev_data\<rparr>))
       (get_writev sd)"
| "handler_response ACCEPT res iov sd = map_option (\<lambda>accept_data.
     let data = (if 0 \<le>s res
                 then \<lparr>error_num = 0, req_fd = 0, accept_fd = res\<rparr>
                 else \<lparr>error_num = 0, req_fd = 0, accept_fd = 0\<rparr>)
     in AcceptResp (data\<lparr>error_num := error_num_of res, req_fd := accept_p_sockfd accept_data\<rparr>))
       (get_accept sd)"
| "handler_response CONNECT res iov sd = map_option (\<lambda>connect_data.
     ConnectResp \<lparr>error_num = error_num_of res, req_fd = connect_p_sockfd connect_data\<rparr>)
       (get_connect sd)"
| "handler_response OPENAT res iov sd =
     Some (OpenatResp \<lparr>error_num = error_num_of res, req_fd = res\<rparr>)"
| "handler_response STATX res iov sd = map_option (\<lambda>statx_data.
     StatxResp \<lparr>error_num = error_num_of res, req_fd = -1,
       statx_pathname = statx_p_pathname statx_data\<rparr>) (get_statx sd)"
| "handler_response UNLINKAT res iov sd = map_option (\<lambda>unlinkat_data.
     UnlinkatResp \<lparr>error_num = error_num_of res, req_fd = -1,
       unlinkat_pathname = unlinkat_p_pathname unlinkat_data\<rparr>) (get_unlinkat sd)"
| "handler_response RENAMEAT res iov sd = map_option (\<lambda>renameat_data.
     RenameatResp \<lparr>error_num = error_num_of res, req_fd = -1,
       renameat_oldpathname = renameat_p_oldpathname renameat_data,
       renameat_newpathname = renameat_p_newpathname renameat_data\<rparr>) (get_renameat sd)"

text \<open>
  The handler. The resumed coroutine runs inside it, and what follows (\<open>after_resumption\<close>) reads the
  request and the promise again, in the state that coroutine left.
\<close>

definition after_resumption :: "addr \<Rightarrow> addr \<Rightarrow> ('b, 'r, unit) em_op" where
  "after_resumption r h =
     bindM (request_at r) (\<lambda>d.
     thenM (bindM (if handle d = None then returnM True else promise_is_done h)
              (\<lambda>finished. whenM finished (modifyM (\<lambda>w. w\<lparr>managed_coroutines_store :=
                 ItemStore_erase (unat (coro_idx d)) (managed_coroutines_store w)\<rparr>))))
     (bindM (request_at r) (\<lambda>d. whenM (allocated_dynamic d) (delete_request r))))"

definition event_handler ::
    "(addr \<Rightarrow> ('b, 'r, unit) em_op) \<Rightarrow> cint \<Rightarrow> addr option \<Rightarrow> ('b, 'r, unit) em_op" where
  "event_handler rs res req_data =
     (case req_data of
        None \<Rightarrow> returnM ()
      | Some r \<Rightarrow>
          bindM (request_at r) (\<lambda>d. case handle d of
            None \<Rightarrow> modifyM (\<lambda>w. w\<lparr>ready_requests_store := ready_requests_store w @ [(res, r)]\<rparr>)
          | Some h \<Rightarrow>
              bindM (getM iov_base_of) (\<lambda>iov.
              bindM (derefM InactiveUnionMember
                       (handler_response (req_type d) res iov (specific_data d))) (\<lambda>data.
              thenM (publish_to_promise data h) (thenM (rs h) (after_resumption r h))))))"

subsection \<open>Registering a coroutine\<close>

text \<open>
  \<open>register_coro(EvTask&&)\<close>: \<open>t\<close> is the object the caller moves in. \<open>destroy\<close> is the destruction of a
  suspended frame, which the move assignment of an \<open>EvTask\<close> into a reused slot may call, before it
  reads the members of the object it moves from.
\<close>

definition register_coro ::
    "(nat set \<Rightarrow> nat) \<Rightarrow> (nat \<Rightarrow> nat) \<Rightarrow> (addr \<Rightarrow> ('b, 'r, unit) em_op) \<Rightarrow>
     (addr \<Rightarrow> ('b, 'r, unit) em_op) \<Rightarrow> addr \<Rightarrow> ('b, 'r, unit) em_op" where
  "register_coro pick grow destroy rs t =
     thenM (EvTask_start rs t)
     (bindM (task_at t) (\<lambda>coro.
      bindM (getM managed_coroutines_store) (\<lambda>st.
      bindM (ItemStore_insert pick grow EvTask_move_construct (EvTask_move_assign destroy) coro st)
        (\<lambda>(selected_idx, st').
      thenM (bindM (task_at t) (\<lambda>_. put_task t moved_from))
      (thenM (modifyM (\<lambda>w. w\<lparr>managed_coroutines_store := st'\<rparr>))
      (bindM (ItemStore_at st' selected_idx) (\<lambda>x.
       thenM (set_coro_metadata (of_nat selected_idx) x) (returnM ()))))))))"

subsection \<open>The handler answers what was asked\<close>

text \<open>
  The response a request with the parameters \<open>p\<close> is due when its completion says \<open>res\<close>: the byte
  counts and descriptors of a success, the errno of a failure.
\<close>

definition count_of :: "cint \<Rightarrow> csize" where
  "count_of res = (if res <s 0 then 0 else scast res)"

fun completion_response ::
    "cint \<Rightarrow> (uptr \<Rightarrow> uptr) \<Rightarrow> OperationParameterPackVariant \<Rightarrow> RespData" where
  "completion_response res iov (ReadPack p) = ReadResp \<lparr>error_num = error_num_of res,
     req_fd = read_p_fd p, bytes_read = count_of res,
     buff = (if res <s 0 then 0 else read_p_buffer p)\<rparr>"
| "completion_response res iov (WritePack p) = WriteResp \<lparr>error_num = error_num_of res,
     req_fd = write_p_fd p, bytes_wrote = count_of res\<rparr>"
| "completion_response res iov (ClosePack p) = CloseResp \<lparr>error_num = error_num_of res,
     req_fd = close_p_fd p\<rparr>"
| "completion_response res iov (ShutdownPack p) = ShutdownResp \<lparr>error_num = error_num_of res,
     req_fd = shutdown_p_fd p\<rparr>"
| "completion_response res iov (ReadvPack p) = ReadvResp \<lparr>error_num = error_num_of res,
     req_fd = readv_p_fd p, readv_bytes_read = count_of res,
     readv_buff = (if res <s 0 \<or> readv_p_iovs p = 0 \<or> readv_p_num p = 0 then 0
                   else iov (readv_p_iovs p))\<rparr>"
| "completion_response res iov (WritevPack p) = WritevResp \<lparr>error_num = error_num_of res,
     req_fd = writev_p_fd p, writev_bytes_wrote = count_of res\<rparr>"
| "completion_response res iov (AcceptPack p) = AcceptResp \<lparr>error_num = error_num_of res,
     req_fd = accept_p_sockfd p, accept_fd = (if res <s 0 then 0 else res)\<rparr>"
| "completion_response res iov (ConnectPack p) = ConnectResp \<lparr>error_num = error_num_of res,
     req_fd = connect_p_sockfd p\<rparr>"
| "completion_response res iov (OpenatPack p) = OpenatResp \<lparr>error_num = error_num_of res,
     req_fd = res\<rparr>"
| "completion_response res iov (StatxPack p) = StatxResp \<lparr>error_num = error_num_of res,
     req_fd = -1, statx_pathname = statx_p_pathname p\<rparr>"
| "completion_response res iov (UnlinkatPack p) = UnlinkatResp \<lparr>error_num = error_num_of res,
     req_fd = -1, unlinkat_pathname = unlinkat_p_pathname p\<rparr>"
| "completion_response res iov (RenameatPack p) = RenameatResp \<lparr>error_num = error_num_of res,
     req_fd = -1, renameat_oldpathname = renameat_p_oldpathname p,
     renameat_newpathname = renameat_p_newpathname p\<rparr>"

lemma nonneg_signed: "0 \<le>s (res :: cint) \<longleftrightarrow> \<not> res <s 0"
  by (simp add: word_sle_eq word_sless_alt not_less)

lemma completion_response_type [simp]: "RespData_type (completion_response res iov p) = Op_type p"
  by (cases p) simp_all

lemma completion_response_error [simp]:
  "RespData_error_num (completion_response res iov p) = error_num_of res"
  by (cases p) simp_all

lemma handler_response_own: "handler_response (Op_type p) res iov p = Some (completion_response res iov p)"
  by (cases p) (auto simp: Let_def nonneg_signed count_of_def word_gt_0)

lemma well_tagged_response:
  "well_tagged d \<Longrightarrow>
     handler_response (req_type d) res iov (specific_data d) =
       Some (completion_response res iov (specific_data d))"
  by (metis handler_response_own well_tagged_def)

subsection \<open>They keep the invariants\<close>

lemma evolve_store:
  assumes "\<And>st. items (f st) = items st"
  shows "keeps (evolves infl)
    (modifyM (\<lambda>w. w\<lparr>managed_coroutines_store := f (managed_coroutines_store w)\<rparr>))"
  by (auto simp: keeps_def evolves_def heap_sound_def heap_ok_def managed_def assms rest_of_def
      intro: rest_same)

lemma evolve_ready [evolve]:
  "keeps (evolves infl) (modifyM (\<lambda>w. w\<lparr>ready_requests_store := f w\<rparr>))"
  by (auto simp: keeps_def heap_of_def tagged_def intro!: evolve_requests)

context driving
begin

lemma evolve_event_handler: "keeps evo (event_handler rs res req_data)"
proof -
  have erase: "keeps evo (modifyM (\<lambda>w. w\<lparr>managed_coroutines_store :=
      ItemStore_erase i (managed_coroutines_store w)\<rparr>))" for i
    by (rule evolve_store) (simp add: ItemStore_erase_def)
  show ?thesis
    unfolding event_handler_def after_resumption_def
    by (auto intro!: evolving.keeps_rules evolve evolve_publish evolve_promise_is_done rs_evolves erase
        split: option.split)
qed

end

text \<open>An insertion hands the object over from the caller's variable to the store.\<close>

lemma heap_ok_pull: "heap_ok w (xs @ x # ys) = heap_ok w (x # xs @ ys)"
  unfolding heap_ok_def by (rule ownership_set) (auto split: option.split)

lemma heap_ok_give:
  assumes "heap_ok w (xs @ ys)" and "tasks w t = Some x"
  shows "heap_ok (w\<lparr>tasks := (tasks w)(t \<mapsto> moved_from)\<rparr>) (xs @ x # ys)"
  using ownership_move_out [OF assms(1) [unfolded heap_ok_def] assms(2), of "Some moved_from"]
  by (simp add: heap_ok_pull) (simp add: heap_ok_def)

lemma mapM_same:
  assumes "\<And>x y w'. x \<in> set xs \<Longrightarrow> f x w = Inr (y, w') \<Longrightarrow> y = x \<and> w' = w"
    and "mapM f xs w = Inr (ys, w')"
  shows "ys = xs \<and> w' = w"
  using assms
proof (induction xs arbitrary: ys)
  case Nil
  then show ?case by simp
next
  case (Cons x xs)
  from Cons.prems(2) obtain y v zs where y: "f x w = Inr (y, v)" and "mapM f xs v = Inr (zs, w')"
      and "ys = y # zs"
    by (auto simp: bindM_Inr_iff)
  moreover have "y = x \<and> v = w" by (rule Cons.prems(1) [OF _ y]) simp
  ultimately show ?case using Cons.IH [of zs] Cons.prems(1) by auto
qed

lemma insert_sound:
  assumes ok: "heap_ok w (items st)" and t: "tasks w t = Some coro" and "destroys destroy"
    and run: "ItemStore_insert pick grow EvTask_move_construct (EvTask_move_assign destroy) coro st w =
      Inr ((i, st'), w')" and alive: "tasks w' t \<noteq> None"
  shows "heap_ok (w'\<lparr>tasks := (tasks w')(t \<mapsto> moved_from)\<rparr>) (items st')"
proof (cases "freed_idxs st = {}")
  case True
  have same: "y = x \<and> v = w" if "x = coro \<or> x \<in> set (items st)"
      "EvTask_move_construct x w = Inr (y, v)" for x y v
    using move_construct_same [OF _ that(2)] heap_ok_task_inv [OF ok] t that(1) by blast
  from run True obtain x v where x: "EvTask_move_construct coro w = Inr (x, v)"
      and rest: "(if length (items st) < capacity st
        then returnM (length (items st), st\<lparr>items := items st @ [x]\<rparr>)
        else bindM (mapM EvTask_move_construct (items st)) (\<lambda>xs. returnM (length (items st),
          st\<lparr>items := xs @ [x], capacity := grown grow (capacity st)\<rparr>))) v = Inr ((i, st'), w')"
    by (auto simp: ItemStore_insert_def bindM_Inr_iff)
  have xv: "x = coro" "v = w" using same [OF _ x] by simp_all
  have "w' = w \<and> items st' = items st @ [coro]"
  proof (cases "length (items st) < capacity st")
    case True
    with rest xv show ?thesis by auto
  next
    case False
    with rest xv obtain ys where "mapM EvTask_move_construct (items st) w = Inr (ys, w')"
        "items st' = ys @ [coro]"
      by (auto simp: bindM_Inr_iff)
    then show ?thesis using mapM_same [of "items st" EvTask_move_construct w] same by auto
  qed
  then show ?thesis using heap_ok_give [of w "items st" "[]"] ok t by simp
next
  case False
  define j where "j = first_of pick (freed_idxs st)"
  define a where "a = take j (items st)"
  define b where "b = drop (Suc j) (items st)"
  from run False obtain u where j: "j < length (items st)"
      and u: "EvTask_move_assign destroy (items st ! j) coro w = Inr (u, w')"
      and st': "items st' = (items st)[j := u]"
    by (auto simp: ItemStore_insert_def Let_def bindM_Inr_iff j_def split: if_splits)
  from j have split: "items st = a @ items st ! j # b" "(items st)[j := u] = a @ u # b"
    by (simp_all add: a_def b_def id_take_nth_drop [symmetric] upd_conv_take_nth_drop)
  from ok split(1) have "heap_ok w (items st ! j # a @ b)" by (metis heap_ok_pull)
  from move_assign_ok [OF this t assms(3) u alive] show ?thesis
    using heap_ok_give [of w' a b] st' split(2) by simp
qed

text \<open>
  \<open>destroying\<close> adds to the interface the destruction of suspended frames, which registering a coroutine
  may call.
\<close>

locale destroying = driving infl rs for infl and rs :: "addr \<Rightarrow> ('b, 'r, unit) em_op" +
  fixes destroy :: "addr \<Rightarrow> ('b, 'r, unit) em_op"
  assumes destroy_ok: "destroys destroy"
    and destroy_rest: "keeps evo_rest (destroy h)"
    and destroy_store: "keeps (preserves managed_coroutines_store) (destroy h)"
begin

lemma rest_insert:
  "keeps evo_rest (ItemStore_insert pick grow EvTask_move_construct (EvTask_move_assign destroy) x st)"
proof -
  have mc: "keeps evo_rest (EvTask_move_construct t)" for t
    by (rule preserves_rest) (rule rest_frame.preserves_move_construct)
  have "keeps evo_rest (EvTask_move_assign destroy t u)" for t u
    unfolding move_assign_split
    by (auto intro!: rest.keeps_rules rest_simple mc destroy_rest split: option.split)
  with mc show ?thesis
    unfolding ItemStore_insert_def Let_def by (auto intro!: rest.keeps_rules)
qed

lemma rest_register_coro: "keeps evo_rest (register_coro pick grow destroy rs t)"
proof -
  have "keeps evo_rest (EvTask_start rs t)" by (rule rest_start)
  moreover have "keeps evo_rest (modifyM (\<lambda>w. w\<lparr>managed_coroutines_store := st\<rparr>))" for st
    by (auto simp: keeps_def rest_of_def intro: rest_same)
  moreover have "keeps evo_rest (set_coro_metadata m x)" for m x
    using evolve_set_metadata by (simp add: evolves_split)
  moreover have "keeps evo_rest (ItemStore_at st i)" for st :: "'z ItemStore" and i
    by (simp add: ItemStore_at_def rest.keeps_rules)
  ultimately show ?thesis
    unfolding register_coro_def
    by (auto intro!: rest.keeps_rules rest_simple rest_insert split: prod.split)
qed

lemma heap_register_coro: "keeps (invariance heap_sound) (register_coro pick grow destroy rs t)"
proof (rule keepsI)
  fix w x w' assume run: "register_coro pick grow destroy rs t w = Inr (x, w')"
  then obtain y w1 coro i st' w2 where start: "EvTask_start rs t w = Inr (y, w1)"
      and coro: "tasks w1 t = Some coro"
      and ins: "ItemStore_insert pick grow EvTask_move_construct (EvTask_move_assign destroy) coro
        (managed_coroutines_store w1) w1 = Inr ((i, st'), w2)" and alive: "tasks w2 t \<noteq> None"
      and rest: "bindM (ItemStore_at st' i) (\<lambda>x. thenM (set_coro_metadata (of_nat i) x) (returnM ()))
        (w2\<lparr>tasks := (tasks w2)(t \<mapsto> moved_from), managed_coroutines_store := st'\<rparr>) = Inr (x, w')"
    by (auto simp: register_coro_def heap_iffs)
  let ?w3 = "w2\<lparr>tasks := (tasks w2)(t \<mapsto> moved_from), managed_coroutines_store := st'\<rparr>"
  show "invariance heap_sound w w'"
    unfolding invariance_def
  proof
    assume "heap_sound w"
    with start evolve_start have "heap_ok w1 (items (managed_coroutines_store w1))"
      by (force simp: keeps_def evolves_def heap_sound_def managed_def)
    then have "heap_ok (w2\<lparr>tasks := (tasks w2)(t \<mapsto> moved_from)\<rparr>) (items st')"
      using insert_sound [OF _ coro destroy_ok ins alive] by blast
    then have "heap_sound ?w3"
      by (simp add: heap_sound_def heap_ok_def managed_def ptrs_def dones_def)
    moreover have "keeps evo (bindM (ItemStore_at st' i)
        (\<lambda>x. thenM (set_coro_metadata (of_nat i) x) (returnM ())))"
      by (auto intro!: evolving.keeps_rules evolve_set_metadata simp: ItemStore_at_def)
    ultimately show "heap_sound w'"
      using rest by (auto simp: keeps_def evolves_def)
  qed
qed

lemma evolve_register_coro: "keeps evo (register_coro pick grow destroy rs t)"
  using rest_register_coro heap_register_coro by (simp add: evolves_split)

end

end
