(* ===== verification/Em_Coroutines.thy ===== *)
theory Em_Coroutines
  imports Em_Handler
begin

text \<open>
  The coroutines of the program: the four of the library (\<open>kill_internal\<close>, \<open>kill\<close>, \<open>submit_and_wait\<close>,
  \<open>poll\<close>) and those of the user, as the points at which their frames can be suspended, with the
  variables that are live there. What each does from one point to the next is defined in the theory
  of its component; a run from a resumption to the next suspension is a \<^emph>\<open>segment\<close>.

  Code of the user is a parameter. \<open>'u\<close> is a point of the user's own coroutines, \<open>'h\<close> the state of
  a handler passed to \<open>submit_and_wait\<close> or \<open>poll\<close>.
\<close>

datatype PollingState = CONTINUE_POLLING | STOP_POLLING

text \<open>What a suspended coroutine of the user waits for, and the point and variables it goes on with.\<close>

datatype awaiting = AwaitStart | AwaitIO addr | AwaitTask addr

datatype ('u, 'h) coro =
    KillInternalBegin
  | KillInternalWait
  | KillBegin
  | KillWait
  | SubmitBegin RequestQueue 'h
  | SubmitRetrieve RequestQueue 'h cint "addr list"
  | SubmitGeneric 'h "addr list" csize csize u32
  | PollBegin 'h
  | PollRetrieve 'h
  | PollGeneric 'h
  | User 'u awaiting "addr list"

type_synonym ('u, 'h, 'r) em_world = "(('u, 'h) coro, 'r) manager"
type_synonym ('u, 'h, 'r, 'a) world_op = "(('u, 'h, 'r) em_world, 'a) op"

text \<open>
  \<open>co_return\<close>: the return value goes to the status, the locals are destroyed (\<open>cleanup\<close>), the end of
  the coroutine runs, and the memory of the frame is gone with everything that lives in it.
\<close>

definition co_return_with ::
    "(addr \<Rightarrow> ('b, 'r, unit) em_op) \<Rightarrow> ('b, 'r, unit) em_op \<Rightarrow> csize \<Rightarrow> addr \<Rightarrow> ('b, 'r, unit) em_op" where
  "co_return_with rs cleanup code h =
     thenM (return_value code h) (thenM cleanup (thenM (final_suspend rs h) (free_homed h)))"

definition co_return :: "(addr \<Rightarrow> ('b, 'r, unit) em_op) \<Rightarrow> csize \<Rightarrow> addr \<Rightarrow> ('b, 'r, unit) em_op" where
  "co_return rs code h = co_return_with rs (returnM ()) code h"

text \<open>
  An exception that leaves the body: the locals are destroyed, the promise stores it, and the
  coroutine ends.
\<close>

definition co_throw ::
    "(addr \<Rightarrow> ('b, 'r, unit) em_op) \<Rightarrow> ('b, 'r, unit) em_op \<Rightarrow> nat \<Rightarrow> addr \<Rightarrow> ('b, 'r, unit) em_op" where
  "co_throw rs cleanup e h =
     thenM cleanup (thenM (unhandled_exception e h) (thenM (final_suspend rs h) (free_homed h)))"

text \<open>
  The two awaitables without a request. \<open>RetrieveCurrentHandle\<close> resumes the coroutine from inside its
  own suspension; \<open>GenericResponse\<close> only suspends, and hands out the channel of the coroutine.
\<close>

definition RetrieveCurrentHandle_await ::
    "(addr \<Rightarrow> ('b, 'r, unit) em_op) \<Rightarrow> addr \<Rightarrow> 'b \<Rightarrow> ('b, 'r, unit) em_op" where
  "RetrieveCurrentHandle_await rs h next_point = thenM (suspend_at h next_point) (rs h)"

definition GenericResponse_await :: "addr \<Rightarrow> 'b \<Rightarrow> ('b, 'r, unit) em_op" where
  "GenericResponse_await h next_point = suspend_at h next_point"

context driving
begin

lemma evolve_co_return_with:
  "keeps evo cleanup \<Longrightarrow> keeps evo (co_return_with rs cleanup c h)"
  unfolding co_return_with_def
  by (intro evolving.keeps_then evolve_return_value evolve_final_suspend evolve)

lemma evolve_co_return: "keeps evo (co_return rs c h)"
  unfolding co_return_def by (rule evolve_co_return_with) (rule evolving.keeps_return)

lemma evolve_co_throw: "keeps evo cleanup \<Longrightarrow> keeps evo (co_throw rs cleanup e h)"
  unfolding co_throw_def
  by (intro evolving.keeps_then evolve_unhandled_exception evolve_final_suspend evolve)

lemma evolve_retrieve: "keeps evo (RetrieveCurrentHandle_await rs h b)"
  unfolding RetrieveCurrentHandle_await_def by (intro evolving.keeps_then evolve rs_evolves)

lemma evolve_generic: "keeps evo (GenericResponse_await h b)"
  unfolding GenericResponse_await_def by (rule evolve)

lemmas evolve_coro = evolve_co_return evolve_co_return_with evolve_co_throw evolve_retrieve evolve_generic

end

text \<open>The interface at the type of the program's own coroutines, for the segments they are made of.\<close>

locale running = destroying infl rs destroy
  for infl :: "'r \<Rightarrow> nat" and rs :: "addr \<Rightarrow> ('u, 'h, 'r, unit) world_op"
    and destroy :: "addr \<Rightarrow> ('u, 'h, 'r, unit) world_op"

end
