(* ===== verification/Em_Lifecycle.thy ===== *)
theory Em_Lifecycle
  imports Em_Coroutines
begin

text \<open>
  The life of a manager (\<open>core.cpp\<close>): its constructor, the event loop (\<open>start\<close>, \<open>await_message\<close>) and
  the way it ends (\<open>kill\<close>, \<open>kill_internal\<close>). The two coroutines are given by their segments; \<open>rs\<close>
  is what a \<open>handle.resume()\<close> runs.

  The loops that are bounded in the code (\<open>MAX_ITER\<close>) recurse on their counter. The event loop is
  not bounded: \<open>start_loop\<close> takes fuel, and running out of it is the fault \<open>OutOfFuel\<close>.
\<close>

subsection \<open>Construction\<close>

text \<open>
  The initialiser of \<open>_kill_coro_task\<close> calls the coroutine \<open>kill_internal\<close>, which suspends before its
  first statement. \<open>queue_depth\<close> becomes an \<open>unsigned\<close>. A ring that cannot be set up leaves the
  manager dead. The static members are part of the state, and their lock is not modelled.
\<close>

definition ring_setup :: "'r uring \<Rightarrow> csize \<Rightarrow> ('b, 'r, unit) em_op" where
  "ring_setup U queue_depth =
     bindM (getM (\<lambda>w. (shared_ring_fd w, ring_instances w))) (\<lambda>(fd, instances).
     let fresh = (fd = -1 \<or> instances = 0) in
     case u_queue_init U (ucast queue_depth) (if fresh then None else Some fd) of (ret, r, ring_fd) \<Rightarrow>
       if ret <s 0
       then modifyM (\<lambda>w. w\<lparr>manager_life_state := DEAD\<rparr>)
       else modifyM (\<lambda>w. w\<lparr>ring := r, ring_open := True,
              shared_ring_fd := (if fresh then ring_fd else fd),
              ring_instances := ring_instances w + 1\<rparr>))"

definition EventManager_construct :: "'r uring \<Rightarrow> csize \<Rightarrow> ('u, 'h, 'r, unit) world_op" where
  "EventManager_construct U queue_depth =
     bindM (spawn KillInternalBegin) (\<lambda>t.
     thenM (modifyM (\<lambda>w. w\<lparr>kill_coro_task := t\<rparr>)) (ring_setup U queue_depth))"

text \<open>The memory of a manager before its constructor: every member has its initialiser's value.\<close>

definition raw_manager :: "cint \<Rightarrow> csize \<Rightarrow> (uptr \<Rightarrow> uptr) \<Rightarrow> 'r \<Rightarrow> ('b, 'r) manager" where
  "raw_manager fd instances iov r = \<lparr>frames = Map.empty, statuses = Map.empty, tasks = Map.empty,
     next_addr = 0, requests = Map.empty, request_home = Map.empty, awaitables = Map.empty, ring = r,
     ring_open = False, manager_life_state = NOT_STARTED, managed_coroutines_store = new_ItemStore,
     polling_requests = False, polling_handle = None, ready_requests_store = [],
     in_flight_requests = 0, kill_coro_task = 0, shared_ring_fd = fd, ring_instances = instances,
     iov_base_of = iov, user_variable = 0\<rparr>"

subsection \<open>Killing\<close>

definition MAX_ITER :: nat where
  "MAX_ITER = 1000"

text \<open>\<open>while (sqe_tail - sqe_head != 0 && iter++ < MAX_ITER) submit_queued_entries();\<close>\<close>

fun flush_queue :: "'r uring \<Rightarrow> nat \<Rightarrow> ('b, 'r, unit) em_op" where
  "flush_queue U n =
     bindM (sq_pending U) (\<lambda>pending.
     if pending = 0 then returnM ()
     else case n of
       0 \<Rightarrow> returnM ()
     | Suc m \<Rightarrow> thenM (submit_queued_entries U) (flush_queue U m))"

declare flush_queue.simps [simp del]

text \<open>\<open>while (sqe == nullptr && iter++ < MAX_ITER) sqe = io_uring_get_sqe(&_ring);\<close>\<close>

fun retry_get_sqe :: "'r uring \<Rightarrow> nat \<Rightarrow> ('b, 'r, nat option) em_op" where
  "retry_get_sqe U 0 = returnM None"
| "retry_get_sqe U (Suc m) =
     bindM (io_uring_get_sqe U) (\<lambda>sqe. case sqe of
       None \<Rightarrow> retry_get_sqe U m
     | Some s \<Rightarrow> returnM (Some s))"

text \<open>
  The part of \<open>kill_internal\<close> from the wait for the requests in flight to its end, which is also what
  runs when it is resumed from there.
\<close>

definition teardown_ring :: "'r uring \<Rightarrow> ('b, 'r, unit) em_op" where
  "teardown_ring U =
     thenM (modifyM (\<lambda>w. w\<lparr>manager_life_state := DEAD\<rparr>))
     (thenM (on_ring (\<lambda>r. ((), u_queue_exit U r)))
     (thenM (modifyM (\<lambda>w. w\<lparr>ring_open := False, ring_instances := ring_instances w - 1\<rparr>))
     (modifyM (\<lambda>w. if ring_instances w = 0 then w\<lparr>shared_ring_fd := -1\<rparr> else w))))"

definition kill_internal_wait ::
    "'r uring \<Rightarrow> (addr \<Rightarrow> ('u, 'h, 'r, unit) world_op) \<Rightarrow> addr \<Rightarrow> ('u, 'h, 'r, unit) world_op" where
  "kill_internal_wait U rs h =
     bindM (getM in_flight_requests) (\<lambda>n.
     if n \<noteq> 0 then suspend_at h KillInternalWait
     else thenM (teardown_ring U) (co_return rs 0 h))"

text \<open>From the first flush on: cancel everything, and wait.\<close>

definition kill_internal_cancel ::
    "'r uring \<Rightarrow> (addr \<Rightarrow> ('u, 'h, 'r, unit) world_op) \<Rightarrow> addr \<Rightarrow> ('u, 'h, 'r, unit) world_op" where
  "kill_internal_cancel U rs h =
     thenM (flush_queue U MAX_ITER)
     (bindM (sq_pending U) (\<lambda>pending.
      if pending \<noteq> 0 then co_return rs (-1) h
      else
        bindM (retry_get_sqe U MAX_ITER) (\<lambda>sqe. case sqe of
          None \<Rightarrow> co_return rs (-1) h
        | Some s \<Rightarrow>
            thenM (io_uring_prep U s PrepCancelAny)
            (thenM (flush_queue U MAX_ITER)
            (bindM (sq_pending U) (\<lambda>pending.
             if pending \<noteq> 0 then co_return rs (-1) h
             else kill_internal_wait U rs h))))))"

definition kill_internal_begin ::
    "'r uring \<Rightarrow> (addr \<Rightarrow> ('u, 'h, 'r, unit) world_op) \<Rightarrow> addr \<Rightarrow> ('u, 'h, 'r, unit) world_op" where
  "kill_internal_begin U rs h =
     bindM (getM manager_life_state) (\<lambda>life.
     if DYING \<le> life then co_return rs (-1) h
     else thenM (modifyM (\<lambda>w. w\<lparr>manager_life_state := DYING\<rparr>)) (kill_internal_cancel U rs h))"

text \<open>\<open>co_return co_await _kill_coro_task;\<close>\<close>

definition kill_begin ::
    "(addr \<Rightarrow> ('u, 'h, 'r, unit) world_op) \<Rightarrow> addr \<Rightarrow> ('u, 'h, 'r, unit) world_op" where
  "kill_begin rs h =
     bindM (getM kill_coro_task) (\<lambda>t.
     thenM (suspend_at h KillWait) (EvTask_await_suspend rs t h))"

definition kill_end ::
    "(addr \<Rightarrow> ('u, 'h, 'r, unit) world_op) \<Rightarrow> addr \<Rightarrow> ('u, 'h, 'r, unit) world_op" where
  "kill_end rs h =
     bindM (getM kill_coro_task) (\<lambda>t.
     bindM (EvTask_await_resume t) (\<lambda>code. co_return rs code h))"

subsection \<open>The event loop\<close>

text \<open>
  \<open>await_message\<close>: at most one of the responses kept for \<open>poll\<close> (the latest), then one completion,
  for which it may wait for ever. After a failed wait the code reads the completion all the same.
\<close>

definition deliver_ready :: "(addr \<Rightarrow> ('b, 'r, unit) em_op) \<Rightarrow> ('b, 'r, unit) em_op" where
  "deliver_ready rs =
     bindM (getM (\<lambda>w. (ready_requests_store w, polling_handle w))) (\<lambda>(ready, poller).
     if ready \<noteq> [] \<and> poller \<noteq> None
     then case last ready of (res, r) \<Rightarrow>
       thenM (modifyM (\<lambda>w. w\<lparr>ready_requests_store := butlast (ready_requests_store w)\<rparr>))
       (thenM (update_request (\<lambda>d. d\<lparr>handle := poller\<rparr>) r)
        (event_handler rs res (Some r)))
     else returnM ())"

definition await_message ::
    "'r uring \<Rightarrow> (addr \<Rightarrow> ('b, 'r, unit) em_op) \<Rightarrow> ('b, 'r, unit) em_op" where
  "await_message U rs =
     thenM (deliver_ready rs)
     (bindM (on_ring (u_wait_cqe U)) (\<lambda>x. case x of
        Blocks \<Rightarrow> faultM WaitsForever
      | WaitError ret \<Rightarrow> faultM UninitialisedCqe
      | Ready cqe res req_data \<Rightarrow>
          thenM (event_handler rs res req_data)
          (thenM (on_ring (\<lambda>r. ((), u_cqe_seen U cqe r)))
          (thenM (modifyM (\<lambda>w. w\<lparr>in_flight_requests := in_flight_requests w - 1\<rparr>))
          (bindM (getM (\<lambda>w. (manager_life_state w, kill_coro_task w))) (\<lambda>(life, t).
           whenM (life = DYING) (EvTask_resume rs t)))))))"

fun start_loop ::
    "'r uring \<Rightarrow> (addr \<Rightarrow> ('b, 'r, unit) em_op) \<Rightarrow> nat \<Rightarrow> ('b, 'r, unit) em_op" where
  "start_loop U rs 0 = faultM OutOfFuel"
| "start_loop U rs (Suc n) =
     bindM (getM manager_life_state) (\<lambda>life.
     if life < DEAD then thenM (await_message U rs) (start_loop U rs n) else returnM ())"

definition start ::
    "'r uring \<Rightarrow> (addr \<Rightarrow> ('b, 'r, unit) em_op) \<Rightarrow> nat \<Rightarrow> ('b, 'r, unit) em_op" where
  "start U rs n =
     bindM (getM manager_life_state) (\<lambda>life.
     if LIVING \<le> life then returnM ()
     else thenM (modifyM (\<lambda>w. w\<lparr>manager_life_state := LIVING\<rparr>)) (start_loop U rs n))"

subsection \<open>They keep the invariants\<close>

lemma evolve_flush_queue [evolve]:
  assumes "tallies U infl"
  shows "keeps (evolves infl) (flush_queue U n)"
proof (induction n)
  case 0
  then show ?case
    unfolding flush_queue.simps [of U 0] by (auto intro!: evolving.keeps_rules evolve)
next
  case (Suc n)
  then show ?case
    unfolding flush_queue.simps [of U "Suc n"] using assms
    by (auto intro!: evolving.keeps_rules evolve)
qed

lemma evolve_retry_get_sqe [evolve]:
  assumes "tallies U infl"
  shows "keeps (evolves infl) (retry_get_sqe U n)"
  using assms
  by (induction n) (auto intro!: evolving.keeps_rules evolve split: option.split)

lemma manager_views [simp]:
  "ptrs (w\<lparr>manager_life_state := l\<rparr>) = ptrs w" "dones (w\<lparr>manager_life_state := l\<rparr>) = dones w"
  "managed (w\<lparr>manager_life_state := l\<rparr>) = managed w"
  by (simp_all add: ptrs_def dones_def managed_def fun_eq_iff)

text \<open>The life state is moved on while the ring stays as it is, or dies with the ring.\<close>

lemma evolve_life:
  assumes "manager_life_state w \<le> l" and "l \<noteq> DEAD" and "manager_life_state w \<noteq> DEAD"
  shows "evolves infl w (w\<lparr>manager_life_state := l\<rparr>)"
  using assms by (simp add: evolves_def evolves_rest_def heap_sound_def heap_ok_def accounted_def
      tagged_def ring_lives_def no_loss_def no_reuse_def)

lemma teardown_Inr:
  "teardown_ring U w = Inr (x, w') \<longleftrightarrow> ring_open w \<and>
     w' = w\<lparr>ring := u_queue_exit U (ring w), ring_open := False, manager_life_state := DEAD,
       ring_instances := ring_instances w - 1,
       shared_ring_fd := (if ring_instances w = 1 then -1 else shared_ring_fd w)\<rparr>"
  by (auto simp: teardown_ring_def run_iffs on_ring_Inr)

lemma teardown_evolves:
  assumes "teardown_ring U w = Inr (x, w')" and "in_flight_requests w = 0"
  shows "evolves infl w w'"
proof -
  have "heap_of w' = heap_of w" "next_addr w' = next_addr w" "requests w' = requests w"
      "\<not> ring_open w'" "manager_life_state w' = DEAD" "ring_open w"
      "in_flight_requests w' = in_flight_requests w"
    using assms(1) by (auto simp: teardown_Inr heap_of_def)
  then show ?thesis
    using heap_sound_cong [of w' w] assms(2)
    by (auto simp: evolves_def evolves_rest_def accounted_def tagged_def ring_lives_def no_loss_def
        no_reuse_def LivingState_order split: if_splits) (cases "manager_life_state w"; simp)
qed

context running
begin

lemma evolve_kill_internal_wait: "keeps evo (kill_internal_wait U rs h)"
proof (rule keepsI)
  fix w x w' assume run: "kill_internal_wait U rs h w = Inr (x, w')"
  show "evo w w'"
  proof (cases "in_flight_requests w = 0")
    case True
    with run obtain v where "teardown_ring U w = Inr ((), v)" "co_return rs 0 h v = Inr (x, w')"
      by (auto simp: kill_internal_wait_def run_iffs)
    then show ?thesis
      using teardown_evolves [OF _ True] keepsD [OF evolve_co_return] evolving.trans by metis
  next
    case False
    with run have "suspend_at h KillInternalWait w = Inr (x, w')"
      by (simp add: kill_internal_wait_def run_iffs)
    then show ?thesis by (rule keepsD [OF evolve_suspend(1)])
  qed
qed

lemma evolve_kill_internal_cancel: "tallies U infl \<Longrightarrow> keeps evo (kill_internal_cancel U rs h)"
  unfolding kill_internal_cancel_def
  by (auto intro!: evolving.keeps_rules evolve evolve_coro evolve_kill_internal_wait
      split: option.split)

lemma kill_internal_begin_dies:
  assumes "tallies U infl" and run: "kill_internal_begin U rs h w = Inr (x, w')"
  shows "evo w w' \<and> DYING \<le> manager_life_state w'"
proof (cases "DYING \<le> manager_life_state w")
  case True
  with run have "co_return rs (-1) h w = Inr (x, w')"
    by (simp add: kill_internal_begin_def run_iffs)
  then have "evo w w'" by (rule keepsD [OF evolve_co_return])
  with True show ?thesis by (auto simp: evolves_def evolves_rest_def)
next
  case False
  let ?v = "w\<lparr>manager_life_state := DYING\<rparr>"
  from False run have "kill_internal_cancel U rs h ?v = Inr (x, w')"
    by (simp add: kill_internal_begin_def thenM_run bindM_run)
  then have v: "evo ?v w'" by (rule keepsD [OF evolve_kill_internal_cancel [OF assms(1)]])
  have "evo w ?v" using False by (intro evolve_life) (auto simp: LivingState_order)
  then have "evo w w'" using v by (rule evolving.trans)
  moreover have "DYING \<le> manager_life_state w'"
    using v by (simp add: evolves_def evolves_rest_def)
  ultimately show ?thesis by blast
qed

lemma evolve_kill_internal_begin: "tallies U infl \<Longrightarrow> keeps evo (kill_internal_begin U rs h)"
  using kill_internal_begin_dies by (blast intro: keepsI)

lemma evolve_kill_begin: "keeps evo (kill_begin rs h)"
  unfolding kill_begin_def by (intro evolving.keeps_rules evolve evolve_task_await_suspend)

lemma evolve_kill_end: "keeps evo (kill_end rs h)"
  unfolding kill_end_def by (intro evolving.keeps_rules evolve_task_await_resume evolve_co_return)

lemmas evolve_kill = evolve_kill_internal_wait evolve_kill_internal_begin evolve_kill_begin
  evolve_kill_end

end

context driving
begin

lemma evolve_deliver_ready: "keeps evo (deliver_ready rs)"
  unfolding deliver_ready_def
  by (auto intro!: evolving.keeps_rules evolve evolve_event_handler simp: well_tagged_def
      split: prod.split)

end

text \<open>
  One turn of the event loop takes a request out of flight, so it keeps less than \<open>evolves\<close>: the
  invariants and the order of the life states.
\<close>

definition closed_idle :: "('b, 'r) manager \<Rightarrow> bool" where
  "closed_idle w \<longleftrightarrow> (\<not> ring_open w \<longrightarrow> in_flight_requests w = 0)"

definition progresses :: "('r \<Rightarrow> nat) \<Rightarrow> ('b, 'r) manager \<Rightarrow> ('b, 'r) manager \<Rightarrow> bool" where
  "progresses infl w w' \<longleftrightarrow>
     (heap_sound w \<longrightarrow> heap_sound w') \<and> (accounted infl w \<longrightarrow> accounted infl w') \<and>
     (tagged w \<longrightarrow> tagged w') \<and> (ring_lives w \<longrightarrow> ring_lives w') \<and>
     (closed_idle w \<longrightarrow> closed_idle w') \<and> manager_life_state w \<le> manager_life_state w'"

interpretation progress: keeping "progresses infl" for infl :: "'r \<Rightarrow> nat"
  by unfold_locales (auto simp: progresses_def)

lemma evolves_progresses: "evolves infl w w' \<Longrightarrow> progresses infl w w'"
  by (auto simp: evolves_def evolves_rest_def progresses_def closed_idle_def no_loss_def)

lemma keeps_progresses: "keeps (evolves infl) m \<Longrightarrow> keeps (progresses infl) m"
  by (auto simp: keeps_def evolves_progresses)

definition seen :: "'r uring \<Rightarrow> nat \<Rightarrow> ('b, 'r, unit) em_op" where
  "seen U cqe = thenM (on_ring (\<lambda>r. ((), u_cqe_seen U cqe r)))
     (modifyM (\<lambda>w. w\<lparr>in_flight_requests := in_flight_requests w - 1\<rparr>))"

lemma seen_progresses:
  assumes "tallies U infl" and "seen U cqe w = Inr (x, w')"
    and some: "accounted infl w \<Longrightarrow> 0 < infl (ring w)"
  shows "progresses infl w w'"
proof -
  have w': "w' = w\<lparr>ring := u_cqe_seen U cqe (ring w), in_flight_requests := in_flight_requests w - 1\<rparr>"
      and o: "ring_open w"
    using assms(2) by (auto simp: seen_def run_iffs on_ring_Inr)
  have "accounted infl w'" if "accounted infl w"
  proof -
    have "in_flight_requests w \<noteq> 0" using that some [OF that] o by (auto simp: accounted_def)
    then show ?thesis
      using that o countsD(7) [OF tallies_counts [OF assms(1) that o]]
      by (simp add: w' accounted_def unat_minus_one)
  qed
  moreover have "heap_sound w \<Longrightarrow> heap_sound w'"
    by (rule heap_sound_cong [of w' w]) (simp_all add: w' heap_of_def)
  ultimately show ?thesis using o by (simp add: progresses_def w' tagged_def ring_lives_def closed_idle_def)
qed

lemma await_message_seen:
  "await_message U rs =
     thenM (deliver_ready rs)
     (bindM (on_ring (u_wait_cqe U)) (\<lambda>x. case x of
        Blocks \<Rightarrow> faultM WaitsForever
      | WaitError ret \<Rightarrow> faultM UninitialisedCqe
      | Ready cqe res req_data \<Rightarrow>
          thenM (event_handler rs res req_data) (thenM (seen U cqe)
          (bindM (getM (\<lambda>w. (manager_life_state w, kill_coro_task w))) (\<lambda>(life, t).
           whenM (life = DYING) (EvTask_resume rs t))))))"
  by (rule ext) (auto simp: await_message_def seen_def runs split: sum.split wait_result.split)

context driving
begin

lemma evolve_wait:
  assumes "tallies U infl"
  shows "keeps evo (on_ring (u_wait_cqe U))"
proof (rule evolve_ring)
  show "infl (snd (u_wait_cqe U r)) = infl r" for r
    using assms countsD(5) [of U infl r]
    by (cases "u_wait_cqe U r") (auto simp: tallies_def no_tally_def)
qed

lemma await_message_progresses:
  assumes "tallies U infl"
  shows "keeps (progresses infl) (await_message U rs)"
proof (rule keepsI)
  fix w x w' assume run: "await_message U rs w = Inr (x, w')"
  let ?last = "bindM (getM (\<lambda>w. (manager_life_state w, kill_coro_task w))) (\<lambda>(life, t).
      whenM (life = DYING) (EvTask_resume rs t))"
  from run obtain w1 y w2 where 1: "deliver_ready rs w = Inr ((), w1)"
    and y: "on_ring (u_wait_cqe U) w1 = Inr (y, w2)" and rest: "(case y of
        Blocks \<Rightarrow> faultM WaitsForever
      | WaitError ret \<Rightarrow> faultM UninitialisedCqe
      | Ready cqe res req_data \<Rightarrow>
          thenM (event_handler rs res req_data) (thenM (seen U cqe) ?last)) w2 = Inr (x, w')"
    unfolding await_message_seen bindM_Inr_iff thenM_Inr_iff by auto
  then obtain cqe res d where "y = Ready cqe res d" by (cases y) auto
  with y have 2: "on_ring (u_wait_cqe U) w1 = Inr (Ready cqe res d, w2)" by simp
  from rest \<open>y = Ready cqe res d\<close> obtain w3 w4 where 3: "event_handler rs res d w2 = Inr ((), w3)" and 4: "seen U cqe w3 = Inr ((), w4)"
    and 5: "?last w4 = Inr (x, w')"
    unfolding thenM_Inr_iff by (auto simp: thenM_Inr_iff)
  have e1: "evo w w1" by (rule keepsD [OF evolve_deliver_ready 1])
  have e2: "evo w1 w2" by (rule keepsD [OF evolve_wait [OF assms] 2])
  have e3: "evo w2 w3" by (rule keepsD [OF evolve_event_handler 3])
  have last: "keeps evo ?last"
    by (auto intro!: evolving.keeps_rules evolve_task_resume split: prod.split)
  have e5: "evo w4 w'" using 5 by (rule keepsD [OF last])
  have open2: "ring_open w3" using 4 by (auto simp: seen_def run_iffs on_ring_Inr)
  obtain r where r: "u_wait_cqe U (ring w1) = (Ready cqe res d, r)" "w2 = w1\<lparr>ring := r\<rparr>"
    using 2 by (auto simp: on_ring_Inr)
  have e: "evo w w2" by (rule evolving.trans [OF e1 e2])
  have e': "evo w w3" by (rule evolving.trans [OF e e3])
  show "progresses infl w w'"
  proof (cases "accounted infl w")
    case True
    with e e3 open2 have acc: "accounted infl w2" "ring_open w2"
      by (auto simp: evolves_def evolves_rest_def no_loss_def)
    have "0 < infl (ring w2)"
      using countsD(5,6) [OF tallies_counts [OF assms acc] r(1)] r(2) by simp
    with acc e3 open2 have "0 < infl (ring w3)"
      by (auto simp: evolves_def evolves_rest_def no_loss_def)
    then have "progresses infl w3 w4" by (intro seen_progresses [OF assms 4])
    with e' e5 show ?thesis by (blast intro: progress.trans evolves_progresses)
  next
    case False
    have "closed_idle w4" using open2 4 by (auto simp: seen_def run_iffs on_ring_Inr closed_idle_def)
    then have "closed_idle w'"
      using e5 by (auto simp: evolves_def evolves_rest_def no_loss_def closed_idle_def)
    moreover have "heap_sound w3 \<Longrightarrow> heap_sound w4" "manager_life_state w4 = manager_life_state w3"
        "tagged w4 = tagged w3" "ring_lives w4 = ring_lives w3"
      using 4 heap_sound_cong [of w4 w3]
      by (auto simp: seen_def run_iffs on_ring_Inr heap_of_def tagged_def ring_lives_def)
    ultimately have "heap_sound w \<longrightarrow> heap_sound w4" "tagged w \<longrightarrow> tagged w4" "ring_lives w \<longrightarrow> ring_lives w4"
        "manager_life_state w \<le> manager_life_state w4"
      using e' by (auto simp: evolves_def evolves_rest_def)
    with e5 False \<open>closed_idle w'\<close> show ?thesis by (auto simp: evolves_def evolves_rest_def progresses_def)
  qed
qed

lemma start_loop_progresses:
  assumes "tallies U infl"
  shows "keeps (progresses infl) (start_loop U rs n)"
proof (induction n)
  case 0
  then show ?case by (simp add: keeps_def)
next
  case (Suc n)
  then show ?case by (auto intro!: progress.keeps_rules await_message_progresses assms)
qed

lemma start_progresses:
  assumes "tallies U infl"
  shows "keeps (progresses infl) (start U rs n)"
proof (rule keepsI)
  fix w x w' assume run: "start U rs n w = Inr (x, w')"
  show "progresses infl w w'"
  proof (cases "LIVING \<le> manager_life_state w")
    case True
    with run show ?thesis by (simp add: start_def run_iffs progress.refl)
  next
    case False
    with run have "start_loop U rs n (w\<lparr>manager_life_state := LIVING\<rparr>) = Inr (x, w')"
      by (simp add: start_def bindM_run thenM_run)
    then have "progresses infl (w\<lparr>manager_life_state := LIVING\<rparr>) w'"
      by (rule keepsD [OF start_loop_progresses [OF assms]])
    moreover have "progresses infl w (w\<lparr>manager_life_state := LIVING\<rparr>)"
      using False by (intro evolves_progresses evolve_life) (auto simp: LivingState_order)
    ultimately show ?thesis by (rule progress.trans [rotated])
  qed
qed

end

end
