(* ===== verification/Em_Batch.thy ===== *)
theory Em_Batch
  imports Em_Lifecycle
begin

text \<open>
  The two coroutines of \<open>io_ops.cpp\<close> that answer many requests through a callback of the user:
  \<open>submit_and_wait\<close> for the members of a queue, \<open>poll\<close> for the requests nobody awaits.

  A callback is a parameter. It is given the type of the response the channel holds (\<open>None\<close> for the
  value no enumerator has, when the channel is empty) and the channel; it says what it leaves in the
  channel, which requests it makes with the \<open>_na\<close> functions, in order, and its own next state. The
  queue passed by reference to \<open>submit_and_wait\<close> is taken by value: the caller keeps it alive and
  unchanged. The loop that waits for entries to be taken is not bounded in the code, and has fuel.
\<close>

type_synonym 'h reaction = "'h \<times> CommunicationChannel \<times> OperationParameterPackVariant list"
type_synonym 'h batch_handler = "'h \<Rightarrow> RequestType option \<Rightarrow> CommunicationChannel \<Rightarrow> 'h reaction"
type_synonym 'h poll_handler =
  "'h \<Rightarrow> RequestType option \<Rightarrow> CommunicationChannel \<Rightarrow> PollingState \<times> 'h reaction"

text \<open>A call of a callback on the channel of the coroutine that made it.\<close>

definition call_handler ::
    "'r uring \<Rightarrow> (RequestType option \<Rightarrow> CommunicationChannel \<Rightarrow> 'a \<times> 'h reaction) \<Rightarrow> addr \<Rightarrow>
     ('b, 'r, 'a \<times> 'h) em_op" where
  "call_handler U f h =
     bindM (promise_at h) (\<lambda>p.
     case f (response_store_current_type (com_data p)) (com_data p) of (x, handler', c, reqs) \<Rightarrow>
       thenM (update_promise (\<lambda>p. p\<lparr>com_data := c\<rparr>) h)
       (thenM (mapM (na_request U) reqs) (returnM (x, handler'))))"

subsection \<open>submit_and_wait\<close>

text \<open>The end of the coroutine, with the vector \<open>req_data\<close> as its local.\<close>

definition submit_return ::
    "(addr \<Rightarrow> ('b, 'r, unit) em_op) \<Rightarrow> csize \<Rightarrow> addr list \<Rightarrow> addr \<Rightarrow> ('b, 'r, unit) em_op" where
  "submit_return rs code req_data h =
     co_return_with rs (thenM (mapM delete_request req_data) (returnM ())) code h"

definition submit_begin ::
    "'r uring \<Rightarrow> (addr \<Rightarrow> ('u, 'h, 'r, unit) world_op) \<Rightarrow> RequestQueue \<Rightarrow> 'h \<Rightarrow> addr \<Rightarrow>
     ('u, 'h, 'r, unit) world_op" where
  "submit_begin U rs request_queue handler h =
     bindM (submit_queued_entries U) (\<lambda>ret.
     if ret <s 0 then co_return rs (scast ret) h
     else
       bindM (mapM (\<lambda>_. new_request (Some h) new_RequestData) (req_vec request_queue)) (\<lambda>req_data.
       RetrieveCurrentHandle_await rs h (SubmitRetrieve request_queue handler ret req_data)))"

text \<open>\<open>while (num_queued != 0 && num_submitted == 0)\<close>: \<open>Inl\<close> is the early return of a failure.\<close>

fun refill :: "'r uring \<Rightarrow> nat \<Rightarrow> csize \<Rightarrow> u32 \<Rightarrow> ('b, 'r, cint + csize \<times> u32) em_op" where
  "refill U n num_submitted num_queued =
     (if num_queued \<noteq> 0 \<and> num_submitted = 0
      then case n of
        0 \<Rightarrow> faultM OutOfFuel
      | Suc m \<Rightarrow>
          bindM (submit_queued_entries U) (\<lambda>ret.
          if ret <s 0 then returnM (Inl ret)
          else refill U m (num_submitted + scast ret) (num_queued - ret))
      else returnM (Inr (num_submitted, num_queued)))"

declare refill.simps [simp del]

text \<open>
  One turn of the outer loop, up to the first wait of its \<open>for\<close> loop. The inner loop ends with
  \<open>num_submitted != 0\<close> or \<open>num_queued == 0\<close>; in the second case alone nothing is left to wait for,
  and the outer loop ends.
\<close>

definition submit_loop ::
    "'r uring \<Rightarrow> (addr \<Rightarrow> ('u, 'h, 'r, unit) world_op) \<Rightarrow> nat \<Rightarrow> 'h \<Rightarrow> addr list \<Rightarrow> csize \<Rightarrow> u32 \<Rightarrow> addr \<Rightarrow>
     ('u, 'h, 'r, unit) world_op" where
  "submit_loop U rs n handler req_data num_submitted num_queued h =
     (if num_submitted \<noteq> 0 \<or> num_queued \<noteq> 0
      then
        bindM (refill U n num_submitted num_queued) (\<lambda>x. case x of
          Inl ret \<Rightarrow> submit_return rs (scast ret) req_data h
        | Inr (num_submitted, num_queued) \<Rightarrow>
            if num_submitted \<noteq> 0
            then GenericResponse_await h
                   (SubmitGeneric handler req_data 0 num_submitted num_queued)
            else submit_return rs 0 req_data h)
      else submit_return rs 0 req_data h)"

definition submit_prepare ::
    "'r uring \<Rightarrow> (addr \<Rightarrow> ('u, 'h, 'r, unit) world_op) \<Rightarrow> nat \<Rightarrow> RequestQueue \<Rightarrow> 'h \<Rightarrow> cint \<Rightarrow> addr list \<Rightarrow>
     addr \<Rightarrow> ('u, 'h, 'r, unit) world_op" where
  "submit_prepare U rs n request_queue handler ret req_data h =
     thenM (mapM (\<lambda>(req, single_req). process_single_generic_request U req single_req (Some h))
              (zip (req_vec request_queue) req_data))
     (bindM (sq_pending U) (\<lambda>num_queued.
      submit_loop U rs n handler req_data (scast ret) num_queued h))"

definition submit_received ::
    "'r uring \<Rightarrow> (addr \<Rightarrow> ('u, 'h, 'r, unit) world_op) \<Rightarrow> 'h batch_handler \<Rightarrow> nat \<Rightarrow> 'h \<Rightarrow> addr list \<Rightarrow>
     csize \<Rightarrow> csize \<Rightarrow> u32 \<Rightarrow> addr \<Rightarrow> ('u, 'h, 'r, unit) world_op" where
  "submit_received U rs on_batch n handler req_data i num_submitted num_queued h =
     bindM (call_handler U (\<lambda>t c. ((), on_batch handler t c)) h) (\<lambda>(_, handler').
     if i + 1 < num_submitted
     then GenericResponse_await h
            (SubmitGeneric handler' req_data (i + 1) num_submitted num_queued)
     else submit_loop U rs n handler' req_data 0 num_queued h)"

subsection \<open>poll\<close>

definition poll_begin ::
    "(addr \<Rightarrow> ('u, 'h, 'r, unit) world_op) \<Rightarrow> 'h \<Rightarrow> addr \<Rightarrow> ('u, 'h, 'r, unit) world_op" where
  "poll_begin rs handler h =
     bindM (getM polling_requests) (\<lambda>polling.
     if polling then co_return rs (-1) h
     else
       thenM (modifyM (\<lambda>w. w\<lparr>polling_requests := True\<rparr>))
       (RetrieveCurrentHandle_await rs h (PollRetrieve handler)))"

definition poll_retrieved :: "'h \<Rightarrow> addr \<Rightarrow> ('u, 'h, 'r, unit) world_op" where
  "poll_retrieved handler h =
     thenM (modifyM (\<lambda>w. w\<lparr>polling_handle := Some h\<rparr>))
     (GenericResponse_await h (PollGeneric handler))"

definition poll_received ::
    "'r uring \<Rightarrow> (addr \<Rightarrow> ('u, 'h, 'r, unit) world_op) \<Rightarrow> 'h poll_handler \<Rightarrow> 'h \<Rightarrow> addr \<Rightarrow>
     ('u, 'h, 'r, unit) world_op" where
  "poll_received U rs on_poll handler h =
     thenM (modifyM (\<lambda>w. w\<lparr>polling_handle := None\<rparr>))
     (bindM (call_handler U (on_poll handler) h) (\<lambda>(continue_polling, handler').
      if continue_polling = CONTINUE_POLLING
      then RetrieveCurrentHandle_await rs h (PollRetrieve handler')
      else
        thenM (modifyM (\<lambda>w. w\<lparr>polling_requests := False\<rparr>)) (co_return rs 0 h)))"

subsection \<open>They keep the invariants\<close>

lemma new_request_id:
  "new_request home d = bindM (new_request home d) (\<lambda>r. thenM (update_request id r) (returnM r))"
  by (rule ext) (simp add: runs new_request_run update_request_def request_at_def)

lemma evolve_new_requests [evolve]:
  "keeps (evolves infl) (mapM (\<lambda>_. new_request home new_RequestData) xs)"
  by (rule evolving.keeps_mapM, subst new_request_id)
    (rule evolve_new_request; simp add: evolving.keeps_return)

lemma evolve_refill [evolve]:
  assumes "tallies U infl"
  shows "keeps (evolves infl) (refill U n ns nq)"
proof (induction n arbitrary: ns nq)
  case 0
  then show ?case
    unfolding refill.simps [of U 0] by (auto intro!: evolving.keeps_rules)
next
  case (Suc n)
  then show ?case
    unfolding refill.simps [of U "Suc n"] using assms by (auto intro!: evolving.keeps_rules evolve)
qed

lemma evolve_polling [evolve]:
  "keeps (evolves infl) (modifyM (\<lambda>w. w\<lparr>polling_requests := b\<rparr>))"
  "keeps (evolves infl) (modifyM (\<lambda>w. w\<lparr>polling_handle := p\<rparr>))"
  "keeps (evolves infl) (modifyM (\<lambda>w. w\<lparr>user_variable := x\<rparr>))"
  by (auto simp: keeps_def heap_of_def tagged_def intro!: evolve_requests)

context running
begin

lemma evolve_call_handler:
  "tallies U infl \<Longrightarrow> keeps evo (call_handler U f h)"
  unfolding call_handler_def
  by (auto intro!: evolving.keeps_rules evolve evolve_simple evolve_update_promise split: prod.split)

lemma evolve_submit_return: "keeps evo (submit_return rs c rds h)"
  unfolding submit_return_def by (intro evolving.keeps_rules evolve evolve_co_return_with)

lemma evolve_submit_loop: "tallies U infl \<Longrightarrow> keeps evo (submit_loop U rs n st rds ns nq h)"
  unfolding submit_loop_def
  by (auto intro!: evolving.keeps_rules evolve evolve_coro evolve_submit_return
      split: sum.split prod.split)

lemma evolve_submit_and_wait:
  assumes "tallies U infl"
  shows "keeps evo (submit_begin U rs q st h)" "keeps evo (submit_prepare U rs n q st ret rds h)"
    "keeps evo (submit_received U rs f n st rds i ns nq h)"
  unfolding submit_begin_def submit_prepare_def submit_received_def using assms
  by (auto intro!: evolving.keeps_rules evolve evolve_coro evolve_submit_loop evolve_call_handler
      split: prod.split)

lemma evolve_poll:
  assumes "tallies U infl"
  shows "keeps evo (poll_begin rs st h)" "keeps evo (poll_retrieved st h)"
    "keeps evo (poll_received U rs g st h)"
  unfolding poll_begin_def poll_retrieved_def poll_received_def using assms
  by (auto intro!: evolving.keeps_rules evolve evolve_coro evolve_call_handler split: prod.split)

end

end
