(* ===== verification/Em_System.thy ===== *)
theory Em_System
  imports Em_Batch
begin

text \<open>
  The program as a whole: what the resumption of a frame runs. A coroutine of the user is a parameter
  (\<open>code\<close>): at each of its points it takes the value of the expression it has just evaluated, and
  says which operation of the library it performs next. \<open>resume\<close> ties the knot: it runs a segment
  of the coroutine whose frame is resumed, and the resumptions inside that segment are \<open>resume\<close>
  again, with less fuel. \<open>run_main\<close> is a \<open>main\<close> that constructs a manager, registers coroutines and
  starts the event loop.

  The last part shows that all of it keeps the invariants: \<open>running\<close> is interpreted on \<open>resume\<close> and
  \<open>destroy_frame\<close>, for every \<open>code\<close> and every liburing.
\<close>

subsection \<open>Code of the user\<close>

datatype result =
    Started
  | IOResult IOResponse
  | TaskResult csize
  | NaResult Errnos
  | NewTask addr
  | ChannelResult "addr option"
  | DoneResult bool
  | MetaResult "csize option"
  | IntResult cint
  | VariableResult csize
  | NoResult

datatype ('u, 'h) action =
    CoAwaitIO OperationParameterPackVariant 'u
  | CoAwaitTask addr 'u
  | CallNa OperationParameterPackVariant 'u
  | CallCoro 'u 'u
  | CallKill 'u
  | CallPoll 'h 'u
  | CallSubmitAndWait RequestQueue 'h 'u
  | TaskStart addr 'u
  | TaskResume addr 'u
  | TaskResumeWith RespData addr 'u
  | TaskIsDone addr 'u
  | TaskSetMeta csize addr 'u
  | TaskGetMeta addr 'u
  | DropTask addr 'u
  | RegisterCoro addr 'u
  | SubmitQueued 'u
  | UserVariable "csize \<Rightarrow> csize" 'u
  | CoReturn csize
  | Throw nat

text \<open>
  What the program is made of besides the library: the coroutines and callbacks of the user, the
  choices of the standard library in \<open>ItemStore\<close>, and what the compiler does with the memory of a
  temporary whose lifetime has ended. Reading it is undefined behaviour, which is \<open>temporaries_stay\<close>
  \<open>False\<close>; a compiler that gives each temporary a place of its own in the coroutine frame, and leaves it
  as it is, is \<open>temporaries_stay\<close> \<open>True\<close>.
\<close>

record ('u, 'h) program =
  code :: "'u \<Rightarrow> result \<Rightarrow> ('u, 'h) action"
  on_batch :: "'h batch_handler"
  on_poll :: "'h poll_handler"
  first_freed :: "nat set \<Rightarrow> nat"
  next_capacity :: "nat \<Rightarrow> nat"
  temporaries_stay :: bool

subsection \<open>Frames that are destroyed\<close>

fun locals_of :: "('u, 'h) coro \<Rightarrow> addr list" where
  "locals_of (User u aw ls) = ls"
| "locals_of b = []"

fun requests_of :: "('u, 'h) coro \<Rightarrow> addr list" where
  "requests_of (SubmitRetrieve q st ret rds) = rds"
| "requests_of (SubmitGeneric st rds i ns nq) = rds"
| "requests_of b = []"

definition drop_tasks :: "addr list \<Rightarrow> ('b, 'z, unit) heap_op" where
  "drop_tasks ls = thenM (mapM drop_task ls) (returnM ())"

text \<open>\<open>handle.destroy()\<close>: the destructors of the locals, and then the memory of the frame.\<close>

definition destroy_frame :: "addr \<Rightarrow> ('u, 'h, 'r, unit) world_op" where
  "destroy_frame h =
     bindM (frame_at h) (\<lambda>f.
     if \<not> suspended f then faultM ResumeNotSuspended
     else
       thenM (mapM delete_request (requests_of (body f)))
       (thenM (drop_tasks (locals_of (body f)))
       (thenM (free_homed h) (free_frame h))))"

subsection \<open>A segment of a coroutine of the user\<close>

text \<open>
  \<open>do_action\<close> performs one operation and returns the result with which the code goes on and the
  variables it then has, or \<open>None\<close> when the coroutine has suspended or ended.
\<close>

text \<open>
  The operand of \<open>co_await ev.read(...)\<close> is a temporary: the awaitable, and the \<open>RequestData\<close> that is its
  member, end with the full expression, which is before the code that uses its value runs.
\<close>

definition end_temporary :: "('u, 'h) program \<Rightarrow> addr \<Rightarrow> ('u, 'h, 'r, unit) world_op" where
  "end_temporary P a =
     whenM (\<not> temporaries_stay P)
       (modifyM (\<lambda>w. w\<lparr>requests := (requests w)(a := None), awaitables := (awaitables w)(a := None)\<rparr>))"

definition co_await_value :: "('u, 'h) program \<Rightarrow> addr \<Rightarrow> ('u, 'h, 'r, result) world_op" where
  "co_await_value P a =
     bindM (IOAwaitable_await_resume a) (\<lambda>r. thenM (end_temporary P a) (returnM (IOResult r)))"

definition call_coro ::
    "('u, 'h) coro \<Rightarrow> addr list \<Rightarrow> 'u \<Rightarrow> ('u, 'h, 'r, (result \<times> 'u \<times> addr list) option) world_op" where
  "call_coro b ls u = bindM (spawn b) (\<lambda>t. returnM (Some (NewTask t, u, t # ls)))"

fun do_action ::
    "'r uring \<Rightarrow> ('u, 'h) program \<Rightarrow> (addr \<Rightarrow> ('u, 'h, 'r, unit) world_op) \<Rightarrow> addr \<Rightarrow> addr list \<Rightarrow>
     ('u, 'h) action \<Rightarrow> ('u, 'h, 'r, (result \<times> 'u \<times> addr list) option) world_op" where
  "do_action U P rs h ls (CoAwaitIO p u) =
     bindM (ev_request U h p) (\<lambda>a.
     bindM (IOAwaitable_await_ready a) (\<lambda>ready.
     if ready
     then bindM (co_await_value P a) (\<lambda>r. returnM (Some (r, u, ls)))
     else thenM (suspend_at h (User u (AwaitIO a) ls))
            (thenM (IOAwaitable_await_suspend U rs h a) (returnM None))))"
| "do_action U P rs h ls (CoAwaitTask t u) =
     thenM (suspend_at h (User u (AwaitTask t) ls))
       (thenM (EvTask_await_suspend rs t h) (returnM None))"
| "do_action U P rs h ls (CallNa p u) =
     bindM (na_request U p) (\<lambda>e. returnM (Some (NaResult e, u, ls)))"
| "do_action U P rs h ls (CallCoro v u) = call_coro (User v AwaitStart []) ls u"
| "do_action U P rs h ls (CallKill u) = call_coro KillBegin ls u"
| "do_action U P rs h ls (CallPoll st u) = call_coro (PollBegin st) ls u"
| "do_action U P rs h ls (CallSubmitAndWait q st u) = call_coro (SubmitBegin q st) ls u"
| "do_action U P rs h ls (TaskStart t u) =
     bindM (EvTask_start rs t) (\<lambda>c. returnM (Some (ChannelResult c, u, ls)))"
| "do_action U P rs h ls (TaskResume t u) =
     thenM (EvTask_resume rs t) (returnM (Some (NoResult, u, ls)))"
| "do_action U P rs h ls (TaskResumeWith d t u) =
     bindM (EvTask_resume_with rs d t) (\<lambda>c. returnM (Some (ChannelResult (Some c), u, ls)))"
| "do_action U P rs h ls (TaskIsDone t u) =
     bindM (EvTask_is_done t) (\<lambda>b. returnM (Some (DoneResult b, u, ls)))"
| "do_action U P rs h ls (TaskSetMeta m t u) =
     bindM (task_at t) (\<lambda>x. bindM (set_coro_metadata m x) (\<lambda>i.
     returnM (Some (IntResult i, u, ls))))"
| "do_action U P rs h ls (TaskGetMeta t u) =
     bindM (task_at t) (\<lambda>x. bindM (get_coro_metadata x) (\<lambda>m.
     returnM (Some (MetaResult m, u, ls))))"
| "do_action U P rs h ls (DropTask t u) =
     (if t \<in> set ls then thenM (drop_task t) (returnM (Some (NoResult, u, remove1 t ls)))
      else faultM UseAfterFree)"
| "do_action U P rs h ls (RegisterCoro t u) =
     thenM (register_coro (first_freed P) (next_capacity P) destroy_frame rs t)
       (returnM (Some (NoResult, u, ls)))"
| "do_action U P rs h ls (SubmitQueued u) =
     bindM (submit_queued_entries U) (\<lambda>i. returnM (Some (IntResult i, u, ls)))"
| "do_action U P rs h ls (UserVariable f u) =
     bindM (getM user_variable) (\<lambda>x.
     thenM (modifyM (\<lambda>w. w\<lparr>user_variable := f x\<rparr>)) (returnM (Some (VariableResult (f x), u, ls))))"
| "do_action U P rs h ls (CoReturn c) =
     thenM (co_return_with rs (drop_tasks ls) c h) (returnM None)"
| "do_action U P rs h ls (Throw e) =
     thenM (co_throw rs (drop_tasks ls) e h) (returnM None)"

fun user_run ::
    "'r uring \<Rightarrow> ('u, 'h) program \<Rightarrow> (addr \<Rightarrow> ('u, 'h, 'r, unit) world_op) \<Rightarrow> nat \<Rightarrow> addr \<Rightarrow> result \<Rightarrow> 'u \<Rightarrow>
     addr list \<Rightarrow> ('u, 'h, 'r, unit) world_op" where
  "user_run U P rs 0 h r u ls = faultM OutOfFuel"
| "user_run U P rs (Suc n) h r u ls =
     bindM (do_action U P rs h ls (code P u r)) (\<lambda>x. case x of
       None \<Rightarrow> returnM ()
     | Some (r, u, ls) \<Rightarrow> user_run U P rs n h r u ls)"

fun user_resumed :: "('u, 'h) program \<Rightarrow> awaiting \<Rightarrow> ('u, 'h, 'r, result) world_op" where
  "user_resumed P AwaitStart = returnM Started"
| "user_resumed P (AwaitIO a) = co_await_value P a"
| "user_resumed P (AwaitTask t) = bindM (EvTask_await_resume t) (\<lambda>c. returnM (TaskResult c))"

subsection \<open>Resumption\<close>

fun segment ::
    "'r uring \<Rightarrow> ('u, 'h) program \<Rightarrow> (addr \<Rightarrow> ('u, 'h, 'r, unit) world_op) \<Rightarrow> nat \<Rightarrow> addr \<Rightarrow>
     ('u, 'h) coro \<Rightarrow> ('u, 'h, 'r, unit) world_op" where
  "segment U P rs n h KillInternalBegin = kill_internal_begin U rs h"
| "segment U P rs n h KillInternalWait = kill_internal_wait U rs h"
| "segment U P rs n h KillBegin = kill_begin rs h"
| "segment U P rs n h KillWait = kill_end rs h"
| "segment U P rs n h (SubmitBegin q st) = submit_begin U rs q st h"
| "segment U P rs n h (SubmitRetrieve q st ret rds) = submit_prepare U rs n q st ret rds h"
| "segment U P rs n h (SubmitGeneric st rds i ns nq) =
     submit_received U rs (on_batch P) n st rds i ns nq h"
| "segment U P rs n h (PollBegin st) = poll_begin rs st h"
| "segment U P rs n h (PollRetrieve st) = poll_retrieved st h"
| "segment U P rs n h (PollGeneric st) = poll_received U rs (on_poll P) st h"
| "segment U P rs n h (User u aw ls) =
     bindM (user_resumed P aw) (\<lambda>r. user_run U P rs n h r u ls)"

fun resume :: "'r uring \<Rightarrow> ('u, 'h) program \<Rightarrow> nat \<Rightarrow> addr \<Rightarrow> ('u, 'h, 'r, unit) world_op" where
  "resume U P 0 h = faultM OutOfFuel"
| "resume U P (Suc n) h =
     bindM (begin_resume h) (\<lambda>b. segment U P (resume U P n) n h b)"

subsection \<open>A main program\<close>

text \<open>\<open>register_coro(fn, args...)\<close> calls the coroutine function and moves the result in.\<close>

definition register_coro_fn ::
    "'r uring \<Rightarrow> ('u, 'h) program \<Rightarrow> nat \<Rightarrow> 'u \<Rightarrow> ('u, 'h, 'r, unit) world_op" where
  "register_coro_fn U P n u =
     bindM (spawn (User u AwaitStart [])) (\<lambda>coro.
     thenM (register_coro (first_freed P) (next_capacity P) destroy_frame (resume U P n) coro)
       (drop_task coro))"

definition run_main ::
    "'r uring \<Rightarrow> ('u, 'h) program \<Rightarrow> nat \<Rightarrow> csize \<Rightarrow> 'u list \<Rightarrow> ('u, 'h, 'r, unit) world_op" where
  "run_main U P n queue_depth coros =
     thenM (EventManager_construct U queue_depth)
     (thenM (mapM (register_coro_fn U P n) coros)
      (start U (resume U P n) n))"

subsection \<open>Destroying a frame\<close>

definition shrinks :: "EvTask list \<Rightarrow> ('b, 'r) manager \<Rightarrow> ('b, 'r) manager \<Rightarrow> bool" where
  "shrinks zs w w' \<longleftrightarrow> (heap_ok w zs \<longrightarrow> heap_ok w' zs) \<and>
     (\<forall>a. tasks w' a = tasks w a \<or> tasks w' a = None)"

interpretation shrinking: keeping "shrinks zs :: ('b, 'r) manager \<Rightarrow> _" for zs
  by unfold_locales (simp add: shrinks_def, simp add: shrinks_def, metis)

interpretation store_frame: heap_frame
  "managed_coroutines_store :: ('b, 'r) manager \<Rightarrow> EvTask ItemStore"
  by unfold_locales simp_all

lemma heap_ok_cong:
  fixes w w' :: "('b, 'r) manager"
  assumes "frames w' = frames w" "statuses w' = statuses w" "tasks w' = tasks w"
    "next_addr w' = next_addr w"
  shows "heap_ok w' zs = heap_ok w zs"
proof -
  have "ptrs w' = ptrs w" "dones w' = dones w" using assms by (simp_all add: ptrs_def dones_def fun_eq_iff)
  with assms show ?thesis by (simp add: heap_ok_def)
qed

lemma shrinks_same:
  fixes w w' :: "('b, 'r) manager"
  assumes "frames w' = frames w" "statuses w' = statuses w" "tasks w' = tasks w"
    "next_addr w' = next_addr w"
  shows "shrinks zs w w'"
  using heap_ok_cong [OF assms] assms(3) by (simp add: shrinks_def)

lemma shrinks_requests:
  "keeps (shrinks zs) (delete_request r)" "keeps (shrinks zs) (free_homed h)"
  by (auto simp: keeps_def request_iffs free_homed_def intro!: shrinks_same)

lemma shrinks_drop_task: "keeps (shrinks zs) (drop_task t :: ('b, 'r, unit) em_op)"
proof (rule keepsI)
  fix w w' :: "('b, 'r) manager" and x assume run: "drop_task t w = Inr (x, w')"
  then obtain y v where v: "EvTask_destruct y w = Inr ((), v)" "w' = v\<lparr>tasks := (tasks v)(t := None)\<rparr>"
    by (auto simp: drop_task_def free_task_def heap_iffs)
  have "tasks v = tasks w" by (rule destruct_tasks(1) [OF v(1)])
  then show "shrinks zs w w'"
    using drop_task_ok [OF _ run] v(2) by (auto simp: shrinks_def)
qed

lemma destroy_frame_ok: "destroys destroy_frame"
  unfolding destroys_def
proof (intro allI impI conjI)
  fix h zs a and w w' :: "('u, 'h, 'r) em_world"
  assume run: "destroy_frame h w = Inr ((), w')"
  let ?locals = "\<lambda>f. thenM (mapM delete_request (requests_of (body f)))
    (thenM (drop_tasks (locals_of (body f))) (free_homed h))"
  from run obtain f v where f: "frames w h = Some f"
      and v: "?locals f w = Inr ((), v)" and end_frame: "free_frame h v = Inr ((), w')"
    by (auto simp: destroy_frame_def heap_iffs split: if_splits)
  have "keeps (shrinks zs) (?locals f)"
    unfolding drop_tasks_def
    by (intro shrinking.keeps_rules shrinks_requests shrinks_drop_task)
  then have sh: "shrinks zs w v" using v by (rule keepsD)
  from end_frame have w': "frames v h \<noteq> None" "w' = v\<lparr>frames := (frames v)(h := None)\<rparr>"
    by (simp_all add: free_frame_Inr)
  show "\<exists>v. heap_ok v zs \<and> frames v h \<noteq> None \<and> w' = v\<lparr>frames := (frames v)(h := None)\<rparr>"
    if "heap_ok w zs"
    using that sh w' by (auto simp: shrinks_def)
  show "tasks w' a = tasks w a \<or> tasks w' a = None"
    using sh w' by (auto simp: shrinks_def)
qed

lemma evolve_end_temporary [evolve]: "keeps (evolves infl) (end_temporary P a)"
  by (auto simp: keeps_def end_temporary_def run_iffs heap_of_def tagged_def intro!: evolve_requests
      split: if_splits)

lemma evolve_drop_tasks [evolve]: "keeps (evolves infl) (drop_tasks ls)"
  unfolding drop_tasks_def by (intro evolving.keeps_rules evolve)

lemma destroy_frame_rest: "keeps (evolves_rest infl) (destroy_frame h)"
  unfolding destroy_frame_def
  by (auto intro!: rest.keeps_rules rest_frame.preserves_simple [THEN preserves_rest]
      evolve_drop_tasks [THEN rest_evolves] evolve_free_homed [THEN rest_evolves]
      evolve_delete_request [THEN rest_evolves])

lemma destroy_frame_store: "keeps (preserves managed_coroutines_store) (destroy_frame h)"
proof -
  have "keeps (preserves managed_coroutines_store) (delete_request r)"
      "keeps (preserves managed_coroutines_store) (free_homed h)" for r h
    by (auto simp: keeps_def preserves_def request_iffs free_homed_def)
  then show ?thesis
    unfolding destroy_frame_def drop_tasks_def
    by (auto intro!: same.keeps_rules store_frame.preserves_simple store_frame.preserves_drop_task)
qed

subsection \<open>Every resumption keeps the invariants\<close>

lemma running_frame:
  assumes "\<And>h. keeps (evolves infl) (rs h)"
  shows "running infl rs destroy_frame"
  using assms by unfold_locales
    (simp_all add: destroy_frame_ok destroy_frame_rest destroy_frame_store)

context running
begin

lemma evolve_co_await_value: "keeps evo (co_await_value P a)"
  unfolding co_await_value_def by (intro evolving.keeps_rules evolve evolve_await_resume)

lemma evolve_user_resumed: "keeps evo (user_resumed P aw)"
  by (cases aw)
    (auto intro!: evolving.keeps_rules evolve_co_await_value evolve_task_await_resume)

end

lemma evolve_do_action:
  assumes "\<And>h. keeps (evolves infl) (rs h)" and "tallies U infl"
  shows "keeps (evolves infl) (do_action U P rs h ls act)"
proof -
  have call: "keeps (evolves infl) (call_coro b ls u)" for b u
    unfolding call_coro_def by (intro evolving.keeps_rules evolve)
  note R = running_frame [OF assms(1)]
  have D: "driving infl rs" using assms(1) by unfold_locales
  have X: "destroying infl rs destroy_frame" using R by (rule running.axioms)
  note rules = evolving.keeps_rules evolve call assms(2) running.evolve_co_await_value [OF R]
    driving.evolve_await_suspend [OF D] driving.evolve_task [OF D] driving.evolve_coro [OF D]
    destroying.evolve_register_coro [OF X]
  show ?thesis
    by (cases act) (auto intro!: rules)
qed

lemma evolve_user_run:
  assumes "\<And>h. keeps (evolves infl) (rs h)" and "tallies U infl"
  shows "keeps (evolves infl) (user_run U P rs n h r u ls)"
proof (induction n arbitrary: r u ls)
  case 0
  then show ?case by (simp add: keeps_def)
next
  case (Suc n)
  show ?case
    unfolding user_run.simps
    by (rule evolving.keeps_bind [OF evolve_do_action [OF assms]])
      (auto split: option.split intro!: evolving.keeps_return Suc)
qed

lemma evolve_segment:
  assumes "\<And>h. keeps (evolves infl) (rs h)" and "tallies U infl"
  shows "keeps (evolves infl) (segment U P rs n h b)"
proof -
  note R = running_frame [OF assms(1)]
  show ?thesis
    using running.evolve_kill [OF R] running.evolve_submit_and_wait [OF R assms(2)]
      running.evolve_poll [OF R assms(2)] assms(2)
    by (cases b) (auto intro: evolving.keeps_bind [OF running.evolve_user_resumed [OF R]
        evolve_user_run [OF assms]])
qed

lemma evolve_resume:
  assumes "tallies U infl"
  shows "keeps (evolves infl) (resume U P n h)"
proof (induction n arbitrary: h)
  case 0
  then show ?case by (simp add: keeps_def)
next
  case (Suc n)
  show ?case
    unfolding resume.simps
    by (rule evolving.keeps_bind [OF evolve_suspend(2) evolve_segment [OF Suc assms]])
qed

text \<open>
  So the contract holds of what the program's resumptions really run: the interfaces are interpreted
  on \<open>resume\<close> and \<open>destroy_frame\<close>, and what they show of \<open>start\<close> and the others holds of the program.
\<close>

interpretation program: running "tally U infl" "resume U P n" destroy_frame
  for U infl P n
  by (rule running_frame) (rule evolve_resume, rule tallies_tally)

text \<open>What a segment of the user's code has freed, or found freed, stays so.\<close>

lemma evolves_gone:
  "evolves infl w w' \<Longrightarrow> r < next_addr w \<Longrightarrow> requests w r = None \<Longrightarrow>
     requests w' r = None \<and> r < next_addr w'"
  by (auto simp: evolves_def evolves_rest_def no_reuse_def)

lemma user_run_gone:
  assumes "user_run U P (resume U P n) k h x u ls w = Inr (y, w')" and "requests w r = None" and "r < next_addr w"
  shows "requests w' r = None"
proof -
  have "evolves (tally U (\<lambda>_. 0)) w w'"
    by (rule keepsD [OF evolve_user_run [OF evolve_resume] assms(1)]) simp_all
  then show ?thesis using evolves_gone assms(2,3) by blast
qed

end
