(* ===== verification/Em_Loop_Laws.thy ===== *)
theory Em_Loop_Laws
  imports Em_Ring Em_System
begin

text \<open>
  What the event loop does with a completion, from the queue to the coroutine that waits for it:
  the answer a completed request gives to the coroutine of the user that awaits it, what happens when
  that coroutine ends, and the store of the responses nobody awaits.
\<close>

subsection \<open>Requests that are awaited\<close>

text \<open>
  The value of \<open>co_await ev.read(...)\<close> and the others, for a completion \<open>res\<close>. The code of a failed
  operation is the low byte of \<open>res\<close> itself, since the errno is negated once by the handler and once
  more by \<open>await_resume\<close>.
\<close>

definition answer_of :: "cint \<Rightarrow> (uptr \<Rightarrow> uptr) \<Rightarrow> OperationParameterPackVariant \<Rightarrow> IOResponse" where
  "answer_of res iov p =
     \<lparr>io_error = (if res <s 0 then OperationErr (ucast res) else NoErr),
      io_data = completion_response res iov p\<rparr>"

lemma negative_not_zero: "(res :: cint) <s 0 \<Longrightarrow> res \<noteq> 0"
  by auto

lemma consume_published:
  "consume_resp_data (RespData_type d) (publish_resp_data d c) =
     (Some d, publish_resp_data d c\<lparr>response_store := Monostate\<rparr>)"
  by (simp add: consume_resp_data_def publish_resp_data_def)

lemma await_resume_published:
  assumes "awaitables w a = Some x" and "aw_error x = NoErr" and "channel x = Some h"
    and "aw_type x = Op_type p" and "frames w h = Some f"
    and "com_data (promise f) = publish_resp_data (completion_response res iov p) c"
  shows "IOAwaitable_await_resume a w =
    Inr (answer_of res iov p,
      w\<lparr>frames := (frames w)(h \<mapsto>
          f\<lparr>promise := (promise f)\<lparr>com_data := c\<lparr>response_store := Monostate\<rparr>\<rparr>\<rparr>)\<rparr>)"
proof -
  let ?d = "completion_response res iov p"
  have "consume_resp_data (Op_type p) (publish_resp_data ?d c) =
      (Some ?d, c\<lparr>response_store := Monostate\<rparr>)"
    using consume_published [of ?d c] by (simp add: publish_resp_data_def)
  with assms show ?thesis
    by (simp add: IOAwaitable_await_resume_def consume_from_def awaitable_at_def promise_at_def
        update_promise_def frame_at_def put_frame_def non_null_def runs is_there_an_error_iff
        answer_of_def error_num_of_def set_error_from_num_def negative_not_zero)
qed

text \<open>
  A world to apply the theorems to: a coroutine of the user, in frame 0, waits for the request at
  address 1, which closes descriptor 7.
\<close>

definition waiting :: "sim_ring \<Rightarrow> (nat, unit, sim_ring) em_world" where
  "waiting r = (empty_world LIVING r)
     \<lparr>frames := [0 \<mapsto> \<lparr>promise = new_promise, suspended = True, body = User 1 (AwaitIO 1) []\<rparr>],
      next_addr := 2,
      requests := [1 \<mapsto> new_RequestData\<lparr>handle := Some 0, req_type := CLOSE,
                     specific_data := ClosePack \<lparr>close_p_fd = 7\<rparr>\<rparr>],
      request_home := [1 \<mapsto> 0],
      awaitables := [1 \<mapsto> \<lparr>channel = Some 0, aw_type = CLOSE, aw_error = NoErr, SQE = Some 0\<rparr>]\<rparr>"

lemma waiting_sel [simp]:
  "frames (waiting r) = [0 \<mapsto> \<lparr>promise = new_promise, suspended = True, body = User 1 (AwaitIO 1) []\<rparr>]"
  "requests (waiting r) = [1 \<mapsto> new_RequestData\<lparr>handle := Some 0, req_type := CLOSE,
     specific_data := ClosePack \<lparr>close_p_fd = 7\<rparr>\<rparr>]"
  "request_home (waiting r) = [1 \<mapsto> 0]"
  "next_addr (waiting r) = 2"
  "awaitables (waiting r) = [1 \<mapsto> \<lparr>channel = Some 0, aw_type = CLOSE, aw_error = NoErr, SQE = Some 0\<rparr>]"
  "ring (waiting r) = r" "ring_open (waiting r)" "manager_life_state (waiting r) = LIVING"
  "iov_base_of (waiting r) = (\<lambda>p. p)"
  by (simp_all add: waiting_def empty_world_def)

text \<open>A program whose coroutines end at once.\<close>

definition ending :: "bool \<Rightarrow> (nat, unit) program" where
  "ending stay = \<lparr>code = (\<lambda>u r. CoReturn 0), on_batch = (\<lambda>h t c. (h, c, [])),
     on_poll = (\<lambda>h t c. (STOP_POLLING, h, c, [])), first_freed = Min, next_capacity = (*) 2,
     temporaries_stay = stay\<rparr>"

lemma completion_answers_main:
  assumes "requests w r = Some d" and "handle d = Some h" and "well_tagged d"
    and "awaitables w r = Some x" and "channel x = Some h" and "aw_type x = req_type d"
    and "aw_error x = NoErr"
    and "frames w h = Some f" and "suspended f" and "body f = User u (AwaitIO r) ls"
  shows "event_handler (resume U P (Suc n)) res (Some r) w =
    thenM (thenM (end_temporary P r)
        (user_run U P (resume U P n) n h (IOResult (answer_of res (iov_base_of w) (specific_data d))) u ls))
      (after_resumption r h)
      (w\<lparr>frames := (frames w)(h \<mapsto> f\<lparr>suspended := False,
           promise := (promise f)\<lparr>com_data := (com_data (promise f))\<lparr>response_store := Monostate\<rparr>\<rparr>\<rparr>)\<rparr>)"
proof -
  let ?iov = "iov_base_of w"
  let ?data = "completion_response res ?iov (specific_data d)"
  let ?c = "com_data (promise f)"
  let ?f = "f\<lparr>promise := (promise f)\<lparr>com_data := publish_resp_data ?data ?c\<rparr>\<rparr>"
  let ?w1 = "w\<lparr>frames := (frames w)(h \<mapsto> ?f)\<rparr>"
  let ?w2 = "w\<lparr>frames := (frames w)(h \<mapsto> ?f\<lparr>suspended := False\<rparr>)\<rparr>"
  let ?w3 = "w\<lparr>frames := (frames w)(h \<mapsto> f\<lparr>suspended := False,
      promise := (promise f)\<lparr>com_data := ?c\<lparr>response_store := Monostate\<rparr>\<rparr>\<rparr>)\<rparr>"
  have type: "aw_type x = Op_type (specific_data d)"
    using assms(3,6) by (simp add: well_tagged_def)
  have "publish_to_promise ?data h w = Inr ((), ?w1)"
    using assms(8) by (simp add: publish_to_promise_def update_promise_def frame_at_def put_frame_def runs)
  then have 1: "event_handler (resume U P (Suc n)) res (Some r) w =
      thenM (resume U P (Suc n) h) (after_resumption r h) ?w1"
    using assms(1,2) well_tagged_response [OF assms(3), of res ?iov]
    by (simp add: event_handler_def request_at_def runs)
  have 2: "begin_resume h ?w1 = Inr (User u (AwaitIO r) ls, ?w2)"
    using assms(9,10) by (simp add: begin_resume_def frame_at_def put_frame_def runs)
  have "IOAwaitable_await_resume r ?w2 = Inr (answer_of res ?iov (specific_data d), ?w3)"
    using assms(4,5,7)
    by (subst await_resume_published [where x = x and h = h and f = "?f\<lparr>suspended := False\<rparr>"
          and c = ?c and res = res and iov = ?iov and p = "specific_data d"]) (simp_all add: type)
  with 1 2 show ?thesis
    by (simp add: co_await_value_def thenM_run bindM_run split: sum.split)
qed

text \<open>
  C3. The coroutine that awaits a request is resumed with its answer. When a completion arrives for a
  request whose tag and union agree, and the coroutine of the user is suspended on it, the handler does
  nothing else than run that coroutine on, with the response of its own operation (or the error code)
  as the value of the \<open>co_await\<close> expression and its channel empty again: the awaitable ends with that
  expression, the code of the user goes on, and what is left to do after it is \<open>after_resumption\<close>.
\<close>

theorem completion_answers_coroutine:
  assumes "requests w r = Some d" and "handle d = Some h" and "well_tagged d"
    and "awaitables w r = Some x" and "channel x = Some h" and "aw_type x = req_type d"
    and "aw_error x = NoErr"
    and "frames w h = Some f" and "suspended f" and "body f = User u (AwaitIO r) ls"
  shows "event_handler (resume U P (Suc n)) res (Some r) w =
    thenM (thenM (end_temporary P r)
        (user_run U P (resume U P n) n h (IOResult (answer_of res (iov_base_of w) (specific_data d))) u ls))
      (after_resumption r h)
      (w\<lparr>frames := (frames w)(h \<mapsto> f\<lparr>suspended := False,
           promise := (promise f)\<lparr>com_data := (com_data (promise f))\<lparr>response_store := Monostate\<rparr>\<rparr>\<rparr>)\<rparr>)"
  by (rule completion_answers_main [OF assms])

theorem completion_answers_coroutine_witness:
  "\<forall>P n. \<exists>w. event_handler (resume sim_uring P (Suc n)) (-9) (Some 1) (waiting idle_ring) =
     thenM (thenM (end_temporary P 1) (user_run sim_uring P (resume sim_uring P n) n 0
       (IOResult \<lparr>io_error = OperationErr 247, io_data = CloseResp \<lparr>error_num = 9, req_fd = 7\<rparr>\<rparr>) 1 []))
       (after_resumption 1 0) w"
proof (intro allI)
  fix P :: "(nat, unit) program" and n
  have req: "requests (waiting idle_ring) 1 = Some (new_RequestData\<lparr>handle := Some 0, req_type := CLOSE,
      specific_data := ClosePack \<lparr>close_p_fd = 7\<rparr>\<rparr>)" by simp
  have "answer_of (-9) (\<lambda>p. p) (ClosePack \<lparr>close_p_fd = 7\<rparr>) =
      \<lparr>io_error = OperationErr 247, io_data = CloseResp \<lparr>error_num = 9, req_fd = 7\<rparr>\<rparr>"
    by (simp add: answer_of_def error_num_of_def word_sless_alt)
  with completion_answers_coroutine [OF req, of 0 _ _ 1 "[]" sim_uring P n "-9"]
  show "\<exists>w. event_handler (resume sim_uring P (Suc n)) (-9) (Some 1) (waiting idle_ring) =
     thenM (thenM (end_temporary P 1) (user_run sim_uring P (resume sim_uring P n) n 0
       (IOResult \<lparr>io_error = OperationErr 247, io_data = CloseResp \<lparr>error_num = 9, req_fd = 7\<rparr>\<rparr>) 1 []))
       (after_resumption 1 0) w"
    by (auto simp: well_tagged_def simp del: resume.simps)
qed

text \<open>
  C10. Every completion of an awaited request ends in a read of a dead object. The request is a member of
  the awaitable, a temporary whose lifetime ends before the code after the \<open>co_await\<close> expression runs;
  whatever that code does, and whether or not its coroutine ends, the handler then reads
  \<open>req_data->handle\<close>. Either the code of the user has met a fault before, or the handler does.
\<close>

theorem awaited_request_read_after_end:
  assumes "\<not> temporaries_stay P"
    and "requests w r = Some d" and "handle d = Some h" and "well_tagged d"
    and "awaitables w r = Some x" and "channel x = Some h" and "aw_type x = req_type d"
    and "aw_error x = NoErr"
    and "frames w h = Some f" and "suspended f" and "body f = User u (AwaitIO r) ls"
    and "r < next_addr w"
  shows "event_handler (resume U P (Suc n)) res (Some r) w =
    (case user_run U P (resume U P n) n h (IOResult (answer_of res (iov_base_of w) (specific_data d))) u ls
        (w\<lparr>frames := (frames w)(h \<mapsto> f\<lparr>suspended := False,
             promise := (promise f)\<lparr>com_data := (com_data (promise f))\<lparr>response_store := Monostate\<rparr>\<rparr>\<rparr>),
           requests := (requests w)(r := None), awaitables := (awaitables w)(r := None)\<rparr>) of
       Inl e \<Rightarrow> Inl e | Inr (y, w') \<Rightarrow> Inl UseAfterFree)"
proof -
  let ?f = "f\<lparr>suspended := False,
      promise := (promise f)\<lparr>com_data := (com_data (promise f))\<lparr>response_store := Monostate\<rparr>\<rparr>\<rparr>"
  let ?v = "w\<lparr>frames := (frames w)(h \<mapsto> ?f), requests := (requests w)(r := None),
      awaitables := (awaitables w)(r := None)\<rparr>"
  let ?run = "user_run U P (resume U P n) n h (IOResult (answer_of res (iov_base_of w) (specific_data d))) u ls"
  have ended: "end_temporary P r (w\<lparr>frames := (frames w)(h \<mapsto> ?f)\<rparr>) = Inr ((), ?v)"
    using assms(1) by (simp add: end_temporary_def runs)
  have event: "event_handler (resume U P (Suc n)) res (Some r) w =
      (case ?run ?v of Inl e \<Rightarrow> Inl e | Inr (y, w') \<Rightarrow> after_resumption r h w')"
    unfolding completion_answers_main [OF assms(2-11)] by (simp add: thenM_run ended split: sum.split)
  have "after_resumption r h w' = Inl UseAfterFree" if "?run ?v = Inr (y, w')" for y w'
    using user_run_gone [OF that] assms(12) by (simp add: after_resumption_def request_at_def runs)
  then show ?thesis unfolding event by (auto split: sum.split)
qed

theorem awaited_request_read_after_end_witness:
  "\<exists>w. event_handler (resume sim_uring (ending False) 2) 0 (Some 1) w = Inl UseAfterFree \<and>
     w = waiting idle_ring"
proof -
  have "requests (waiting idle_ring) 1 = Some (new_RequestData\<lparr>handle := Some 0, req_type := CLOSE,
      specific_data := ClosePack \<lparr>close_p_fd = 7\<rparr>\<rparr>)" by simp
  note run = awaited_request_read_after_end [OF _ this, of "ending False" 0 _ _ 1 "[]" sim_uring 1 0]
  show ?thesis
    using run
    by (simp add: well_tagged_def ending_def numeral_2_eq_2 co_return_with_def return_value_def promise_at_def
        frame_at_def drop_tasks_def final_suspend_def free_frame_def free_homed_def new_promise_def runs
        del: resume.simps)
qed

text \<open>
  C9. When the coroutine ends while its completion is being handled, the handler uses what is freed: if
  the resumption leaves no frame at the handle of the request, the test that follows reads the request,
  which is gone with the frame, or the promise. No run of the event loop therefore frees a slot of
  \<open>_managed_coroutines_store\<close> after the coroutine it belongs to has ended.
\<close>

theorem ended_coroutine_is_read:
  assumes "requests w r = Some d" and "handle d = Some h" and "well_tagged d"
    and "thenM (publish_to_promise (completion_response res (iov_base_of w) (specific_data d)) h) (rs h) w =
      Inr ((), v)"
    and "frames v h = None" and "\<And>d'. requests v r = Some d' \<Longrightarrow> handle d' \<noteq> None"
  shows "event_handler rs res (Some r) w = Inl UseAfterFree"
proof -
  let ?data = "completion_response res (iov_base_of w) (specific_data d)"
  have "after_resumption r h v = Inl UseAfterFree"
  proof (cases "requests v r")
    case None
    then show ?thesis by (simp add: after_resumption_def request_at_def runs)
  next
    case (Some d')
    then obtain h' where "handle d' = Some h'" using assms(6) by blast
    with Some assms(5) show ?thesis
      by (simp add: after_resumption_def request_at_def promise_is_done_def promise_at_def
          frame_at_def runs)
  qed
  moreover have "event_handler rs res (Some r) w =
      thenM (publish_to_promise ?data h) (thenM (rs h) (after_resumption r h)) w"
    using assms(1,2) well_tagged_response [OF assms(3), of res "iov_base_of w"]
    by (simp add: event_handler_def request_at_def runs)
  moreover have "thenM (publish_to_promise ?data h) (thenM (rs h) (after_resumption r h)) w =
      thenM (thenM (publish_to_promise ?data h) (rs h)) (after_resumption r h) w"
    by (simp add: thenM_def bindM_assoc)
  ultimately show ?thesis using assms(4) by (simp add: thenM_run)
qed

theorem ended_coroutine_is_read_witness:
  "event_handler (\<lambda>h. thenM (free_frame h) (free_homed h)) 0 (Some 1) (waiting idle_ring) =
     Inl UseAfterFree"
proof -
  let ?rs = "\<lambda>h. thenM (free_frame h) (free_homed h)"
  let ?d = "new_RequestData\<lparr>handle := Some 0, req_type := CLOSE, specific_data := ClosePack \<lparr>close_p_fd = 7\<rparr>\<rparr>"
  have "\<exists>v. thenM (publish_to_promise (completion_response 0 (iov_base_of (waiting idle_ring))
      (specific_data ?d)) 0) (?rs 0) (waiting idle_ring) = Inr ((), v) \<and> frames v 0 = None \<and> requests v 1 = None"
    by (simp add: publish_to_promise_def update_promise_def frame_at_def put_frame_def free_frame_def
        free_homed_def runs)
  then obtain v where v: "thenM (publish_to_promise (completion_response 0 (iov_base_of (waiting idle_ring))
      (specific_data ?d)) 0) (?rs 0) (waiting idle_ring) = Inr ((), v)" "frames v 0 = None" "requests v 1 = None"
    by blast
  show ?thesis
    by (rule ended_coroutine_is_read [where rs = ?rs and d = ?d and h = 0 and v = v, OF _ _ _ v(1,2)])
      (use v(3) in \<open>simp_all add: well_tagged_def\<close>)
qed

text \<open>
  C16. A submission that takes nothing is answered at once: the coroutine that awaits the request is
  resumed before \<open>await_suspend\<close> returns, with the errno of the submission as the error and the
  value-initialised response, and no request is counted as in flight. The prepared entry stays in the
  ring, with the address of the request data.
\<close>

theorem refused_submission_answered:
  assumes "ring_open w" and "requests w a = Some d" and "well_tagged d"
    and "awaitables w a = Some x" and "aw_type x = req_type d" and "aw_error x = NoErr"
    and "SQE x = Some s"
    and "frames w h = Some f" and "suspended f" and "body f = User u (AwaitIO a) ls"
    and "u_submit U (u_set_data U s a (u_prep U s (prep_of (specific_data d)) (ring w))) = (k, r')"
    and "k <s 1"
  shows "IOAwaitable_await_suspend U (resume U P (Suc n)) h a w =
    thenM (end_temporary P a) (user_run U P (resume U P n) n h
      (IOResult \<lparr>io_error = LiburingSubmissionErr (ucast (- k)), io_data = RespData_init (req_type d)\<rparr>) u ls)
      (w\<lparr>requests := (requests w)(a \<mapsto> d\<lparr>handle := Some h, coro_idx := metadata (promise f),
           coro_finished := task_status_ptr (promise f)\<rparr>),
         ring := r',
         awaitables := (awaitables w)(a \<mapsto> x\<lparr>channel := Some h,
           aw_error := LiburingSubmissionErr (ucast (- k))\<rparr>),
         frames := (frames w)(h \<mapsto> f\<lparr>suspended := False\<rparr>)\<rparr>)"
proof -
  have type: "Op_type (specific_data d) = aw_type x"
    using assms(3,5) by (simp add: well_tagged_def)
  have k: "\<not> 0 <s k" using assms(12) by (simp add: less_one_signed)
  show ?thesis
    using assms(1,2,4-12) k
    by (simp add: IOAwaitable_await_suspend_def IOAwaitable_await_resume_def promise_at_def frame_at_def
        update_awaitable_def awaitable_at_def update_request_def request_at_def non_null_def
        prepare_sqring_op_def prepare_member_run type io_uring_prep_def io_uring_sqe_set_data_def
        on_ring_def submit_run begin_resume_def put_frame_def set_error_from_num_def
        is_there_an_error_iff co_await_value_def runs split: sum.split)
qed

theorem refused_submission_answered_witness:
  "\<forall>P n. \<exists>w. IOAwaitable_await_suspend sim_uring (resume sim_uring P (Suc n)) 0 1
       (waiting (idle_ring\<lparr>sim_refuse := Some (-16)\<rparr>)) =
     thenM (end_temporary P 1) (user_run sim_uring P (resume sim_uring P n) n 0
       (IOResult \<lparr>io_error = LiburingSubmissionErr 16, io_data = RespData_init CLOSE\<rparr>) 1 []) w"
proof (intro allI)
  fix P :: "(nat, unit) program" and n
  let ?w = "waiting (idle_ring\<lparr>sim_refuse := Some (-16)\<rparr>)"
  let ?d = "new_RequestData\<lparr>handle := Some 0, req_type := CLOSE, specific_data := ClosePack \<lparr>close_p_fd = 7\<rparr>\<rparr>"
  have "u_submit sim_uring (u_set_data sim_uring 0 1 (u_prep sim_uring 0 (prep_of (specific_data ?d)) (ring ?w))) =
      (-16, idle_ring\<lparr>sim_refuse := Some (-16)\<rparr>)"
    by (simp add: sim_submit_def sim_entry_def Let_def idle_ring_def word_sless_alt)
  then show "\<exists>w. IOAwaitable_await_suspend sim_uring (resume sim_uring P (Suc n)) 0 1 ?w =
     thenM (end_temporary P 1) (user_run sim_uring P (resume sim_uring P n) n 0
       (IOResult \<lparr>io_error = LiburingSubmissionErr 16, io_data = RespData_init CLOSE\<rparr>) 1 []) w"
    by (subst refused_submission_answered [where d = ?d and k = "-16" and u = 1 and ls = "[]"])
      (auto simp: well_tagged_def word_sless_alt simp del: sim_uring_simps)
qed

text \<open>
  C17. A full submission queue is answered without suspension: the \<open>co_await\<close> expression of any of the
  twelve operations has the error \<open>SUBMISSION_QUEUE_FULL\<close> and a value-initialised response of its type,
  and the coroutine goes on where it is, with nothing prepared or submitted.
\<close>

theorem full_queue_answered:
  assumes "manager_life_state w \<le> LIVING" and "ring_open w" and "u_get_sqe U (ring w) = (None, r')"
  shows "\<exists>w'. do_action U P rs h ls (CoAwaitIO p u) w =
      Inr (Some (IOResult \<lparr>io_error = EventManagerErr SUBMISSION_QUEUE_FULL,
        io_data = RespData_init (Op_type p)\<rparr>, u, ls), w') \<and>
    ring w' = r' \<and> frames w' = frames w \<and> in_flight_requests w' = in_flight_requests w"
  using assms
  by (simp add: ev_request_eq restricted_awaitable_def make_awaitable_run get_uring_sqe_def
      should_restrict_usage_def io_uring_get_sqe_def on_ring_def new_request_run update_request_def
      request_at_def IOAwaitable_await_ready_def IOAwaitable_await_resume_def awaitable_at_def runs
      co_await_value_def end_temporary_def is_there_an_error_iff not_less [symmetric])

theorem full_queue_answered_witness:
  "\<forall>P. \<exists>w. do_action sim_uring P (\<lambda>h. returnM ()) 0 [] (CoAwaitIO (ClosePack \<lparr>close_p_fd = 7\<rparr>) 2)
       (waiting (idle_ring\<lparr>sim_depth := 0\<rparr>)) =
     Inr (Some (IOResult \<lparr>io_error = EventManagerErr SUBMISSION_QUEUE_FULL,
       io_data = RespData_init CLOSE\<rparr>, 2, []), w)"
  using full_queue_answered [of "waiting (idle_ring\<lparr>sim_depth := 0\<rparr>)" sim_uring
      "idle_ring\<lparr>sim_depth := 0\<rparr>" _ "\<lambda>h. returnM ()" 0 "[]" "ClosePack \<lparr>close_p_fd = 7\<rparr>" 2]
  by (auto simp: sim_get_sqe_def idle_ring_def simp del: do_action.simps)

text \<open>
  C15. An awaited request that is accepted: the coroutine is suspended at its \<open>co_await\<close> with the awaitable
  in its frame; the request carries the handle of the coroutine, the index of its slot and the pointer to
  its done flag, its tag and its arguments; the entry is prepared with these arguments and the address of
  the request, and what the submission takes is counted as in flight.
\<close>

theorem awaited_request_submitted:
  assumes "manager_life_state w \<le> LIVING" and "ring_open w" and "u_get_sqe U (ring w) = (Some s, r1)"
    and "frames w h = Some f" and "a = next_addr w"
    and "u_submit U (u_set_data U s a (u_prep U s (prep_of p) r1)) = (k, r2)" and "\<not> k <s 1"
  shows "do_action U P rs h ls (CoAwaitIO p u) w =
    Inr (None, w\<lparr>next_addr := Suc a, request_home := (request_home w)(a \<mapsto> h),
      frames := (frames w)(h \<mapsto> f\<lparr>suspended := True, body := User u (AwaitIO a) ls\<rparr>),
      awaitables := (awaitables w)(a \<mapsto>
        \<lparr>channel = Some h, aw_type = Op_type p, aw_error = NoErr, SQE = Some s\<rparr>),
      requests := (requests w)(a \<mapsto>
        \<lparr>handle = Some h, coro_idx = metadata (promise f), coro_finished = task_status_ptr (promise f),
         req_type = Op_type p, allocated_dynamic = False, specific_data = p\<rparr>),
      ring := r2, in_flight_requests := in_flight_requests w + scast k\<rparr>)"
  using assms
  by (simp add: ev_request_eq restricted_awaitable_def make_awaitable_run get_uring_sqe_def
      should_restrict_usage_def io_uring_get_sqe_def on_ring_def new_request_run update_request_def
      request_at_def IOAwaitable_await_ready_def IOAwaitable_await_suspend_def awaitable_at_def runs
      suspend_at_def frame_at_def put_frame_def promise_at_def update_awaitable_def non_null_def
      prepare_sqring_op_def prepare_member_run io_uring_prep_def io_uring_sqe_set_data_def submit_run
      new_RequestData_def less_one_signed is_there_an_error_iff not_less [symmetric])

theorem awaited_request_submitted_witness:
  "\<forall>P. \<exists>w. do_action sim_uring P (\<lambda>h. returnM ()) 0 [] (CoAwaitIO (ClosePack \<lparr>close_p_fd = 7\<rparr>) 2)
       (waiting idle_ring) = Inr (None, w) \<and> in_flight_requests w = 1 \<and>
     sim_taken (ring w) = [(Some (PrepClose 7), Some 2)]"
proof
  fix P :: "(nat, unit) program"
  let ?r = "idle_ring\<lparr>sim_queued := [(None, None)]\<rparr>"
  have "u_submit sim_uring (u_set_data sim_uring 0 2 (u_prep sim_uring 0 (prep_of (ClosePack \<lparr>close_p_fd = 7\<rparr>)) ?r)) =
      (1, idle_ring\<lparr>sim_head := 1, sim_taken := [(Some (PrepClose 7), Some 2)]\<rparr>)"
    by (simp add: sim_submit_def sim_entry_def Let_def idle_ring_def)
  then show "\<exists>w. do_action sim_uring P (\<lambda>h. returnM ()) 0 [] (CoAwaitIO (ClosePack \<lparr>close_p_fd = 7\<rparr>) 2)
       (waiting idle_ring) = Inr (None, w) \<and> in_flight_requests w = 1 \<and>
     sim_taken (ring w) = [(Some (PrepClose 7), Some 2)]"
    by (subst awaited_request_submitted [where s = 0 and ?r1.0 = ?r and k = 1])
      (auto simp: sim_get_sqe_def idle_ring_def waiting_def empty_world_def word_sless_alt simp del: do_action.simps)
qed

subsection \<open>Requests nobody awaits\<close>

text \<open>
  C18. The completions of requests nobody awaits are kept in the order they arrive, without resuming
  anything, and given out from the end: once a coroutine polls, the next turn of the event loop hands
  it the response that arrived last, as the completion of a request with the polling coroutine as its
  handle, and keeps the earlier ones.
\<close>

theorem ready_responses_lifo:
  assumes "\<forall>y \<in> set (xs @ [(res0, r0)]). \<exists>d. requests w (snd y) = Some d \<and> handle d = None"
    and "requests w r0 = Some d0" and "polling_handle w = Some h"
  shows "thenM (mapM (\<lambda>(res, r). event_handler rs res (Some r)) (xs @ [(res0, r0)])) (deliver_ready rs) w =
    event_handler rs res0 (Some r0)
      (w\<lparr>ready_requests_store := ready_requests_store w @ xs,
         requests := (requests w)(r0 \<mapsto> d0\<lparr>handle := Some h\<rparr>)\<rparr>)"
proof -
  have "mapM (\<lambda>(res, r). event_handler rs res (Some r)) ys v =
      Inr (map (\<lambda>_. ()) ys, v\<lparr>ready_requests_store := ready_requests_store v @ ys\<rparr>)"
    if "\<forall>y \<in> set ys. \<exists>d. requests v (snd y) = Some d \<and> handle d = None" for ys v
    using that
  proof (induction ys arbitrary: v)
    case Nil
    then show ?case by simp
  next
    case (Cons y ys)
    let ?v = "v\<lparr>ready_requests_store := ready_requests_store v @ [y]\<rparr>"
    obtain res r where y: "y = (res, r)" by (cases y)
    from Cons.prems y obtain d where "requests v r = Some d" "handle d = None" by auto
    with y have "event_handler rs res (Some r) v = Inr ((), ?v)"
      by (simp add: event_handler_def request_at_def runs)
    moreover have "mapM (\<lambda>(res, r). event_handler rs res (Some r)) ys ?v =
        Inr (map (\<lambda>_. ()) ys, ?v\<lparr>ready_requests_store := ready_requests_store ?v @ ys\<rparr>)"
      by (rule Cons.IH) (use Cons.prems in simp)
    ultimately show ?case by (simp add: bindM_run y)
  qed
  from this [OF assms(1)] show ?thesis
    using assms(2,3)
    by (simp add: deliver_ready_def update_request_def request_at_def runs butlast_append
        append_assoc [symmetric] del: append_assoc)
qed

theorem ready_responses_lifo_witness:
  "\<exists>w. thenM (mapM (\<lambda>(res, r). event_handler (\<lambda>h. returnM ()) res (Some r)) [(3, 5), (4, 6)]) (deliver_ready (\<lambda>h. returnM ()))
       ((empty_world LIVING idle_ring :: (nat, sim_ring) manager)
         \<lparr>requests := [5 \<mapsto> new_RequestData, 6 \<mapsto> new_RequestData], polling_handle := Some 0\<rparr>) =
     event_handler (\<lambda>h. returnM ()) 4 (Some 6) w \<and> ready_requests_store w = [(3, 5)]"
  using ready_responses_lifo [of "[(3, 5)]" 4 6 "(empty_world LIVING idle_ring :: (nat, sim_ring) manager)
      \<lparr>requests := [5 \<mapsto> new_RequestData, 6 \<mapsto> new_RequestData], polling_handle := Some 0\<rparr>"
      new_RequestData 0 "\<lambda>h. returnM ()"]
  by (auto simp: new_RequestData_def empty_world_def)

end
