(* ===== verification/Em_Examples.thy ===== *)
theory Em_Examples
  imports Em_System
begin

text \<open>
  The example programs of the repository (\<open>examples/\<close>), as code of the user: each coroutine is a
  datatype of its points and a function from a point, and the value of the expression that has just
  been evaluated, to the next operation on the library. What the examples ask of the system itself is
  a parameter: the descriptors \<open>open\<close> and \<open>socket\<close> return and the addresses of their buffers. What
  they print is not modelled.

  \<open>with_task\<close> and its like take the value the last expression has; the other kinds of result are cases
  that no run reaches.

  The second part is what the kernel needs to run them: the definitions of a run as one collection of
  equations, with the counters of the bounded loops unfolded as they are reached.
\<close>

definition with_task :: "result \<Rightarrow> (addr \<Rightarrow> ('u, 'h) action) \<Rightarrow> ('u, 'h) action" where
  "with_task r f = (case r of NewTask t \<Rightarrow> f t | _ \<Rightarrow> Throw 0)"

definition with_response :: "result \<Rightarrow> (IOResponse \<Rightarrow> ('u, 'h) action) \<Rightarrow> ('u, 'h) action" where
  "with_response r f = (case r of IOResult resp \<Rightarrow> f resp | _ \<Rightarrow> Throw 0)"

definition with_code :: "result \<Rightarrow> (csize \<Rightarrow> ('u, 'h) action) \<Rightarrow> ('u, 'h) action" where
  "with_code r f = (case r of TaskResult c \<Rightarrow> f c | _ \<Rightarrow> Throw 0)"

lemma with_simps [simp]:
  "with_task (NewTask t) f = f t" "with_response (IOResult resp) g = g resp"
  "with_code (TaskResult c) k = k c"
  by (simp_all add: with_task_def with_response_def with_code_def)

subsection \<open>readme_example.cpp\<close>

text \<open>
  \<open>fd\<close> is the result of \<open>open\<close>, \<open>dst\<close> the buffer. The \<open>EvTask\<close> of \<open>co_await ev->kill()\<close> is a temporary,
  destroyed at the end of the full expression.
\<close>

datatype readme_point =
    ReadmeBegin
  | ReadmeOpenKill
  | ReadmeOpenKilled addr
  | ReadmeOpenEnd
  | ReadmeRead
  | ReadmeClosed
  | ReadmeKill
  | ReadmeKilled addr
  | ReadmeEnd

fun readme_coro :: "cint \<Rightarrow> uptr \<Rightarrow> readme_point \<Rightarrow> result \<Rightarrow> (readme_point, 'h) action" where
  "readme_coro fd dst ReadmeBegin r =
     (if fd <s 0 then CallKill ReadmeOpenKill
      else CoAwaitIO (ReadPack \<lparr>read_p_fd = fd, read_p_buffer = dst, read_p_length = 2048\<rparr>)
             ReadmeRead)"
| "readme_coro fd dst ReadmeOpenKill r = with_task r (\<lambda>t. CoAwaitTask t (ReadmeOpenKilled t))"
| "readme_coro fd dst (ReadmeOpenKilled t) r = DropTask t ReadmeOpenEnd"
| "readme_coro fd dst ReadmeOpenEnd r = CoReturn (-1)"
| "readme_coro fd dst ReadmeRead r =
     CoAwaitIO (ClosePack \<lparr>close_p_fd = fd\<rparr>) ReadmeClosed"
| "readme_coro fd dst ReadmeClosed r = CallKill ReadmeKill"
| "readme_coro fd dst ReadmeKill r = with_task r (\<lambda>t. CoAwaitTask t (ReadmeKilled t))"
| "readme_coro fd dst (ReadmeKilled t) r = DropTask t ReadmeEnd"
| "readme_coro fd dst ReadmeEnd r = CoReturn 0"

text \<open>
  A program without callbacks, with the choices of one standard library; \<open>stay\<close> is what becomes of the
  memory of temporaries.
\<close>

definition plain_program :: "bool \<Rightarrow> ('u \<Rightarrow> result \<Rightarrow> ('u, unit) action) \<Rightarrow> ('u, unit) program" where
  "plain_program stay f = \<lparr>code = f, on_batch = (\<lambda>h t c. (h, c, [])),
     on_poll = (\<lambda>h t c. (STOP_POLLING, h, c, [])), first_freed = Min, next_capacity = (*) 2,
     temporaries_stay = stay\<rparr>"

subsection \<open>simple_coro_example.cpp\<close>

text \<open>
  \<open>dfd\<close> is the descriptor of the directory, \<open>name\<close> and \<open>dst\<close> the addresses of the file name and of the
  buffer. The text of the error is only printed; both ways from there end in \<open>kill\<close>.
\<close>

datatype simple_point =
    SimpleBegin
  | SimpleOpened
  | SimpleFailKill
  | SimpleFailKilled addr
  | SimpleFailEnd
  | SimpleRead cint
  | SimpleClosed
  | SimpleUnlinked
  | SimpleKill
  | SimpleKilled addr
  | SimpleEnd

definition O_RDWR :: cint where
  "O_RDWR = 2"

fun opened_fd :: "RespData \<Rightarrow> cint" where
  "opened_fd (OpenatResp d) = req_fd d"
| "opened_fd d = 0"

fun simple_coro :: "cint \<Rightarrow> uptr \<Rightarrow> uptr \<Rightarrow> simple_point \<Rightarrow> result \<Rightarrow> (simple_point, 'h) action" where
  "simple_coro dfd name dst SimpleBegin r =
     CoAwaitIO (OpenatPack \<lparr>openat_p_dirfd = dfd, openat_p_pathname = name, openat_p_flags = O_RDWR,
       openat_p_mode = 0\<rparr>) SimpleOpened"
| "simple_coro dfd name dst SimpleOpened r = with_response r (\<lambda>resp.
     (if is_there_an_error (io_error resp) then CallKill SimpleFailKill
      else let fd = opened_fd (io_data resp) in
        CoAwaitIO (ReadPack \<lparr>read_p_fd = fd, read_p_buffer = dst, read_p_length = 2048\<rparr>)
          (SimpleRead fd)))"
| "simple_coro dfd name dst SimpleFailKill r = with_task r (\<lambda>t. CoAwaitTask t (SimpleFailKilled t))"
| "simple_coro dfd name dst (SimpleFailKilled t) r = DropTask t SimpleFailEnd"
| "simple_coro dfd name dst SimpleFailEnd r = CoReturn (-1)"
| "simple_coro dfd name dst (SimpleRead fd) r =
     CoAwaitIO (ClosePack \<lparr>close_p_fd = fd\<rparr>) SimpleClosed"
| "simple_coro dfd name dst SimpleClosed r =
     CoAwaitIO (UnlinkatPack \<lparr>unlinkat_p_dirfd = dfd, unlinkat_p_pathname = name,
       unlinkat_p_flags = 0\<rparr>) SimpleUnlinked"
| "simple_coro dfd name dst SimpleUnlinked r = CallKill SimpleKill"
| "simple_coro dfd name dst SimpleKill r = with_task r (\<lambda>t. CoAwaitTask t (SimpleKilled t))"
| "simple_coro dfd name dst (SimpleKilled t) r = DropTask t SimpleEnd"
| "simple_coro dfd name dst SimpleEnd r = CoReturn 0"

subsection \<open>http_example.cpp\<close>

text \<open>
  The text of the answer is written out; \<open>at\<close> is its address. \<open>peer\<close> and \<open>peer_len\<close> are the addresses of
  the accepting coroutine's \<open>addr\<close> and \<open>addrlen\<close>, \<open>listener\<close> the result of \<open>setup_listener\<close>.
\<close>

definition crlf :: string where
  "crlf = [CHR 0x0D, CHR 0x0A]"

definition hello_world :: string where
  "hello_world =
     (let headers_p1 = ''HTTP/1.1 200 OK'' @ crlf @ ''Content-Type: text/html'' @ crlf @
            ''Content-Length: '';
          headers_p2 = crlf @ crlf;
          content = ''Hello World!'' @ crlf
      in headers_p1 @ ''14'' @ headers_p2 @ content)"

lemma hello_world_length: "length hello_world = 78"
  by (simp add: hello_world_def crlf_def)

datatype http_point =
    ServeLoop
  | ServeAccepted
  | ServeRegister
  | ServeRegistered addr
  | HelloBegin cint
  | HelloWrote cint
  | HelloClosed

text \<open>
  The value \<open>send_hello_world\<close> returns for the error of its \<open>close\<close>: a code of the error, as a \<open>size_t\<close>,
  with the default of \<open>value_or\<close>.
\<close>

fun close_error_number :: "ErrorType \<Rightarrow> ErrorCodes \<Rightarrow> csize" where
  "close_error_number NO_ERR e = 0"
| "close_error_number EVENT_MANAGER_ERR e =
     (case get_contained_error_code EVENT_MANAGER_ERR e of
        Some c \<Rightarrow> ucast c | None \<Rightarrow> ucast EventManagerErrors_UNKNOWN_ERROR)"
| "close_error_number Et e =
     (case get_contained_error_code Et e of Some c \<Rightarrow> ucast c | None \<Rightarrow> ucast UNKNOWN_ERROR)"

fun accepted_fd :: "RespData \<Rightarrow> cint" where
  "accepted_fd (AcceptResp d) = accept_fd d"
| "accepted_fd d = 0"

fun http_coro ::
    "cint \<Rightarrow> uptr \<Rightarrow> uptr \<Rightarrow> uptr \<Rightarrow> http_point \<Rightarrow> result \<Rightarrow> (http_point, 'h) action" where
  "http_coro listener peer peer_len at ServeLoop r =
     CoAwaitIO (AcceptPack \<lparr>accept_p_sockfd = listener, accept_p_addr = peer,
       accept_p_addrlen = peer_len\<rparr>) ServeAccepted"
| "http_coro listener peer peer_len at ServeAccepted r = with_response r (\<lambda>resp.
     CallCoro (HelloBegin (accepted_fd (io_data resp))) ServeRegister)"
| "http_coro listener peer peer_len at ServeRegister r = with_task r (\<lambda>t.
     RegisterCoro t (ServeRegistered t))"
| "http_coro listener peer peer_len at (ServeRegistered t) r = DropTask t ServeLoop"
| "http_coro listener peer peer_len at (HelloBegin user_fd) r =
     CoAwaitIO (WritePack \<lparr>write_p_fd = user_fd, write_p_buffer = at,
       write_p_length = of_nat (length hello_world)\<rparr>) (HelloWrote user_fd)"
| "http_coro listener peer peer_len at (HelloWrote user_fd) r = with_response r (\<lambda>write_resp.
     (if is_there_an_error (io_error write_resp) then CoReturn (-1)
      else CoAwaitIO (ClosePack \<lparr>close_p_fd = user_fd\<rparr>) HelloClosed))"
| "http_coro listener peer peer_len at HelloClosed r = with_response r (\<lambda>close_resp.
     (if is_there_an_error (io_error close_resp)
      then CoReturn (close_error_number (get_error_type (io_error close_resp)) (io_error close_resp))
      else CoReturn 0))"

subsection \<open>polling_example.cpp\<close>

text \<open>
  \<open>text_at\<close> gives the address of \<open>write_data.c_str()\<close> for a counter; the sizes of the types \<open>sizeof\<close> is
  applied to are \<open>size_of_string\<close> and \<open>size_of_data\<close>. The callback keeps the counter.
\<close>

record polling_env =
  poll_fd :: cint
  text_at :: "cint \<Rightarrow> uptr"
  poll_buffer :: uptr
  size_of_string :: csize
  size_of_data :: csize

datatype polling_point =
    PollingBegin
  | PollingWrote
  | PollingPoll
  | PollingPolled addr
  | PollingKill
  | PollingKilling
  | PollingKilled addr
  | PollingEnd

fun polling_handler :: "polling_env \<Rightarrow> cint poll_handler" where
  "polling_handler E counter (Some READ) chan =
     (case consume_resp_data READ chan of (resp, chan') \<Rightarrow>
        (CONTINUE_POLLING, counter + 1, chan',
         [WritePack \<lparr>write_p_fd = poll_fd E, write_p_buffer = text_at E (counter + 1),
            write_p_length = size_of_data E\<rparr>]))"
| "polling_handler E counter (Some WRITE) chan =
     (case consume_resp_data WRITE chan of (resp, chan') \<Rightarrow>
        (CONTINUE_POLLING, counter, chan',
         [ReadPack \<lparr>read_p_fd = poll_fd E, read_p_buffer = poll_buffer E, read_p_length = 1024\<rparr>]))"
| "polling_handler E counter t chan = (CONTINUE_POLLING, counter, chan, [])"

fun polling_coro :: "polling_env \<Rightarrow> polling_point \<Rightarrow> result \<Rightarrow> (polling_point, cint) action" where
  "polling_coro E PollingBegin r =
     CallNa (WritePack \<lparr>write_p_fd = poll_fd E, write_p_buffer = text_at E 0,
       write_p_length = size_of_string E\<rparr>) PollingWrote"
| "polling_coro E PollingWrote r = CallPoll 0 PollingPoll"
| "polling_coro E PollingPoll r = with_task r (\<lambda>t. CoAwaitTask t (PollingPolled t))"
| "polling_coro E (PollingPolled t) r = DropTask t PollingKill"
| "polling_coro E PollingKill r = CallKill PollingKilling"
| "polling_coro E PollingKilling r = with_task r (\<lambda>t. CoAwaitTask t (PollingKilled t))"
| "polling_coro E (PollingKilled t) r = DropTask t PollingEnd"
| "polling_coro E PollingEnd r = CoReturn 0"

definition polling_program :: "polling_env \<Rightarrow> (polling_point, cint) program" where
  "polling_program E = \<lparr>code = polling_coro E, on_batch = (\<lambda>h t c. (h, c, [])),
     on_poll = polling_handler E, first_freed = Min, next_capacity = (*) 2, temporaries_stay = False\<rparr>"

subsection \<open>The tasks of event_loop_example.cpp that await one another\<close>

datatype chain_point = Coro1 | Coro2 | Coro3 | Coro4 | ChainCalled | ChainAwaited addr

fun chain_coro :: "chain_point \<Rightarrow> result \<Rightarrow> (chain_point, 'h) action" where
  "chain_coro Coro4 r = CoReturn 2"
| "chain_coro Coro3 r = CallCoro Coro4 ChainCalled"
| "chain_coro Coro2 r = CallCoro Coro3 ChainCalled"
| "chain_coro Coro1 r = CallCoro Coro2 ChainCalled"
| "chain_coro ChainCalled r = with_task r (\<lambda>t. CoAwaitTask t (ChainAwaited t))"
| "chain_coro (ChainAwaited t) r = with_code r CoReturn"

subsection \<open>The mains\<close>

text \<open>
  Each constructs a manager with a queue of ten entries, registers its one coroutine and starts the event
  loop. The signal handlers two of them install are not modelled.
\<close>

definition readme_main ::
    "'r uring \<Rightarrow> nat \<Rightarrow> bool \<Rightarrow> cint \<Rightarrow> uptr \<Rightarrow> (readme_point, unit, 'r, unit) world_op" where
  "readme_main U n stay fd dst = run_main U (plain_program stay (readme_coro fd dst)) n 10 [ReadmeBegin]"

definition simple_main ::
    "'r uring \<Rightarrow> nat \<Rightarrow> bool \<Rightarrow> cint \<Rightarrow> uptr \<Rightarrow> uptr \<Rightarrow> (simple_point, unit, 'r, unit) world_op" where
  "simple_main U n stay dfd name dst =
     run_main U (plain_program stay (simple_coro dfd name dst)) n 10 [SimpleBegin]"

definition http_main ::
    "'r uring \<Rightarrow> nat \<Rightarrow> bool \<Rightarrow> cint \<Rightarrow> uptr \<Rightarrow> uptr \<Rightarrow> uptr \<Rightarrow> (http_point, unit, 'r, unit) world_op" where
  "http_main U n stay listener peer peer_len at =
     run_main U (plain_program stay (http_coro listener peer peer_len at)) n 10 [ServeLoop]"

definition polling_main :: "'r uring \<Rightarrow> nat \<Rightarrow> polling_env \<Rightarrow> (polling_point, cint, 'r, unit) world_op" where
  "polling_main U n E = run_main U (polling_program E) n 10 [PollingBegin]"

text \<open>A main up to the first turn of its event loop, and after a number of turns.\<close>

definition main_turns ::
    "'r uring \<Rightarrow> ('u, 'h) program \<Rightarrow> nat \<Rightarrow> csize \<Rightarrow> 'u list \<Rightarrow> nat \<Rightarrow> ('u, 'h, 'r, unit) world_op" where
  "main_turns U P n queue_depth coros turns =
     thenM (EventManager_construct U queue_depth)
     (thenM (mapM (register_coro_fn U P n) coros)
     (thenM (modifyM (\<lambda>w. w\<lparr>manager_life_state := LIVING\<rparr>))
     (thenM (mapM (\<lambda>_. await_message U (resume U P n)) [0 ..< turns]) (returnM ()))))"

subsection \<open>Running a program\<close>

text \<open>The equations a run is evaluated with.\<close>

lemmas run_defs = EventManagerErrors_UNKNOWN_ERROR_def
  SUBMISSION_QUEUE_FULL_def
  SYSTEM_COMMUNICATION_CHANNEL_FAILURE_def
  UNKNOWN_ERROR_def
  EAGAIN_def
  EDEADLK_def
  ErrorType_of_def
  is_there_an_error_def
  set_error_from_enum_def
  set_error_from_num_def
  get_error_type_def
  RequestTypes_def
  RequestType_of_def
  new_channel_def
  publish_resp_data_def
  consume_resp_data_def
  response_store_current_type_def

  make_request_queue_def
  push_req_def
  queue_read_def
  queue_write_def
  queue_close_def
  queue_shutdown_def
  queue_readv_def
  queue_writev_def
  queue_accept_def
  queue_connect_def
  queue_openat_def
  queue_statx_def
  queue_unlinkat_def
  queue_renameat_def
  specific_data_init_def
  new_RequestData_def
  new_ItemStore_def
  first_of_def
  grown_def
  ItemStore_insert_def
  ItemStore_at_def
  ItemStore_erase_def
  ItemStore_put_def

  new_promise_def
  moved_from_def
  non_null_def
  fresh_addr_def
  frame_at_def
  put_frame_def
  free_frame_def
  promise_at_def
  update_promise_def
  status_at_def
  put_status_def
  free_status_def
  task_at_def
  put_task_def
  free_task_def
  return_value_def
  unhandled_exception_def
  promise_is_done_def
  publish_to_promise_def
  final_suspend_def
  EvTask_construct_def
  new_coroutine_def
  EvTask_move_construct_def
  EvTask_move_assign_def
  EvTask_destruct_def
  set_coro_metadata_def
  get_coro_metadata_def
  rethrow_if_def
  task_finished_def
  EvTask_start_def
  EvTask_resume_def
  EvTask_resume_with_def
  EvTask_is_done_def
  EvTask_await_ready_def
  EvTask_await_suspend_def
  EvTask_await_resume_def
  suspend_at_def
  begin_resume_def
  spawn_def
  drop_task_def
  should_restrict_usage_def
  on_ring_def
  io_uring_get_sqe_def
  io_uring_prep_def
  io_uring_sqe_set_data_def
  submit_queued_entries_def
  get_uring_sqe_def
  sq_pending_def
  sim_get_sqe_def
  sim_entry_def
  sim_submit_def
  sim_wait_cqe_def
  empty_world_def
  idle_ring_def
  request_at_def
  update_request_def
  new_request_def
  delete_request_def
  free_homed_def
  end_temporary_def
  co_await_value_def
  awaitable_at_def
  update_awaitable_def
  submit_request_def
  get_sqe_and_req_data_def
  request_na_def
  read_na_def
  write_na_def
  close_na_def
  shutdown_na_def
  readv_na_def
  writev_na_def
  accept_na_def
  connect_na_def
  openat_na_def
  statx_na_def
  unlinkat_na_def
  renameat_na_def
  process_single_generic_request_def
  IOAwaitable_construct_def
  make_awaitable_def
  ReadAwaitable_def
  WriteAwaitable_def
  CloseAwaitable_def
  ShutdownAwaitable_def
  ReadvAwaitable_def
  WritevAwaitable_def
  AcceptAwaitable_def
  ConnectAwaitable_def
  OpenatAwaitable_def
  StatxAwaitable_def
  UnlinkatAwaitable_def
  RenameatAwaitable_def
  restricted_awaitable_def
  ev_read_def
  ev_write_def
  ev_close_def
  ev_shutdown_def
  ev_readv_def
  ev_writev_def
  ev_accept_def
  ev_connect_def
  ev_openat_def
  ev_statx_def
  ev_unlinkat_def
  ev_renameat_def
  prepare_read_def
  prepare_write_def
  prepare_close_def
  prepare_shutdown_def
  prepare_readv_def
  prepare_writev_def
  prepare_accept_def
  prepare_connect_def
  prepare_openat_def
  prepare_statx_def
  prepare_unlinkat_def
  prepare_renameat_def
  prepare_sqring_op_def
  IOAwaitable_await_ready_def
  IOAwaitable_await_suspend_def
  consume_from_def
  event_handler_def
  after_resumption_def
  register_coro_def
  co_return_with_def
  co_return_def
  co_throw_def
  RetrieveCurrentHandle_await_def
  GenericResponse_await_def
  ring_setup_def
  EventManager_construct_def
  raw_manager_def
  teardown_ring_def
  kill_internal_wait_def
  kill_internal_begin_def
  kill_internal_cancel_def
  kill_begin_def
  kill_end_def
  deliver_ready_def
  await_message_def
  start_def
  call_handler_def
  submit_return_def
  submit_begin_def
  submit_loop_def
  submit_prepare_def
  submit_received_def
  poll_begin_def
  poll_retrieved_def
  poll_received_def
  drop_tasks_def
  destroy_frame_def
  call_coro_def
  register_coro_fn_def
  run_main_def
  readme_main_def
  simple_main_def
  http_main_def
  polling_main_def

lemma flush_unfold: "flush_queue U (numeral n) = bindM (sq_pending U) (\<lambda>pending.
     if pending = 0 then returnM ()
     else thenM (submit_queued_entries U) (flush_queue U (pred_numeral n)))"
  by (subst flush_queue.simps) (simp add: numeral_eq_Suc cong: if_cong)

lemma retry_unfold: "retry_get_sqe U (numeral n) = bindM (io_uring_get_sqe U) (\<lambda>sqe. case sqe of
     None \<Rightarrow> retry_get_sqe U (pred_numeral n)
   | Some s \<Rightarrow> returnM (Some s))"
  by (simp add: numeral_eq_Suc)

lemma fuel_unfold:
  "resume U P (numeral n) h = bindM (begin_resume h) (\<lambda>b.
     segment U P (resume U P (pred_numeral n)) (pred_numeral n) h b)"
  "user_run U P rs (numeral n) h r u ls =
     bindM (do_action U P rs h ls (code P u r)) (\<lambda>x. case x of
       None \<Rightarrow> returnM ()
     | Some (r, u, ls) \<Rightarrow> user_run U P rs (pred_numeral n) h r u ls)"
  "start_loop U rs (numeral n) =
     bindM (getM manager_life_state) (\<lambda>life.
     if life < DEAD then thenM (await_message U rs) (start_loop U rs (pred_numeral n))
     else returnM ())"
  by (simp_all add: numeral_eq_Suc)

text \<open>
  The two places where the flow of control would be split on the result of a request: the response
  is kept as one term, and so is the error it is turned into.
\<close>

lemma await_resume_joined: "IOAwaitable_await_resume a =
     bindM (awaitable_at a) (\<lambda>this.
     if is_there_an_error (aw_error this)
     then returnM \<lparr>io_error = aw_error this, io_data = RespData_init (aw_type this)\<rparr>
     else
       bindM (non_null (channel this)) (\<lambda>ch.
       bindM (consume_from (aw_type this) ch) (\<lambda>val.
       case val of
         None \<Rightarrow> returnM \<lparr>io_error = set_error_from_enum EVENT_MANAGER_ERR (aw_error this)
                   SYSTEM_COMMUNICATION_CHANNEL_FAILURE, io_data = RespData_init (aw_type this)\<rparr>
       | Some data \<Rightarrow> returnM \<lparr>io_error = (if RespData_error_num data \<noteq> 0
             then set_error_from_num OPERATION_ERR_ERRNO (aw_error this) (- RespData_error_num data)
             else NoErr), io_data = data\<rparr>)))"
  by (rule ext)
    (simp add: IOAwaitable_await_resume_def Let_def runs split: sum.split option.split prod.split)

lemma own_responses:
  "handler_response READ res iov (ReadPack p1) = Some (completion_response res iov (ReadPack p1))"
  "handler_response WRITE res iov (WritePack p2) = Some (completion_response res iov (WritePack p2))"
  "handler_response CLOSE res iov (ClosePack p3) = Some (completion_response res iov (ClosePack p3))"
  "handler_response ACCEPT res iov (AcceptPack p4) =
     Some (completion_response res iov (AcceptPack p4))"
  "handler_response OPENAT res iov (OpenatPack p5) =
     Some (completion_response res iov (OpenatPack p5))"
  "handler_response UNLINKAT res iov (UnlinkatPack p6) =
     Some (completion_response res iov (UnlinkatPack p6))"
  using handler_response_own [of "ReadPack p1"] handler_response_own [of "WritePack p2"]
    handler_response_own [of "ClosePack p3"] handler_response_own [of "AcceptPack p4"]
    handler_response_own [of "OpenatPack p5"] handler_response_own [of "UnlinkatPack p6"]
  by (simp_all only: Op_type.simps)

lemma small_results:
  "0 <s (1 :: cint)" "\<not> 1 <s (1 :: cint)" "0 <s (2 :: cint)" "\<not> 2 <s (1 :: cint)" "\<not> 0 <s (0 :: cint)"
  by (simp_all add: word_sless_alt)

lemmas evaluation = run_defs runs Let_def LivingState_order flush_unfold retry_unfold MAX_ITER_def
  fuel_unfold await_resume_joined own_responses small_results plain_program_def

declare handler_response.simps [simp del] completion_response.simps [simp del]

abbreviation fresh_manager :: "('b, sim_ring) manager" where
  "fresh_manager \<equiv> raw_manager (-1) 0 (\<lambda>p. p) idle_ring"

text \<open>
  C5. The run of the README's program, whatever the kernel gives to its read, its close and its
  cancellation, and whatever file it has opened. As the language defines it, it ends in a fault: while
  the read is in flight, in the request that is part of the awaitable of \<open>co_await ev->read(...)\<close>, the
  handler publishes the response and resumes the coroutine; the coroutine takes it, the awaitable
  ends, the close is submitted, and the handler then reads the request that has ended with the
  awaitable. Where the compiler leaves the memory of the awaitable as it was, the event loop returns
  with the manager dead, its ring closed, no request in flight and no coroutine frame left.
\<close>

theorem readme_run:
  "\<not> fd <s 0 \<longrightarrow>
     (\<exists>w q v. main_turns (scripted [r1, r2, r3]) (plain_program False (readme_coro fd dst)) 30 10
            [ReadmeBegin] 0 fresh_manager = Inr ((), w) \<and>
          sim_taken (ring w) = [(Some (PrepRead fd dst 2048 0), Some 6)] \<and>
          requests w 6 = Some q \<and> handle q = Some 3 \<and>
          thenM (publish_to_promise (completion_response r1 (iov_base_of w) (specific_data q)) 3)
            (resume (scripted [r1, r2, r3]) (plain_program False (readme_coro fd dst)) 30 3) w =
            Inr ((), v) \<and>
          requests v 6 = None \<and> Some (PrepClose fd) \<in> fst ` set (sim_taken (ring v))) \<and>
     readme_main (scripted [r1, r2, r3]) 30 False fd dst fresh_manager = Inl UseAfterFree \<and>
     (\<exists>w. readme_main (scripted [r1, r2, r3]) 30 True fd dst fresh_manager = Inr ((), w) \<and>
          manager_life_state w = DEAD \<and> \<not> ring_open w \<and> in_flight_requests w = 0 \<and>
          frames w = Map.empty)"
  by (simp add: evaluation main_turns_def split del: if_split)

theorem readme_run_witness:
  "readme_main (scripted [-5, 0, 1]) 30 False 7 64 fresh_manager = Inl UseAfterFree \<and>
   (\<exists>w. readme_main (scripted [-5, 0, 1]) 30 True 7 64 fresh_manager = Inr ((), w) \<and>
     manager_life_state w = DEAD)"
  using readme_run [of 7 "-5" 0 1 64] by (simp add: word_sless_alt) blast

text \<open>
  C25. When the file of the README's program cannot be opened the coroutine kills the manager while it is
  being registered, before the event loop is started: \<open>start\<close> then returns at once, and the program
  ends with the cancellation in flight, the ring open, and the coroutine still waiting for \<open>kill\<close>, so
  that its \<open>co_return -1\<close> never runs.
\<close>

theorem readme_open_failure_stuck:
  "fd <s 0 \<longrightarrow>
     (\<exists>w f. readme_main (scripted script) 30 stay fd dst fresh_manager = Inr ((), w) \<and>
          manager_life_state w = DYING \<and> ring_open w \<and> in_flight_requests w = 1 \<and>
          frames w 3 = Some f \<and> suspended f \<and> (\<exists>t. body f = User (ReadmeOpenKilled t) (AwaitTask t) [t]))"
  by (simp add: evaluation split del: if_split)

theorem readme_open_failure_stuck_witness:
  "\<exists>w. readme_main (scripted []) 30 False (-1) 64 fresh_manager = Inr ((), w) \<and> manager_life_state w = DYING"
  using readme_open_failure_stuck [of "-1" "[]" False 64] by (simp add: word_sless_alt) blast

lemma error_num_iff: "error_num_of res = 0 \<longleftrightarrow> \<not> res <s 0"
  by (auto simp: error_num_of_def word_sless_alt)

text \<open>
  The program that opens, reads, closes and removes a file, whatever its requests give: as the
  language defines it, the handler of its first completion reads the request of an awaitable that has
  ended, whether the file was opened or not. Where the compiler leaves the memory of awaitables as it was,
  the program ends: with 0 as the result of its coroutine, or, when the file cannot be opened, with -1
  after the coroutine has killed the manager.
\<close>

lemma simple_run:
  "simple_main (scripted [r1, r2, r3, r4, r5]) 40 False dfd name dst fresh_manager = Inl UseAfterFree \<and>
   (\<exists>w x s. simple_main (scripted [r1, r2, r3, r4, r5]) 40 True dfd name dst fresh_manager = Inr ((), w) \<and>
     manager_life_state w = DEAD \<and> \<not> ring_open w \<and> in_flight_requests w = 0 \<and>
     frames w = Map.empty \<and> items (managed_coroutines_store w) = [x] \<and> own_status x = Some s \<and>
     statuses w s = Some \<lparr>handler_done = True, ret_code = (if r1 <s 0 then -1 else 0)\<rparr>)"
  by (cases "r1 <s 0") (simp_all add: evaluation error_num_iff split del: if_split)

text \<open>
  The descriptor an accept response holds, and the turns of the HTTP example. The responses of its
  ring are to the first client's accept and write, the second client's accept, and the first client's
  close, in the order of their submission.
\<close>

definition accepted :: "cint \<Rightarrow> cint" where
  "accepted res = (if res <s 0 then 0 else res)"

lemma accepted_fd_completion [simp]:
  "accepted_fd (completion_response res iov (AcceptPack p)) = accepted res"
  by (simp add: completion_response.simps accepted_def)

definition http_turns ::
    "cint list \<Rightarrow> bool \<Rightarrow> cint \<Rightarrow> uptr \<Rightarrow> uptr \<Rightarrow> uptr \<Rightarrow> nat \<Rightarrow> (http_point, unit, sim_ring, unit) world_op" where
  "http_turns results stay listener peer peer_len at turns = main_turns (scripted results)
     (plain_program stay (http_coro listener peer peer_len at)) 40 10 [ServeLoop] turns"

lemma turns_listed:
  "[0 ..< 2] = [0, 1 :: nat]" "[0 ..< 3] = [0, 1, 2 :: nat]" "[0 ..< 4] = [0, 1, 2, 3 :: nat]"
  by (simp_all add: upt_rec)

lemmas http_evaluation = evaluation http_turns_def main_turns_def error_num_iff hello_world_length turns_listed

lemma http_first_turn:
  "\<exists>w. http_turns [r1, r2, r3, r4] True listener peer peer_len at 1 fresh_manager = Inr ((), w) \<and>
     map fst (sim_taken (ring w)) =
       [Some (PrepWrite (accepted r1) at 78 0), Some (PrepAccept listener peer peer_len 0)]"
  "http_turns [r1, r2, r3, r4] False listener peer peer_len at 1 fresh_manager = Inl UseAfterFree"
  by (simp_all add: http_evaluation split del: if_split)

lemma http_later_turns:
  "if r2 <s 0 then http_turns [r1, r2, r3, r4] True listener peer peer_len at 2 fresh_manager = Inl UseAfterFree
   else
     (\<exists>w. http_turns [r1, r2, r3, r4] True listener peer peer_len at 3 fresh_manager = Inr ((), w) \<and>
        map fst (sim_taken (ring w)) = [Some (PrepClose (accepted r1)),
          Some (PrepWrite (accepted r3) at 78 0), Some (PrepAccept listener peer peer_len 0)]) \<and>
     http_turns [r1, r2, r3, r4] True listener peer peer_len at 4 fresh_manager = Inl UseAfterFree"
  by (cases "r2 <s 0"; cases "r4 <s 0") (simp_all add: http_evaluation split del: if_split)

lemma http_main_fault:
  "http_main (scripted [r1, r2, r3, r4]) 40 True listener peer peer_len at fresh_manager = Inl UseAfterFree"
  by (cases "r2 <s 0"; cases "r4 <s 0") (simp_all add: evaluation error_num_iff split del: if_split)

text \<open>
  C24. The HTTP example ends in a fault when its first client has been answered, even where the compiler
  leaves the memory of awaitables as it was. The first turn takes the client in: the write of the 78
  bytes of the answer to its descriptor is submitted, and the next accept. If the write fails, the coroutine of
  the client ends inside the handler of that completion, in the second turn, and the handler looks at the
  request and the promise, which lived in its frame. If it succeeds, the close of the client's
  descriptor is submitted, a second client is taken in, and the same happens in the fourth turn, whatever the
  close gives. As the language defines it, the first turn faults, in the handler of the accept.
\<close>

theorem hello_world_uses_freed_frame:
  "(\<exists>w. http_turns [r1, r2, r3, r4] True listener peer peer_len at 1 fresh_manager = Inr ((), w) \<and>
      map fst (sim_taken (ring w)) =
        [Some (PrepWrite (accepted r1) at 78 0), Some (PrepAccept listener peer peer_len 0)]) \<and>
   (if r2 <s 0 then http_turns [r1, r2, r3, r4] True listener peer peer_len at 2 fresh_manager = Inl UseAfterFree
    else
      (\<exists>w. http_turns [r1, r2, r3, r4] True listener peer peer_len at 3 fresh_manager = Inr ((), w) \<and>
         map fst (sim_taken (ring w)) = [Some (PrepClose (accepted r1)),
           Some (PrepWrite (accepted r3) at 78 0), Some (PrepAccept listener peer peer_len 0)]) \<and>
      http_turns [r1, r2, r3, r4] True listener peer peer_len at 4 fresh_manager = Inl UseAfterFree) \<and>
   http_main (scripted [r1, r2, r3, r4]) 40 True listener peer peer_len at fresh_manager = Inl UseAfterFree \<and>
   http_turns [r1, r2, r3, r4] False listener peer peer_len at 1 fresh_manager = Inl UseAfterFree"
  by (intro conjI http_first_turn http_later_turns http_main_fault)

text \<open>
  The tasks of \<open>event_loop_example.cpp\<close>, run by the kernel: the chain yields the value of the innermost
  one when it is started, without the ring being used, and it cannot be registered, since a coroutine
  that ends while \<open>register_coro\<close> starts it cannot be moved afterwards.
\<close>

lemma chain_run:
  "(\<exists>w. bindM (spawn (User Coro1 AwaitStart [])) (\<lambda>t.
        thenM (EvTask_start (resume U (plain_program stay chain_coro) 20) t) (EvTask_await_resume t))
        fresh_manager = Inr (2, w) \<and> ring w = idle_ring) \<and>
   register_coro_fn U (plain_program stay chain_coro) 20 Coro1 fresh_manager = Inl UseAfterFree"
  by (simp add: evaluation)

end
