(* ===== verification/Em_Life_Laws.thy ===== *)
theory Em_Life_Laws
  imports Em_Ring Em_System
begin

text \<open>
  The loops over the submission queue and the end of a manager: which of them return, what they leave
  behind, and what is refused from then on.
\<close>

subsection \<open>Flushing the queue\<close>

lemma submit_open:
  "ring_open w \<Longrightarrow> \<exists>k w'. submit_queued_entries U w = Inr (k, w') \<and> ring_open w'"
  by (cases "u_submit U (ring w)") (auto simp: submit_run)

lemma flush_zero: "flush_queue U 0 = thenM (sq_pending U) (returnM ())"
  by (rule ext) (simp add: flush_queue.simps [of U 0] runs sq_pending_def)

lemma flush_Suc: "flush_queue U (Suc n) = bindM (sq_pending U) (\<lambda>pending.
    if pending = 0 then returnM () else thenM (submit_queued_entries U) (flush_queue U n))"
  by (rule ext) (simp add: flush_queue.simps [of U "Suc n"] cong: if_cong)

text \<open>
  C36. The flush of the submission queue in \<open>kill_internal\<close> returns, whatever liburing does: it makes
  some number of submissions that is at most its bound, and stops there either with an empty queue or
  because the bound is used up. It makes no submission when the queue is empty.
\<close>

theorem flush_queue_returns:
  assumes "ring_open w"
  shows "\<exists>k rets w'. k \<le> n \<and> flush_queue U n w = Inr ((), w') \<and>
    mapM (\<lambda>i. submit_queued_entries U) [0..<k] w = Inr (rets, w') \<and>
    (u_sqe_tail U (ring w') = u_sqe_head U (ring w') \<or> k = n) \<and>
    (u_sqe_tail U (ring w) = u_sqe_head U (ring w) \<longrightarrow> k = 0)"
  using assms
proof (induction n arbitrary: w)
  case 0
  then show ?case by (simp add: flush_zero sq_pending_def runs)
next
  case (Suc n)
  show ?case
  proof (cases "u_sqe_tail U (ring w) = u_sqe_head U (ring w)")
    case True
    then show ?thesis by (intro exI [of _ 0]) (simp add: flush_Suc sq_pending_def runs)
  next
    case False
    obtain r v where v: "submit_queued_entries U w = Inr (r, v)" "ring_open v"
      using submit_open [OF Suc.prems] by blast
    from Suc.IH [OF v(2)] obtain k rets w' where k: "k \<le> n" "flush_queue U n v = Inr ((), w')"
        "mapM (\<lambda>i. submit_queued_entries U) [0..<k] v = Inr (rets, w')"
        "u_sqe_tail U (ring w') = u_sqe_head U (ring w') \<or> k = n" by blast
    have shift: "mapM (\<lambda>i. m) [0..<Suc k] = bindM m (\<lambda>y. bindM (mapM (\<lambda>i. m) [0..<k]) (\<lambda>ys. returnM (y # ys)))"
      for m :: "('w, 'y) op" and k
    proof -
      have "mapM (\<lambda>i. m) (map Suc xs) = mapM (\<lambda>i. m) xs" for xs by (induction xs) simp_all
      then show ?thesis
        by (subst upt_conv_Cons) (simp_all add: map_Suc_upt [symmetric] del: upt_Suc map_Suc_upt)
    qed
    from False v k show ?thesis
      by (intro exI [of _ "Suc k"] exI [of _ "r # rets"] exI [of _ w'])
        (simp add: flush_Suc sq_pending_def runs shift del: upt_Suc)
  qed
qed

theorem flush_queue_returns_witness:
  "\<exists>w. flush_queue sim_uring 1000 (empty_world DYING (idle_ring\<lparr>sim_queued := [(None, None)]\<rparr>)
      :: (nat, sim_ring) manager) = Inr ((), w)"
  using flush_queue_returns [of "empty_world DYING (idle_ring\<lparr>sim_queued := [(None, None)]\<rparr>)
      :: (nat, sim_ring) manager" 1000 sim_uring]
  by (auto simp: empty_world_def)

subsection \<open>The inner loop of submit_and_wait\<close>

lemma refill_stops:
  "nq = 0 \<or> ns \<noteq> 0 \<Longrightarrow> refill U n ns nq = returnM (Inr (ns, nq))"
  by (subst refill.simps) auto

lemma refill_Suc:
  "nq \<noteq> 0 \<Longrightarrow> refill U (Suc n) 0 nq = bindM (submit_queued_entries U) (\<lambda>ret.
     if ret <s 0 then returnM (Inl ret) else refill U n (scast ret) (nq - ret))"
  by (subst refill.simps) (simp cong: if_cong)

lemma ucast_scast_cint: "ucast (scast (k :: cint) :: csize) = k"
  by (rule bit_word_eqI) (simp add: bit_ucast_iff bit_signed_iff)

lemma sless_total: "\<not> (k :: cint) <s 0 \<Longrightarrow> k = 0 \<or> 0 <s k"
proof -
  assume "\<not> k <s 0"
  then have "0 \<le> sint k" by (simp add: word_sless_alt)
  then have "sint k = 0 \<or> 0 < sint k" by arith
  moreover have "k = 0" if "sint k = 0" using that by (simp add: signed_eq_0_iff)
  ultimately show ?thesis by (auto simp: word_sless_alt)
qed

lemma submit_grows:
  "submit_queued_entries U w = Inr (k, v) \<Longrightarrow> \<not> k <s 0 \<Longrightarrow>
     in_flight_requests v - in_flight_requests w = scast k"
  by (drule sless_total, elim disjE) (auto simp: submit_Inr)

text \<open>
  C37. The loop that waits for entries to be taken loses none of them: when it goes on, some entry has
  been submitted or none is queued, the entries submitted and queued add up to what they were (as
  32-bit numbers), and what \<open>num_submitted\<close> has grown by is what the requests in flight have grown by.
  It ends the coroutine exactly with a negative result of a submission.
\<close>

theorem refill_conserves:
  assumes "refill U n ns nq w = Inr (y, w')"
  shows "case y of
      Inl ret \<Rightarrow> ret <s 0
    | Inr (ns', nq') \<Rightarrow> (ns' \<noteq> 0 \<or> nq' = 0) \<and> ucast ns' + nq' = ucast ns + nq \<and>
        in_flight_requests w' - in_flight_requests w = ns' - ns"
  using assms
proof (induction n arbitrary: ns nq w)
  case 0
  then show ?case
    by (subst (asm) refill.simps) (auto split: if_splits)
next
  case (Suc n)
  show ?case
  proof (cases "nq = 0 \<or> ns \<noteq> 0")
    case True
    with Suc.prems show ?thesis by (auto simp: refill_stops)
  next
    case False
    with Suc.prems obtain k v where k: "submit_queued_entries U w = Inr (k, v)"
        and rest: "(if k <s 0 then returnM (Inl k) else refill U n (scast k) (nq - k)) v = Inr (y, w')"
      by (auto simp: refill_Suc bindM_Inr_iff)
    show ?thesis
    proof (cases "k <s 0")
      case True
      with rest show ?thesis by auto
    next
      case nonneg: False
      note grown = submit_grows [OF k nonneg]
      from rest nonneg have "refill U n (scast k) (nq - k) v = Inr (y, w')" by simp
      note IH = Suc.IH [OF this]
      show ?thesis
      proof (cases y)
        case (Inl ret)
        with IH show ?thesis by simp
      next
        case (Inr p)
        obtain ns' nq' where p: "p = (ns', nq')" by (cases p)
        with IH Inr have *: "(ns' \<noteq> 0 \<or> nq' = 0) \<and> ucast ns' + nq' = k + (nq - k) \<and>
            in_flight_requests w' - in_flight_requests v = ns' - scast k"
          by (simp add: ucast_scast_cint)
        have "in_flight_requests w' - in_flight_requests w = ns'"
          using conjunct2 [OF conjunct2 [OF *]] grown by (simp add: diff_eq_eq)
        with * Inr p False show ?thesis by simp
      qed
    qed
  qed
qed

theorem refill_conserves_witness:
  "\<exists>w. refill sim_uring 1 0 2 (empty_world LIVING (idle_ring\<lparr>sim_queued := [(None, None), (None, None)]\<rparr>)
      :: (nat, sim_ring) manager) = Inr (Inr (2, 0), w) \<and> in_flight_requests w = 2"
proof -
  let ?w = "empty_world LIVING (idle_ring\<lparr>sim_queued := [(None, None), (None, None)]\<rparr>)
      :: (nat, sim_ring) manager"
  have "\<exists>w. refill sim_uring 1 0 2 ?w = Inr (Inr (2, 0), w)"
    by (simp add: refill.simps [of sim_uring "Suc n" for n] refill_stops empty_world_def idle_ring_def
        submit_run sim_submit_def runs word_sless_alt)
  then obtain w where w: "refill sim_uring 1 0 2 ?w = Inr (Inr (2, 0), w)" by blast
  from refill_conserves [OF w] have "in_flight_requests w = 2" by (simp add: empty_world_def)
  with w show ?thesis by blast
qed

text \<open>
  C38. That loop is not bounded, and it need not return: as long as \<open>io_uring_submit\<close> takes nothing and
  reports no error, it goes on submitting, for any number of turns, without giving the event loop a
  chance to reap the completions that would make room.
\<close>

theorem refill_spins:
  assumes "ring_open w" and "u_submit U (ring w) = (0, ring w)" and "num_queued \<noteq> 0"
  shows "refill U n 0 num_queued w = Inl OutOfFuel"
proof (induction n)
  case 0
  then show ?case using assms(3) by (subst refill.simps) simp
next
  case (Suc n)
  have "w\<lparr>ring := ring w\<rparr> = w" by simp
  with Suc assms show ?case by (simp add: refill_Suc bindM_run submit_run)
qed

theorem refill_spins_witness:
  "\<forall>n. refill sim_uring n 0 1 (empty_world LIVING (idle_ring\<lparr>sim_refuse := Some 0\<rparr>)
      :: (nat, sim_ring) manager) = Inl OutOfFuel"
proof
  let ?w = "empty_world LIVING (idle_ring\<lparr>sim_refuse := Some 0\<rparr>) :: (nat, sim_ring) manager"
  show "refill sim_uring n 0 1 ?w = Inl OutOfFuel" for n
    by (rule refill_spins) (simp_all add: empty_world_def sim_submit_def)
qed

subsection \<open>After a kill\<close>

lemma turns_progress:
  fixes w :: "('u, 'h, 'r) em_world"
  assumes "mapM (\<lambda>_. await_message U (resume U P m)) ks w = Inr (ys, w')"
  shows "manager_life_state w \<le> manager_life_state w'"
proof -
  have "keeps (progresses (tally U (\<lambda>_. 0))) (mapM (\<lambda>_. await_message U (resume U P m)) ks)"
    by (rule progress.keeps_mapM) (rule program.await_message_progresses, simp)
  from keepsD [OF this assms] show ?thesis by (simp add: progresses_def)
qed

text \<open>
  C35. Once \<open>kill_internal\<close> has run, whichever way it went, the manager is past living for good: after any
  number of further turns of the event loop, the \<open>_na\<close> functions still return \<open>UNKNOWN_ERROR\<close> and the
  members of a batch are skipped, both without effect, while the awaited operations dereference null.
\<close>

theorem kill_refuses_requests:
  fixes w :: "('u, 'h, 'r) em_world"
  assumes "frames w h = Some f" and "body f = KillInternalBegin"
    and "resume U P n h w = Inr (x, w')"
    and "mapM (\<lambda>_. await_message U (resume U P m)) ks w' = Inr (ys, w'')"
  shows "LIVING < manager_life_state w'' \<and> na_request U p w'' = Inr (UNKNOWN_ERROR, w'') \<and>
    process_single_generic_request U p r a w'' = Inr (False, w'') \<and>
    ev_request U home p w'' = Inl NullDereference"
proof -
  obtain k where k: "n = Suc k" using assms(3) by (cases n) auto
  from assms(3) k obtain b v where b: "begin_resume h w = Inr (b, v)"
      and seg: "segment U P (resume U P k) k h b v = Inr (x, w')"
    by (auto simp: bindM_Inr_iff)
  from b assms(1,2) have "b = KillInternalBegin" by (auto simp: begin_resume_Inr)
  with seg have "kill_internal_begin U (resume U P k) h v = Inr (x, w')" by simp
  from program.kill_internal_begin_dies [OF _ this, of undefined] tallies_tally
  have "DYING \<le> manager_life_state w'" by blast
  also have "\<dots> \<le> manager_life_state w''" by (rule turns_progress [OF assms(4)])
  finally have "LIVING < manager_life_state w''" by (simp add: LivingState_order)
  then show ?thesis
    by (simp add: na_request_eq request_na_def get_sqe_and_req_data_def get_uring_sqe_def
        should_restrict_usage_def process_single_run ev_request_eq restricted_awaitable_def
        IOAwaitable_construct_def runs)
qed

theorem kill_refuses_requests_witness:
  "\<exists>w :: (nat, unit, sim_ring) em_world. LIVING < manager_life_state w \<and>
     na_request sim_uring (ClosePack \<lparr>close_p_fd = 7\<rparr>) w = Inr (UNKNOWN_ERROR, w)"
proof -
  let ?w = "(empty_world DYING idle_ring :: (nat, unit, sim_ring) em_world)
    \<lparr>frames := [0 \<mapsto> \<lparr>promise = new_promise, suspended = True, body = KillInternalBegin\<rparr>]\<rparr>"
  let ?f = "\<lparr>promise = new_promise, suspended = True, body = KillInternalBegin\<rparr> :: (nat, unit) coro Frame"
  have "\<exists>w. resume sim_uring undefined 2 0 ?w = Inr ((), w)"
    by (simp add: numeral_2_eq_2 begin_resume_def frame_at_def put_frame_def kill_internal_begin_def
        empty_world_def LivingState_order co_return_def co_return_with_def return_value_def
        promise_at_def final_suspend_def free_frame_def free_homed_def new_promise_def runs)
  then obtain w where w: "resume sim_uring undefined 2 0 ?w = Inr ((), w)" by blast
  have none: "mapM (\<lambda>_. await_message sim_uring (resume sim_uring undefined 0)) ([] :: nat list) w =
      Inr ([], w)" by simp
  have f: "frames ?w 0 = Some ?f" "body ?f = KillInternalBegin" by simp_all
  from kill_refuses_requests [OF f w none]
  have "LIVING < manager_life_state w \<and>
      na_request sim_uring (ClosePack \<lparr>close_p_fd = 7\<rparr>) w = Inr (UNKNOWN_ERROR, w)" by blast
  then show ?thesis by blast
qed

subsection \<open>The last requests of a dying manager\<close>

text \<open>The next \<open>n\<close> completions of a ring, taken and marked as seen.\<close>

fun drain :: "'r uring \<Rightarrow> nat \<Rightarrow> 'r \<Rightarrow> ((cint \<times> addr option) list \<times> 'r) option" where
  "drain U 0 r = Some ([], r)"
| "drain U (Suc n) r =
     (case u_wait_cqe U r of
        (Ready c res a, r1) \<Rightarrow>
          (case drain U n (u_cqe_seen U c r1) of
             None \<Rightarrow> None
           | Some (cs, r') \<Rightarrow> Some ((res, a) # cs, r'))
      | (_, r1) \<Rightarrow> None)"

text \<open>Of those, the ones that are kept for \<open>poll\<close>.\<close>

definition unawaited :: "(cint \<times> addr option) list \<Rightarrow> (cint \<times> addr) list" where
  "unawaited cs = concat (map (\<lambda>(res, a). case a of None \<Rightarrow> [] | Some r \<Rightarrow> [(res, r)]) cs)"

lemma unawaited_simps [simp]:
  "unawaited [] = []" "unawaited ((res, None) # cs) = unawaited cs"
  "unawaited ((res, Some r) # cs) = (res, r) # unawaited cs"
  by (simp_all add: unawaited_def)

lemma dying_turn:
  fixes w :: "('u, 'h, 'r) em_world"
  assumes "ring_open w" and "manager_life_state w = DYING" and "polling_handle w = None"
    and "u_wait_cqe U (ring w) = (Ready c res a, r1)"
    and "\<forall>r. a = Some r \<longrightarrow> (\<exists>d. requests w r = Some d \<and> handle d = None)"
    and "tasks w (kill_coro_task w) = Some x" and "own_handle x = Some h"
    and "frames w h = Some f" and "suspended f" and "body f = KillInternalWait"
  shows "await_message U (resume U P (Suc m)) w =
    (if in_flight_requests w = 1
     then thenM (teardown_ring U) (co_return (resume U P m) 0 h)
       (w\<lparr>ready_requests_store := ready_requests_store w @ unawaited [(res, a)], ring := u_cqe_seen U c r1,
          in_flight_requests := 0, frames := (frames w)(h \<mapsto> f\<lparr>suspended := False\<rparr>)\<rparr>)
     else Inr ((), w\<lparr>ready_requests_store := ready_requests_store w @ unawaited [(res, a)],
       ring := u_cqe_seen U c r1,
       in_flight_requests := in_flight_requests w - 1\<rparr>))"
proof -
  let ?v = "w\<lparr>ring := r1, ready_requests_store := ready_requests_store w @ unawaited [(res, a)]\<rparr>"
  let ?v' = "w\<lparr>ready_requests_store := ready_requests_store w @ unawaited [(res, a)],
       ring := u_cqe_seen U c r1,
       in_flight_requests := in_flight_requests w - 1\<rparr>"
  have event: "event_handler rs res a (w\<lparr>ring := r1\<rparr>) = Inr ((), ?v)" for rs
    using assms(5) by (cases a) (auto simp: event_handler_def request_at_def runs)
  have f: "f\<lparr>suspended := True, body := KillInternalWait\<rparr> = f"
    using assms(9,10) by simp
  have "await_message U (resume U P (Suc m)) w = resume U P (Suc m) h ?v'"
    using assms(1-4,6,7)
    by (simp add: await_message_def deliver_ready_def on_ring_def EvTask_resume_def task_at_def non_null_def
        runs event del: resume.simps)
  also have "\<dots> = kill_internal_wait U (resume U P m) h
      (?v'\<lparr>frames := (frames w)(h \<mapsto> f\<lparr>suspended := False\<rparr>)\<rparr>)"
    using assms(8-10) by (simp add: begin_resume_def frame_at_def put_frame_def runs)
  finally have turn: "await_message U (resume U P (Suc m)) w = kill_internal_wait U (resume U P m) h
      (?v'\<lparr>frames := (frames w)(h \<mapsto> f\<lparr>suspended := False\<rparr>)\<rparr>)" .
  have "(frames w)(h \<mapsto> f) = frames w" using assms(8) by (rule map_upd_triv)
  then have "?v'\<lparr>frames := (frames w)(h \<mapsto> f)\<rparr> = ?v'" by (intro manager.equality) simp_all
  then show ?thesis
    using f assms(8)
    by (simp add: turn kill_internal_wait_def suspend_at_def frame_at_def put_frame_def runs)
qed

lemma thenM_cong_left: "m w = m' v \<Longrightarrow> thenM m k w = thenM m' k v"
  by (simp add: thenM_run)

lemma unawaited_Cons: "unawaited (x # cs) = unawaited [x] @ unawaited cs"
  by (simp add: unawaited_def)

lemma co_return_stays_dead:
  fixes w :: "('u, 'h, 'r) em_world"
  assumes "co_return (resume U P m) k h w = Inr (x, w')" and "manager_life_state w = DEAD"
  shows "manager_life_state w' = DEAD"
proof -
  have "evolves (tally U infl) w w'" for infl
    by (rule keepsD [OF program.evolve_co_return assms(1)])
  then have "manager_life_state w \<le> manager_life_state w'" by (simp add: evolves_def evolves_rest_def)
  with assms(2) show ?thesis by (cases "manager_life_state w'") (simp_all add: LivingState_order)
qed

lemma teardown_then_dead:
  fixes w :: "('u, 'h, 'r) em_world"
  assumes "ring_open w" and "0 < n"
  shows "thenM (thenM (teardown_ring U) (co_return (resume U P m) k h)) (start_loop U rs n) w =
    thenM (teardown_ring U) (co_return (resume U P m) k h) w"
proof -
  obtain n' where n: "n = Suc n'" using assms(2) by (cases n) auto
  obtain v where v: "teardown_ring U w = Inr ((), v)" "manager_life_state v = DEAD"
    using assms(1) by (simp add: teardown_ring_def on_ring_def runs)
  show ?thesis
  proof (cases "co_return (resume U P m) k h v")
    case (Inl e)
    with v show ?thesis by (simp add: thenM_run)
  next
    case (Inr p)
    then obtain v' where v': "co_return (resume U P m) k h v = Inr ((), v')" by (cases p) auto
    with co_return_stays_dead v(2) have "manager_life_state v' = DEAD" by blast
    with v v' n show ?thesis by (simp add: thenM_run bindM_run)
  qed
qed

lemma dying_loop:
  "manager_life_state w = DYING \<Longrightarrow> start_loop U rs (Suc n) w =
     thenM (await_message U rs) (start_loop U rs n) w"
  by (simp add: bindM_run LivingState_order)

lemma dying_last_turn:
  fixes w :: "('u, 'h, 'r) em_world"
  assumes "ring_open v" and "manager_life_state w = DYING" and "0 < n"
    and "await_message U rs w = thenM (teardown_ring U) (co_return (resume U P m) 0 h) v"
  shows "start_loop U rs (Suc n) w = thenM (teardown_ring U) (co_return (resume U P m) 0 h) v"
  unfolding dying_loop [OF assms(2)]
  by (subst thenM_cong_left [where v = v and m' = "thenM (teardown_ring U) (co_return (resume U P m) 0 h)"])
    (simp_all only: assms teardown_then_dead)

lemma not_the_last:
  assumes "0 < n" and "n < 2 ^ 64"
  shows "(of_nat (Suc n) :: csize) \<noteq> 1"
proof
  assume "(of_nat (Suc n) :: csize) = 1"
  then have "unat (of_nat n :: csize) = 0" by simp
  with assms show False by (simp add: unat_of_nat take_bit_nat_eq_self)
qed

text \<open>
  C7. A dying manager with nothing but unawaited requests in flight comes to its end. When \<open>kill_internal\<close>
  waits for \<open>n\<close> requests in flight, nobody polls, and the ring has \<open>n\<close> completions of requests that no
  coroutine awaits (or of the cancellation, which has no request data), then \<open>n + 1\<close> turns of the event
  loop are enough: the responses are kept in order, the kill coroutine is woken after each of them and
  goes back to sleep until the last, and then, and not before, it closes the ring and returns 0 to
  whoever awaits it, after which the loop ends.
\<close>

theorem kill_drains:
  fixes w :: "('u, 'h, 'r) em_world"
  assumes "ring_open w" and "manager_life_state w = DYING" and "polling_handle w = None"
    and "drain U n (ring w) = Some (cs, r')" and "in_flight_requests w = of_nat n"
    and "0 < n" and "n < 2 ^ 64"
    and "\<forall>(res, r) \<in> set (unawaited cs). \<exists>d. requests w r = Some d \<and> handle d = None"
    and "tasks w (kill_coro_task w) = Some x" and "own_handle x = Some h"
    and "frames w h = Some f" and "suspended f" and "body f = KillInternalWait"
  shows "start_loop U (resume U P (Suc m)) (Suc n) w =
    thenM (teardown_ring U) (co_return (resume U P m) 0 h)
      (w\<lparr>ready_requests_store := ready_requests_store w @ unawaited cs, ring := r',
         in_flight_requests := 0, frames := (frames w)(h \<mapsto> f\<lparr>suspended := False\<rparr>)\<rparr>)"
  using assms
proof (induction n arbitrary: w cs)
  case 0
  then show ?case by simp
next
  case (Suc n)
  from Suc.prems(4) obtain c res a r1 cs' where wait: "u_wait_cqe U (ring w) = (Ready c res a, r1)"
      and rest: "drain U n (u_cqe_seen U c r1) = Some (cs', r')" and cs: "cs = (res, a) # cs'"
    by (auto split: prod.splits wait_result.splits option.splits)
  have head: "\<forall>r. a = Some r \<longrightarrow> (\<exists>d. requests w r = Some d \<and> handle d = None)"
    using Suc.prems(8) by (auto simp: cs)
  have tail: "\<forall>(res, r) \<in> set (unawaited cs'). \<exists>d. requests w r = Some d \<and> handle d = None"
    using Suc.prems(8) by (auto simp: cs unawaited_Cons [of _ cs'])
  note turn = dying_turn [OF Suc.prems(1-3) wait head Suc.prems(9-13), of P m]
  show ?case
  proof (cases "n = 0")
    case True
    with rest have r': "cs' = []" "r' = u_cqe_seen U c r1" by simp_all
    show ?thesis unfolding True
      by (rule dying_last_turn)
        (use turn Suc.prems(1,2,5) True in \<open>simp_all add: cs r' del: resume.simps fun_upd_apply\<close>)
  next
    case False
    let ?v = "w\<lparr>ready_requests_store := ready_requests_store w @ unawaited [(res, a)],
       ring := u_cqe_seen U c r1, in_flight_requests := of_nat n\<rparr>"
    have one: "await_message U (resume U P (Suc m)) w = Inr ((), ?v)"
      using turn not_the_last [of n] Suc.prems(5,7) False by (simp del: of_nat_Suc) simp
    let ?closed = "\<lambda>w ready. w\<lparr>ready_requests_store := ready, ring := r', in_flight_requests := 0,
        frames := (frames w)(h \<mapsto> f\<lparr>suspended := False\<rparr>)\<rparr>"
    have "start_loop U (resume U P (Suc m)) (Suc (Suc n)) w =
        start_loop U (resume U P (Suc m)) (Suc n) ?v"
      by (simp only: dying_loop [OF Suc.prems(2)] thenM_run one sum.case prod.case)
    also have "\<dots> = thenM (teardown_ring U) (co_return (resume U P m) 0 h)
        (?closed ?v (ready_requests_store ?v @ unawaited cs'))"
      by (rule Suc.IH) (use Suc.prems rest tail False in simp_all)
    also have "?closed ?v (ready_requests_store ?v @ unawaited cs') = ?closed w (ready_requests_store w @ unawaited cs)"
      by (simp add: cs unawaited_Cons [of _ cs'])
    finally show ?thesis .
  qed
qed

text \<open>Two requests that nobody awaits, and the cancellation, which has no request data.\<close>

theorem kill_drains_witness:
  "\<exists>w. start_loop sim_uring (resume sim_uring undefined (Suc 1)) 4
      ((empty_world DYING (idle_ring\<lparr>sim_taken := [(None, Some 5), (None, Some 6), (Some PrepCancelAny, None)]\<rparr>)
        :: (nat, unit, sim_ring) em_world)
       \<lparr>frames := [0 \<mapsto> \<lparr>promise = new_promise, suspended = True, body = KillInternalWait\<rparr>],
        tasks := [0 \<mapsto> \<lparr>started_coro = True, own_status = None, own_handle = Some 0\<rparr>],
        requests := [5 \<mapsto> new_RequestData, 6 \<mapsto> new_RequestData], in_flight_requests := 3\<rparr>) = Inr ((), w) \<and>
    manager_life_state w = DEAD \<and> \<not> ring_open w \<and> frames w = Map.empty \<and> in_flight_requests w = 0 \<and>
    ready_requests_store w = [(0, 5), (0, 6)]"
proof -
  let ?r = "idle_ring\<lparr>sim_taken := [(None, Some 5), (None, Some 6), (Some PrepCancelAny, None)]\<rparr>"
  let ?w = "(empty_world DYING ?r :: (nat, unit, sim_ring) em_world)
       \<lparr>frames := [0 \<mapsto> \<lparr>promise = new_promise, suspended = True, body = KillInternalWait\<rparr>],
        tasks := [0 \<mapsto> \<lparr>started_coro = True, own_status = None, own_handle = Some 0\<rparr>],
        requests := [5 \<mapsto> new_RequestData, 6 \<mapsto> new_RequestData], in_flight_requests := 3\<rparr>"
  have "drain sim_uring 3 (ring ?w) = Some ([(0, Some 5), (0, Some 6), (0, None)], idle_ring)"
    by (simp add: numeral_3_eq_3 sim_wait_cqe_def idle_ring_def empty_world_def)
  from kill_drains [OF _ _ _ this, of "\<lparr>started_coro = True, own_status = None, own_handle = Some 0\<rparr>" 0
      "\<lparr>promise = new_promise, suspended = True, body = KillInternalWait\<rparr>" undefined 1]
  show ?thesis
    by (simp add: teardown_ring_def on_ring_def co_return_def co_return_with_def
        return_value_def promise_at_def frame_at_def final_suspend_def free_frame_def free_homed_def
        new_promise_def new_RequestData_def empty_world_def runs del: resume.simps start_loop.simps)
qed

subsection \<open>The ring that is shared\<close>

text \<open>
  C40. \<open>shared_ring_fd\<close> is reset by the last manager alone: when one of two managers is torn down the
  descriptor stays as it is, whichever of the two rings it belongs to, so that the next manager is
  attached to it even though the ring may be closed; when there was only one, the next manager sets up
  a ring of its own.
\<close>

theorem shared_fd_after_teardown:
  assumes "teardown_ring U w = Inr (x, w')" and "0 < ring_instances w" and "shared_ring_fd w \<noteq> -1"
  shows "ring_setup U d w' =
    (case u_queue_init U (ucast d) (if ring_instances w = 1 then None else Some (shared_ring_fd w)) of
       (ret, r, fd) \<Rightarrow>
         if ret <s 0 then Inr ((), w'\<lparr>manager_life_state := DEAD\<rparr>)
         else Inr ((), w'\<lparr>ring := r, ring_open := True,
                shared_ring_fd := (if ring_instances w = 1 then fd else shared_ring_fd w),
                ring_instances := ring_instances w\<rparr>))"
proof -
  have "ring_instances w - 1 = 0 \<longleftrightarrow> ring_instances w = 1" by auto
  with assms show ?thesis
    by (auto simp: teardown_Inr ring_setup_def Let_def runs split: prod.split)
qed

theorem shared_fd_after_teardown_witness:
  "\<exists>w. ring_setup sim_uring 10 w = Inr ((), w\<lparr>ring := idle_ring\<lparr>sim_depth := 10\<rparr>, ring_open := True,
      shared_ring_fd := 3, ring_instances := 2\<rparr>) \<and> \<not> ring_open (w :: (nat, sim_ring) manager)"
proof -
  let ?w = "(empty_world DYING idle_ring :: (nat, sim_ring) manager)\<lparr>ring_instances := 2\<rparr>"
  have "\<exists>w. teardown_ring sim_uring ?w = Inr ((), w) \<and> \<not> ring_open w"
    by (simp add: teardown_Inr empty_world_def)
  then obtain w where w: "teardown_ring sim_uring ?w = Inr ((), w)" "\<not> ring_open w" by blast
  from shared_fd_after_teardown [OF w(1), of 10] w(2) show ?thesis
    by (auto simp: empty_world_def idle_ring_def)
qed

end
