(* ===== verification/Em_Batch_Laws.thy ===== *)
theory Em_Batch_Laws
  imports Em_Life_Laws
begin

text \<open>
  How \<open>submit_and_wait\<close> prepares what a queue asks for, what the two coroutines with callbacks do with a
  response, over one turn and over many, and what \<open>register_coro\<close> leaves behind or faults on.
\<close>

text \<open>A program whose callbacks count their calls, and a world with one suspended coroutine.\<close>

definition counting :: "(nat, nat) program" where
  "counting = \<lparr>code = (\<lambda>u r. CoReturn 0), on_batch = (\<lambda>h t c. (Suc h, c, [])),
     on_poll = (\<lambda>h t c. (CONTINUE_POLLING, Suc h, c, [])), first_freed = Min, next_capacity = (*) 2,
     temporaries_stay = False\<rparr>"

definition at_point :: "(nat, nat) coro \<Rightarrow> (nat, nat, sim_ring) em_world" where
  "at_point b = (empty_world LIVING idle_ring)
     \<lparr>frames := [0 \<mapsto> \<lparr>promise = new_promise, suspended = True, body = b\<rparr>]\<rparr>"

lemma at_point_sel [simp]:
  "frames (at_point b) = [0 \<mapsto> \<lparr>promise = new_promise, suspended = True, body = b\<rparr>]"
  "ring (at_point b) = idle_ring" "ring_open (at_point b)" "manager_life_state (at_point b) = LIVING"
  by (simp_all add: at_point_def empty_world_def)

lemma counting_sel [simp]:
  "on_batch counting n t c = (Suc n, c, [])" "on_poll counting n t c = (CONTINUE_POLLING, Suc n, c, [])"
  by (simp_all add: counting_def)

subsection \<open>submit_and_wait\<close>

text \<open>What a callback makes of a response: its own next state and what it leaves in the channel.\<close>

definition batch_answer ::
    "('u, 'h) program \<Rightarrow> 'h \<times> CommunicationChannel \<Rightarrow> RespData \<Rightarrow> 'h \<times> CommunicationChannel" where
  "batch_answer P x d =
     (case on_batch P (fst x) (Some (RespData_type d)) (publish_resp_data d (snd x)) of
        (st, c, reqs) \<Rightarrow> (st, c))"

definition poll_answer ::
    "('u, 'h) program \<Rightarrow> 'h \<times> CommunicationChannel \<Rightarrow> RespData \<Rightarrow> 'h \<times> CommunicationChannel" where
  "poll_answer P x d =
     (case on_poll P (fst x) (Some (RespData_type d)) (publish_resp_data d (snd x)) of
        (go, st, c, reqs) \<Rightarrow> (st, c))"

text \<open>The frame of a coroutine that waits for the next response.\<close>

definition batch_frame ::
    "('u, 'h) coro Frame \<Rightarrow> addr list \<Rightarrow> csize \<Rightarrow> csize \<Rightarrow> 'h \<times> CommunicationChannel \<Rightarrow> ('u, 'h) coro Frame" where
  "batch_frame f rds i ns x = f\<lparr>promise := (promise f)\<lparr>com_data := snd x\<rparr>, suspended := True,
     body := SubmitGeneric (fst x) rds i ns 0\<rparr>"

definition poll_frame ::
    "('u, 'h) coro Frame \<Rightarrow> 'h \<times> CommunicationChannel \<Rightarrow> ('u, 'h) coro Frame" where
  "poll_frame f x = f\<lparr>promise := (promise f)\<lparr>com_data := snd x\<rparr>, suspended := True,
     body := PollGeneric (fst x)\<rparr>"

lemma unat_csize: "unat (n :: csize) < 2 ^ 64"
  using unsigned_less [of n, where ?'a = nat] by simp

lemma batch_response:
  assumes "frames w h = Some (batch_frame f rds i ns x)"
    and "snd (snd (on_batch P (fst x) (Some (RespData_type d)) (publish_resp_data d (snd x)))) = []"
  shows "thenM (publish_to_promise d h) (resume U P (Suc n) h) w =
    (if i + 1 < ns
     then Inr ((), w\<lparr>frames := (frames w)(h \<mapsto> batch_frame f rds (i + 1) ns (batch_answer P x d))\<rparr>)
     else submit_return (resume U P n) 0 rds h
            (w\<lparr>frames := (frames w)(h \<mapsto>
               (batch_frame f rds i ns x)\<lparr>suspended := False,
                  promise := (promise f)\<lparr>com_data := snd (batch_answer P x d)\<rparr>\<rparr>)\<rparr>))"
proof -
  obtain st c where b: "on_batch P (fst x) (Some (RespData_type d)) (publish_resp_data d (snd x)) = (st, c, [])"
    using assms(2) by (metis prod.collapse)
  show ?thesis
    using assms(1)
    by (simp add: batch_frame_def batch_answer_def b publish_to_promise_def begin_resume_def
        submit_received_def call_handler_def promise_at_def
        update_promise_def frame_at_def put_frame_def GenericResponse_await_def suspend_at_def submit_loop_def runs)
qed

lemma batch_responses:
  assumes "frames w h = Some (batch_frame f rds i ns x)"
    and "\<forall>st t c. snd (snd (on_batch P st t c)) = []"
    and "unat i + length ds < unat ns"
  shows "mapM (\<lambda>d. thenM (publish_to_promise d h) (resume U P (Suc n) h)) ds w =
    Inr (map (\<lambda>_. ()) ds, w\<lparr>frames := (frames w)(h \<mapsto>
      batch_frame f rds (i + of_nat (length ds)) ns (foldl (batch_answer P) x ds))\<rparr>)"
  using assms(1,3)
proof (induction ds arbitrary: w i x)
  case Nil
  then have "w\<lparr>frames := frames w\<rparr> = w" by simp
  with Nil show ?case by (simp add: map_upd_triv)
next
  case (Cons d ds)
  have next_i: "unat (i + 1) = unat i + 1"
    using Cons.prems(2) unat_csize [of ns] by (subst unat_add_lem [THEN iffD1]) simp_all
  then have "i + 1 < ns" using Cons.prems(2) by (simp add: word_less_nat_alt)
  with batch_response [OF Cons.prems(1), of P d U n] assms(2)
  have one: "thenM (publish_to_promise d h) (resume U P (Suc n) h) w =
      Inr ((), w\<lparr>frames := (frames w)(h \<mapsto> batch_frame f rds (i + 1) ns (batch_answer P x d))\<rparr>)"
    by simp
  let ?w = "w\<lparr>frames := (frames w)(h \<mapsto> batch_frame f rds (i + 1) ns (batch_answer P x d))\<rparr>"
  have rest: "mapM (\<lambda>d. thenM (publish_to_promise d h) (resume U P (Suc n) h)) ds ?w =
    Inr (map (\<lambda>_. ()) ds, ?w\<lparr>frames := (frames ?w)(h \<mapsto>
      batch_frame f rds ((i + 1) + of_nat (length ds)) ns (foldl (batch_answer P) (batch_answer P x d) ds))\<rparr>)"
    by (rule Cons.IH) (use Cons.prems(2) next_i in simp_all)
  have k: "i + of_nat (length (d # ds)) = (i + 1) + of_nat (length ds)" by simp
  have "?w\<lparr>frames := (frames ?w)(h \<mapsto> g)\<rparr> = w\<lparr>frames := (frames w)(h \<mapsto> g)\<rparr>" for g by simp
  then show ?case unfolding mapM.simps bindM_run one sum.case prod.case rest k by (simp del: fun_upd_apply)
qed

text \<open>
  C20. The responses to a batch are handed to the callback in the order they are published, each once, with
  its type and the channel it is in. As long as fewer have come than were submitted the coroutine waits
  for the next one, with the state the callback has left; with the last one, and nothing left in the
  queue, it ends with 0 and its request data is freed. (The callback makes no requests of its own here.)
\<close>

theorem batch_responses_handled:
  assumes "frames w h = Some (batch_frame f rds i ns x)"
    and "\<forall>st t c. snd (snd (on_batch P st t c)) = []"
    and "unat i + length ds < unat ns"
  shows "thenM (mapM (\<lambda>d. thenM (publish_to_promise d h) (resume U P (Suc n) h)) ds)
      (thenM (publish_to_promise d h) (resume U P (Suc n) h)) w =
    (let (st, c) = foldl (batch_answer P) x (ds @ [d]); k = i + of_nat (length ds)
     in if unat i + length ds + 1 < unat ns
        then Inr ((), w\<lparr>frames := (frames w)(h \<mapsto> batch_frame f rds (k + 1) ns (st, c))\<rparr>)
        else submit_return (resume U P n) 0 rds h
               (w\<lparr>frames := (frames w)(h \<mapsto>
                  f\<lparr>body := SubmitGeneric (fst (foldl (batch_answer P) x ds)) rds k ns 0,
                    suspended := False, promise := (promise f)\<lparr>com_data := c\<rparr>\<rparr>)\<rparr>))"
proof -
  let ?k = "i + of_nat (length ds)" and ?x = "foldl (batch_answer P) x ds"
  let ?w = "w\<lparr>frames := (frames w)(h \<mapsto> batch_frame f rds ?k ns ?x)\<rparr>"
  have "unat (?k + 1) = unat i + length ds + 1"
  proof -
    have small: "unat i + length ds + 1 < 2 ^ 64" using assms(3) unat_csize [of ns] by simp
    then have "unat (of_nat (length ds) :: csize) = length ds"
      by (simp add: unat_of_nat take_bit_nat_eq_self)
    with small show ?thesis by (simp add: unat_word_ariths)
  qed
  then have k: "?k + 1 < ns \<longleftrightarrow> unat i + length ds + 1 < unat ns" by (simp add: word_less_nat_alt)
  have "thenM (mapM (\<lambda>d. thenM (publish_to_promise d h) (resume U P (Suc n) h)) ds)
      (thenM (publish_to_promise d h) (resume U P (Suc n) h)) w =
    thenM (publish_to_promise d h) (resume U P (Suc n) h) ?w"
    using batch_responses [OF assms] by (simp only: thenM_run [of "mapM _ _"] sum.case prod.case)
  also have "\<dots> = (if ?k + 1 < ns
     then Inr ((), ?w\<lparr>frames := (frames ?w)(h \<mapsto> batch_frame f rds (?k + 1) ns (batch_answer P ?x d))\<rparr>)
     else submit_return (resume U P n) 0 rds h
            (?w\<lparr>frames := (frames ?w)(h \<mapsto>
               (batch_frame f rds ?k ns ?x)\<lparr>suspended := False,
                  promise := (promise f)\<lparr>com_data := snd (batch_answer P ?x d)\<rparr>\<rparr>)\<rparr>))"
    by (rule batch_response) (use assms(2) in simp_all)
  finally show ?thesis
    unfolding k by (simp add: batch_frame_def split: prod.split)
qed

theorem batch_responses_handled_witness:
  "\<exists>w f. thenM (mapM (\<lambda>d. thenM (publish_to_promise d 0) (resume sim_uring counting (Suc 0) 0))
         [CloseResp \<lparr>error_num = 0, req_fd = 7\<rparr>, CloseResp \<lparr>error_num = 9, req_fd = 8\<rparr>])
       (thenM (publish_to_promise (CloseResp \<lparr>error_num = 0, req_fd = 9\<rparr>) 0)
         (resume sim_uring counting (Suc 0) 0))
       (at_point (SubmitGeneric 0 [] 0 4 0)) = Inr ((), w) \<and>
     frames w 0 = Some f \<and> body f = SubmitGeneric 3 [] 3 4 0"
proof -
  let ?w = "at_point (SubmitGeneric 0 [] 0 4 0)"
  let ?ds = "[CloseResp \<lparr>error_num = 0, req_fd = 7\<rparr>, CloseResp \<lparr>error_num = 9, req_fd = 8\<rparr>]"
  let ?f = "\<lparr>promise = new_promise, suspended = True, body = SubmitGeneric 0 [] 0 4 0\<rparr> :: (nat, nat) coro Frame"
  have "frames ?w 0 = Some (batch_frame ?f [] 0 4 (0, com_data new_promise))"
    by (simp add: batch_frame_def)
  then show ?thesis
    by (subst batch_responses_handled [where f = ?f and rds = "[]" and i = 0 and ns = 4 and ds = ?ds
          and x = "(0, com_data new_promise)"])
      (simp_all add: batch_answer_def batch_frame_def Let_def del: resume.simps)
qed

lemma delete_requests:
  "mapM delete_request rs w = Inr (ys, w') \<Longrightarrow>
     \<forall>r. r \<in> set rs \<or> requests w r = None \<longrightarrow> requests w' r = None"
  by (induction rs arbitrary: w ys) (force simp: run_iffs request_iffs split: if_splits)+

lemma submit_return_frees:
  fixes w :: "('u, 'h, 'r) em_world"
  assumes "submit_return (resume U P n) k rds h w = Inr (x, w')" and "r \<in> set rds" and "r < next_addr w"
  shows "requests w' r = None"
proof -
  from assms(1) obtain y1 w1 y2 w2 y3 w3 where 1: "return_value k h w = Inr (y1, w1)"
      and 2: "mapM delete_request rds w1 = Inr (y2, w2)"
      and 3: "final_suspend (resume U P n) h w2 = Inr (y3, w3)" and 4: "free_homed h w3 = Inr (x, w')"
    by (auto simp: submit_return_def co_return_with_def run_iffs)
  have "evolves (tally U (\<lambda>_. 0)) w w1" by (rule keepsD [OF program.evolve_return_value 1])
  moreover have "evolves (tally U (\<lambda>_. 0)) w1 w2"
    using keepsD [OF evolving.keeps_mapM [OF evolve_delete_request] 2] .
  ultimately have "r < next_addr w2" using assms(3) by (auto simp: evolves_def evolves_rest_def no_reuse_def)
  moreover have "requests w2 r = None" using delete_requests [OF 2] assms(2) by blast
  moreover have "evolves (tally U (\<lambda>_. 0)) w2 w3" by (rule keepsD [OF program.evolve_final_suspend 3])
  ultimately have "requests w3 r = None" using evolves_gone by blast
  with 4 show ?thesis by (auto simp: free_homed_def)
qed

lemma batch_end_run:
  fixes w :: "('u, 'h, 'r) em_world"
  assumes "requests w r = Some d" and "handle d = Some h" and "well_tagged d"
    and "r \<in> set rds" and "r < next_addr w"
    and "frames w h = Some (batch_frame f rds i ns x)" and "ns \<le> i + 1"
    and "\<forall>st t c. snd (snd (on_batch P st t c)) = []"
  shows "event_handler (resume U P (Suc n)) res (Some r) w =
    (case thenM (publish_to_promise (completion_response res (iov_base_of w) (specific_data d)) h)
            (resume U P (Suc n) h) w of
       Inl e \<Rightarrow> Inl e | Inr (x, w') \<Rightarrow> Inl UseAfterFree)"
proof -
  let ?data = "completion_response res (iov_base_of w) (specific_data d)"
  let ?run = "thenM (publish_to_promise ?data h) (resume U P (Suc n) h)"
  let ?w = "w\<lparr>frames := (frames w)(h \<mapsto> (batch_frame f rds i ns x)\<lparr>suspended := False,
       promise := (promise f)\<lparr>com_data := snd (batch_answer P x ?data)\<rparr>\<rparr>)\<rparr>"
  have run: "?run w = submit_return (resume U P n) 0 rds h ?w"
    using batch_response [OF assms(6), of P ?data U n] assms(7,8)
    by (simp add: not_less [symmetric] del: resume.simps not_less)
  have event: "event_handler (resume U P (Suc n)) res (Some r) w = thenM ?run (after_resumption r h) w"
    using assms(1,2) well_tagged_response [OF assms(3), of res "iov_base_of w"]
    by (simp add: event_handler_def request_at_def runs del: resume.simps split: sum.split)
  show ?thesis
  proof (cases "?run w")
    case (Inl e)
    show ?thesis unfolding event thenM_run [of ?run] Inl by simp
  next
    case (Inr p)
    obtain v where v: "?run w = Inr ((), v)" using Inr by (cases p) auto
    have "requests v r = None"
      using submit_return_frees [OF v [unfolded run] assms(4)] assms(5) by simp
    then have "after_resumption r h v = Inl UseAfterFree"
      by (simp add: after_resumption_def request_at_def runs)
    then show ?thesis unfolding event thenM_run [of ?run] v by simp
  qed
qed


lemma batch_end_faults:
  fixes w :: "('u, 'h, 'r) em_world"
  assumes "requests w r = Some d" and "handle d = Some h" and "well_tagged d"
    and "r \<in> set rds" and "r < next_addr w"
    and "frames w h = Some (batch_frame f rds i ns x)" and "ns \<le> i + 1"
    and "\<forall>st t c. snd (snd (on_batch P st t c)) = []"
  shows "\<exists>e. event_handler (resume U P (Suc n)) res (Some r) w = Inl e"
  unfolding batch_end_run [OF assms] by (simp split: sum.split)

text \<open>
  C11. The end of a batch is a use after free. The last response to \<open>submit_and_wait\<close> ends the coroutine
  while the handler is still at work on the request it belongs to; the request lives in the vector
  \<open>req_data\<close> of that coroutine, and whatever the coroutine that awaits the batch does next, the handler
  then reads it. Either a fault has happened before, or this one does: no batch is completed by the
  event loop without one.
\<close>

theorem batch_end_is_read:
  fixes w :: "('u, 'h, 'r) em_world"
  assumes "requests w r = Some d" and "handle d = Some h" and "well_tagged d"
    and "r \<in> set rds" and "r < next_addr w"
    and "frames w h = Some (batch_frame f rds i ns x)" and "ns \<le> i + 1"
    and "\<forall>st t c. snd (snd (on_batch P st t c)) = []"
  shows "event_handler (resume U P (Suc n)) res (Some r) w =
    (case thenM (publish_to_promise (completion_response res (iov_base_of w) (specific_data d)) h)
            (resume U P (Suc n) h) w of
       Inl e \<Rightarrow> Inl e | Inr (x, w') \<Rightarrow> Inl UseAfterFree)"
  by (rule batch_end_run [OF assms])

theorem batch_end_is_read_witness:
  "\<exists>w. event_handler (resume sim_uring counting 1) 0 (Some 2) w = Inl UseAfterFree \<and>
     frames w 0 = Some (batch_frame \<lparr>promise = new_promise, suspended = True, body = PollBegin 0\<rparr>
       [2] 0 1 (0, new_channel))"
proof -
  let ?d = "new_RequestData\<lparr>handle := Some 0\<rparr>"
  let ?f = "\<lparr>promise = new_promise, suspended = True, body = PollBegin 0\<rparr> :: (nat, nat) coro Frame"
  let ?w = "(at_point (SubmitGeneric 0 [2] 0 1 0))\<lparr>requests := [2 \<mapsto> ?d], next_addr := 3\<rparr>"
  have f: "frames ?w 0 = Some (batch_frame ?f [2] 0 1 (0, new_channel))"
    by (simp add: batch_frame_def new_promise_def)
  have d: "requests ?w 2 = Some ?d" by simp
  have "well_tagged ?d" by (simp add: well_tagged_def new_RequestData_def specific_data_init_def)
  note run = batch_end_is_read [OF d _ this _ _ f, of counting sim_uring 0 0]
  have "event_handler (resume sim_uring counting 1) 0 (Some 2) ?w = Inl UseAfterFree"
    using run
    by (simp add: publish_to_promise_def update_promise_def frame_at_def put_frame_def begin_resume_def
        submit_received_def call_handler_def promise_at_def submit_loop_def submit_return_def
        co_return_with_def return_value_def final_suspend_def free_frame_def free_homed_def
        delete_request_def request_at_def batch_frame_def new_promise_def runs)
  with f show ?thesis by blast
qed

text \<open>
  C39. \<open>submit_and_wait\<close> counts entries, not its own requests. When no entry is free for its members (or
  there are none), none of them is queued and nobody is told; and if the flush at its start has
  submitted entries of others, the coroutine waits for as many responses, which will never be sent to
  it.
\<close>

theorem batch_waits_for_others:
  assumes "req_vec q = [] \<or> u_get_sqe U (ring w) = (None, ring w)"
    and "manager_life_state w \<le> LIVING" and "ring_open w"
    and "frames w h = Some f" and "0 <s ret" and "length rds = length (req_vec q)"
  shows "submit_prepare U rs n q st ret rds h w =
    Inr ((), w\<lparr>frames := (frames w)(h \<mapsto> f\<lparr>suspended := True,
      body := SubmitGeneric st rds 0 (scast ret) (u_sqe_tail U (ring w) - u_sqe_head U (ring w))\<rparr>)\<rparr>)"
proof -
  let ?one = "\<lambda>(req, single_req). process_single_generic_request U req single_req (Some h)"
  have same: "w\<lparr>ring := ring w\<rparr> = w" by simp
  have skip: "?one x w = Inr (False, w)" if "u_get_sqe U (ring w) = (None, ring w)" for x
    using that assms(2,3)
    by (cases x) (simp add: process_single_run get_uring_sqe_def should_restrict_usage_def
        io_uring_get_sqe_def on_ring_def runs not_less [symmetric])
  have "mapM ?one xs w = Inr (map (\<lambda>x. False) xs, w)" if "xs = [] \<or> u_get_sqe U (ring w) = (None, ring w)" for xs
    using that by (induction xs) (auto simp: bindM_run skip)
  then obtain ys where "mapM ?one (zip (req_vec q) rds) w = Inr (ys, w)"
    using assms(1,6) by fastforce
  moreover have "(scast ret :: csize) \<noteq> 0"
  proof
    assume "(scast ret :: csize) = 0"
    then have "ret = 0" using ucast_scast_cint [of ret] by simp
    with assms(5) show False by (simp add: word_sless_alt)
  qed
  ultimately show ?thesis
    using assms(4)
    by (simp add: submit_prepare_def submit_loop_def sq_pending_def refill_stops GenericResponse_await_def
        suspend_at_def frame_at_def put_frame_def runs)
qed

theorem batch_waits_for_others_witness:
  "\<exists>w f. submit_prepare sim_uring (\<lambda>h. returnM ()) 5 \<lparr>req_vec = []\<rparr> 0 3 [] 0 (at_point (PollBegin 0)) = Inr ((), w) \<and>
     frames w 0 = Some f \<and> body f = SubmitGeneric 0 [] 0 3 0"
  by (subst batch_waits_for_others [where f = "\<lparr>promise = new_promise, suspended = True, body = PollBegin 0\<rparr>"])
    (simp_all add: LivingState_order word_sless_alt idle_ring_def)

text \<open>The ring after the entries of a batch are prepared, where there is an entry for each member.\<close>

fun entries :: "'r uring \<Rightarrow> (OperationParameterPackVariant \<times> addr) list \<Rightarrow> 'r \<Rightarrow> 'r option" where
  "entries U [] r = Some r"
| "entries U ((p, a) # ms) r =
     (case u_get_sqe U r of
        (None, r1) \<Rightarrow> None
      | (Some s, r1) \<Rightarrow> entries U ms (u_set_data U s a (u_prep U s (prep_of p) r1)))"

definition batch_member :: "addr \<Rightarrow> OperationParameterPackVariant \<Rightarrow> RequestData" where
  "batch_member h p = \<lparr>handle = Some h, coro_idx = 0, coro_finished = None, req_type = Op_type p,
     allocated_dynamic = False, specific_data = p\<rparr>"

lemma members_prepared:
  fixes w :: "('u, 'h, 'r) em_world"
  assumes "manager_life_state w \<le> LIVING" and "ring_open w"
    and "\<forall>m \<in> set ms. requests w (snd m) = Some new_RequestData" and "distinct (map snd ms)"
    and "entries U ms (ring w) = Some r'"
  shows "mapM (\<lambda>(req, single_req). process_single_generic_request U req single_req (Some h)) ms w =
    Inr (map (\<lambda>_. True) ms, w\<lparr>requests := (requests w)(map snd ms [\<mapsto>] map (batch_member h \<circ> fst) ms),
      ring := r'\<rparr>)"
  using assms
proof (induction ms arbitrary: w)
  case Nil
  then show ?case by simp
next
  case (Cons m ms)
  obtain p a where m: "m = (p, a)" by (cases m)
  with Cons.prems(5) obtain s r1 where s: "u_get_sqe U (ring w) = (Some s, r1)"
      and rest: "entries U ms (u_set_data U s a (u_prep U s (prep_of p) r1)) = Some r'"
    by (auto split: prod.splits option.splits)
  let ?w = "w\<lparr>requests := (requests w)(a \<mapsto> batch_member h p),
      ring := u_set_data U s a (u_prep U s (prep_of p) r1)\<rparr>"
  have a: "requests w a = Some new_RequestData" using Cons.prems(3) m by simp
  have "process_single_generic_request U p a (Some h) w = Inr (True, ?w)"
    using batch_request_prepared_main [OF Cons.prems(1,2) a] s
    by (simp add: batch_member_def new_RequestData_def)
  moreover have "mapM (\<lambda>(req, single_req). process_single_generic_request U req single_req (Some h)) ms ?w =
      Inr (map (\<lambda>_. True) ms, ?w\<lparr>requests := (requests ?w)(map snd ms [\<mapsto>] map (batch_member h \<circ> fst) ms),
        ring := r'\<rparr>)"
    by (rule Cons.IH) (use Cons.prems rest m in auto)
  ultimately show ?case by (simp add: m bindM_run comp_def del: fun_upd_apply)
qed

text \<open>
  C19. A batch is prepared as it was asked for: when the ring has an entry for each member of a
  \<open>RequestQueue\<close> that was filled by any sequence of \<open>queue_\<close> calls, \<open>submit_and_wait\<close> prepares one entry for each
  call, in the order of the calls, with the operation and the arguments of the call and the address of
  its own element of \<open>req_data\<close>, which gets their tag and the handle of the coroutine; and it goes on to
  wait for all that is then queued.
\<close>

theorem batch_prepared_as_called:
  fixes w :: "('u, 'h, 'r) em_world"
  assumes "manager_life_state w \<le> LIVING" and "ring_open w"
    and "length rds = length ps" and "distinct rds"
    and "\<forall>r \<in> set rds. requests w r = Some new_RequestData"
    and "entries U (zip ps rds) (ring w) = Some r'"
  shows "submit_prepare U rs n (fold queue_call ps make_request_queue) st ret rds h w =
    submit_loop U rs n st rds (scast ret) (u_sqe_tail U r' - u_sqe_head U r') h
      (w\<lparr>requests := (requests w)(rds [\<mapsto>] map (batch_member h) ps), ring := r'\<rparr>)"
proof -
  have q: "req_vec (fold queue_call ps make_request_queue) = ps"
    by (simp add: queue_calls_req_vec make_request_queue_def)
  have "\<forall>m \<in> set (zip ps rds). requests w (snd m) = Some new_RequestData"
    using assms(5) by (auto dest: set_zip_rightD)
  moreover have "distinct (map snd (zip ps rds))" using assms(3,4) by simp
  ultimately show ?thesis
    using members_prepared [OF assms(1,2) _ _ assms(6), of h] assms(3)
    by (simp add: submit_prepare_def q sq_pending_def runs map_map [symmetric] del: map_map fun_upd_apply)
qed


theorem batch_prepared_as_called_witness:
  "\<exists>w. submit_prepare sim_uring (\<lambda>h. returnM ()) 5
       (fold queue_call [ClosePack \<lparr>close_p_fd = 7\<rparr>, ShutdownPack \<lparr>shutdown_p_fd = 8, shutdown_p_how = 2\<rparr>]
         make_request_queue) 0 0 [3, 4] 0
       ((at_point (PollBegin 0))\<lparr>requests := [3 \<mapsto> new_RequestData, 4 \<mapsto> new_RequestData]\<rparr>) =
     submit_loop sim_uring (\<lambda>h. returnM ()) 5 0 [3, 4] 0 2 0 w \<and>
     sim_queued (ring w) = [(Some (PrepClose 7), Some 3), (Some (PrepShutdown 8 2), Some 4)] \<and>
     map_option req_type (requests w 4) = Some SHUTDOWN"
proof -
  let ?ps = "[ClosePack \<lparr>close_p_fd = 7\<rparr>, ShutdownPack \<lparr>shutdown_p_fd = 8, shutdown_p_how = 2\<rparr>]"
  let ?w = "(at_point (PollBegin 0))\<lparr>requests := [3 \<mapsto> new_RequestData, 4 \<mapsto> new_RequestData]\<rparr>"
  let ?r = "idle_ring\<lparr>sim_queued := [(Some (PrepClose 7), Some 3), (Some (PrepShutdown 8 2), Some 4)]\<rparr>"
  have fits: "entries sim_uring (zip ?ps [3, 4]) (ring ?w) = Some ?r"
    by (simp add: sim_get_sqe_def sim_entry_def idle_ring_def Let_def)
  show ?thesis
    by (subst batch_prepared_as_called [OF _ _ _ _ _ fits])
      (auto simp: LivingState_order idle_ring_def batch_member_def simp del: queue_call.simps)
qed

subsection \<open>poll\<close>

text \<open>
  C33. A coroutine that polls is the polling handle exactly while it waits: when a response reaches it the
  callback is called with the type of the response and its channel, and if it asks to go on, the
  coroutine waits again, with the state the callback has left, as the polling handle; if it asks to
  stop, polling is free for another coroutine and \<open>poll\<close> returns 0.
\<close>

theorem poll_turn:
  assumes "frames w h = Some f" and "suspended f" and "body f = PollGeneric st"
    and "on_poll P st (response_store_current_type (com_data (promise f))) (com_data (promise f)) =
      (go, st', c, [])"
  shows "resume U P (Suc (Suc n)) h w =
    (if go = CONTINUE_POLLING
     then Inr ((), w\<lparr>polling_handle := Some h, frames := (frames w)(h \<mapsto>
            f\<lparr>promise := (promise f)\<lparr>com_data := c\<rparr>, suspended := True, body := PollGeneric st'\<rparr>)\<rparr>)
     else co_return (resume U P (Suc n)) 0 h
            (w\<lparr>polling_handle := None, frames := (frames w)(h \<mapsto>
               f\<lparr>suspended := False, promise := (promise f)\<lparr>com_data := c\<rparr>\<rparr>),
               polling_requests := False\<rparr>))"
  using assms
  by (simp add: begin_resume_def poll_received_def poll_retrieved_def call_handler_def promise_at_def
      update_promise_def frame_at_def put_frame_def GenericResponse_await_def
      RetrieveCurrentHandle_await_def suspend_at_def runs)

theorem poll_turn_witness:
  "\<exists>w f. resume sim_uring counting (Suc (Suc 0)) 0 (at_point (PollGeneric 0)) = Inr ((), w) \<and>
     frames w 0 = Some f \<and> body f = PollGeneric 1 \<and> polling_handle w = Some 0"
proof -
  have f: "frames (at_point (PollGeneric 0)) 0 =
      Some \<lparr>promise = new_promise, suspended = True, body = PollGeneric 0\<rparr>" by simp
  show ?thesis
    by (subst poll_turn [OF f, where st' = "Suc 0" and c = "com_data new_promise" and go = CONTINUE_POLLING])
      simp_all
qed

lemma mapM_const:
  "length xs = length ys \<Longrightarrow> mapM (\<lambda>_. m) xs = mapM (\<lambda>_. m) ys"
  by (induction xs ys rule: list_induct2) simp_all

lemma promise_is_done_frame:
  "frames w h = Some (poll_frame f x) \<Longrightarrow> promise_is_done h w = Inr (False, w) \<Longrightarrow>
     frames w' h = Some (poll_frame f y) \<Longrightarrow> statuses w' = statuses w \<Longrightarrow>
     promise_is_done h w' = Inr (False, w')"
  by (auto simp: promise_is_done_def promise_at_def frame_at_def status_at_def poll_frame_def runs
      split: option.splits)

text \<open>
  A turn of the event loop in which a kept response reaches the coroutine that polls. The callback may
  make requests nobody awaits: \<open>w3\<close> is the state in which they leave the manager.
\<close>

definition awake ::
    "('u, 'h) coro Frame \<Rightarrow> 'h \<times> CommunicationChannel \<Rightarrow> ('u, 'h) coro Frame" where
  "awake f x = f\<lparr>body := PollGeneric (fst x), suspended := False,
     promise := (promise f)\<lparr>com_data := snd x\<rparr>\<rparr>"

lemma poll_requests_delivery:
  fixes w :: "('u, 'h, 'r) em_world"
  assumes "frames w h = Some (poll_frame f x)" and "polling_handle w = Some h"
    and "ready_requests_store w = xs @ [(res, r)]"
    and "requests w r = Some d" and "well_tagged d" and "allocated_dynamic d"
    and "promise_is_done h w = Inr (False, w)"
    and "on_poll P (fst x) (Some (RespData_type (completion_response res (iov_base_of w) (specific_data d))))
      (publish_resp_data (completion_response res (iov_base_of w) (specific_data d)) (snd x)) =
      (CONTINUE_POLLING, st, c, ps)"
    and "mapM (na_request U) ps (w\<lparr>ready_requests_store := xs, requests := (requests w)(r \<mapsto> d\<lparr>handle := Some h\<rparr>),
        polling_handle := None, frames := (frames w)(h \<mapsto> awake f (fst x, c))\<rparr>) = Inr (es, w3)"
    and "frames w3 = (frames w)(h \<mapsto> awake f (fst x, c))" and "statuses w3 = statuses w"
    and "requests w3 r = Some (d\<lparr>handle := Some h\<rparr>)"
  shows "deliver_ready (resume U P (Suc (Suc n))) w =
    Inr ((), w3\<lparr>polling_handle := Some h, frames := (frames w)(h \<mapsto> poll_frame f (st, c)),
      requests := (requests w3)(r := None)\<rparr>)"
proof -
  let ?d = "d\<lparr>handle := Some h\<rparr>"
  let ?data = "completion_response res (iov_base_of w) (specific_data d)"
  let ?rs = "resume U P (Suc (Suc n))"
  let ?v0 = "w\<lparr>ready_requests_store := xs, requests := (requests w)(r \<mapsto> ?d)\<rparr>"
  let ?v1 = "?v0\<lparr>frames := (frames w)(h \<mapsto> (poll_frame f x)\<lparr>promise := (promise f)\<lparr>com_data := publish_resp_data ?data (snd x)\<rparr>\<rparr>)\<rparr>"
  let ?v3 = "w3\<lparr>polling_handle := Some h, frames := (frames w)(h \<mapsto> poll_frame f (st, c))\<rparr>"
  have resp: "handler_response (req_type d) res (iov_base_of w) (specific_data d) = Some ?data"
    using well_tagged_response [OF assms(5)] by simp
  have "deliver_ready ?rs w = event_handler ?rs res (Some r) ?v0"
    using assms(2-4)
    by (simp add: deliver_ready_def update_request_def request_at_def runs del: resume.simps)
  also have "\<dots> = thenM (publish_to_promise ?data h) (thenM (?rs h) (after_resumption r h)) ?v0"
    using resp by (simp add: event_handler_def request_at_def runs del: resume.simps)
  finally have turn: "deliver_ready ?rs w =
      thenM (publish_to_promise ?data h) (thenM (?rs h) (after_resumption r h)) ?v0" .
  have published: "publish_to_promise ?data h ?v0 = Inr ((), ?v1)"
    using assms(1)
    by (simp add: publish_to_promise_def update_promise_def frame_at_def put_frame_def poll_frame_def runs)
  have resumed: "?rs h ?v1 = Inr ((), ?v3)"
    using assms(8-10)
    by (simp add: awake_def poll_frame_def begin_resume_def poll_received_def poll_retrieved_def call_handler_def
        promise_at_def update_promise_def frame_at_def put_frame_def GenericResponse_await_def
        RetrieveCurrentHandle_await_def suspend_at_def runs)
  have "promise_is_done h ?v3 = Inr (False, ?v3)"
    by (rule promise_is_done_frame [OF assms(1,7)]) (simp_all add: assms(11))
  then have after: "after_resumption r h ?v3 = Inr ((), ?v3\<lparr>requests := (requests w3)(r := None)\<rparr>)"
    using assms(6,12) by (simp add: after_resumption_def delete_request_def request_at_def runs)
  show ?thesis unfolding turn thenM_run published resumed sum.case prod.case after by (simp del: fun_upd_apply)
qed

lemma poll_delivery:
  fixes w :: "('u, 'h, 'r) em_world"
  assumes "frames w h = Some (poll_frame f x)" and "polling_handle w = Some h"
    and "ready_requests_store w = xs @ [(res, r)]"
    and "requests w r = Some d" and "well_tagged d" and "allocated_dynamic d"
    and "promise_is_done h w = Inr (False, w)"
    and "on_poll P (fst x) (Some (RespData_type (completion_response res (iov_base_of w) (specific_data d))))
      (publish_resp_data (completion_response res (iov_base_of w) (specific_data d)) (snd x)) =
      (CONTINUE_POLLING, st, c, [])"
  shows "deliver_ready (resume U P (Suc (Suc n))) w =
    Inr ((), w\<lparr>ready_requests_store := xs, requests := (requests w)(r := None),
      frames := (frames w)(h \<mapsto> poll_frame f (st, c))\<rparr>)"
proof -
  let ?v = "w\<lparr>ready_requests_store := xs, requests := (requests w)(r \<mapsto> d\<lparr>handle := Some h\<rparr>),
      polling_handle := None, frames := (frames w)(h \<mapsto> awake f (fst x, c))\<rparr>"
  have "mapM (na_request U) [] ?v = Inr ([], ?v)" by simp
  note run = poll_requests_delivery [OF assms this]
  have "?v\<lparr>polling_handle := Some h, frames := (frames w)(h \<mapsto> poll_frame f (st, c)),
      requests := (requests ?v)(r := None)\<rparr> = w\<lparr>ready_requests_store := xs,
      requests := (requests w)(r := None), frames := (frames w)(h \<mapsto> poll_frame f (st, c))\<rparr>"
    using assms(2) by (intro manager.equality) simp_all
  then show ?thesis using run by simp
qed

text \<open>The response that a kept completion carries.\<close>

definition poll_data :: "('u, 'h, 'r) em_world \<Rightarrow> cint \<times> addr \<Rightarrow> RespData" where
  "poll_data w y = completion_response (fst y) (iov_base_of w) (specific_data (the (requests w (snd y))))"

text \<open>
  C21. Polling is given what has been kept for it from the end. \<open>deliver_ready\<close> is the first step of every
  turn of the event loop; as many such steps as there are kept responses, with nothing kept in between,
  call the callback on each response once, the latest first, free the request data of each, and leave
  the coroutine waiting for the next one, for a callback that goes on polling and makes no request.
\<close>

theorem poll_collects_lifo:
  fixes w :: "('u, 'h, 'r) em_world"
  assumes "frames w h = Some (poll_frame f x)" and "polling_handle w = Some h"
    and "ready_requests_store w = ys" and "distinct (map snd ys)"
    and "\<forall>y \<in> set ys. \<exists>d. requests w (snd y) = Some d \<and> well_tagged d \<and> allocated_dynamic d"
    and "promise_is_done h w = Inr (False, w)"
    and "\<forall>st t c. fst (on_poll P st t c) = CONTINUE_POLLING \<and> snd (snd (snd (on_poll P st t c))) = []"
  shows "mapM (\<lambda>_. deliver_ready (resume U P (Suc (Suc n)))) ys w =
    Inr (map (\<lambda>_. ()) ys, w\<lparr>ready_requests_store := [], requests := requests w |` (- snd ` set ys),
      frames := (frames w)(h \<mapsto> poll_frame f (foldl (poll_answer P) x (map (poll_data w) (rev ys))))\<rparr>)"
  using assms(1-6)
proof (induction ys arbitrary: w x rule: rev_induct)
  case Nil
  then show ?case
    by (simp only: mapM.simps returnM_run) (auto intro!: manager.equality)
next
  case (snoc y ys)
  obtain res r where y: "y = (res, r)" by (cases y)
  obtain d where d: "requests w r = Some d" "well_tagged d" "allocated_dynamic d"
    using snoc.prems(5) y by auto
  let ?data = "completion_response res (iov_base_of w) (specific_data d)"
  have data: "poll_data w y = ?data" by (simp add: poll_data_def y d(1))
  obtain st c where on: "on_poll P (fst x) (Some (RespData_type ?data)) (publish_resp_data ?data (snd x)) =
      (CONTINUE_POLLING, st, c, [])"
    using assms(7) by (metis prod.collapse)
  let ?x = "poll_answer P x (poll_data w y)"
  let ?w = "w\<lparr>ready_requests_store := ys, requests := (requests w)(r := None),
      frames := (frames w)(h \<mapsto> poll_frame f ?x)\<rparr>"
  have "ready_requests_store w = ys @ [(res, r)]" using snoc.prems(3) y by simp
  note one = poll_delivery [OF snoc.prems(1,2) this d snoc.prems(6) on, of U n]
  have x: "?x = (st, c)" unfolding data poll_answer_def on by simp
  note one = one [folded x]
  have "promise_is_done h ?w = Inr (False, ?w)"
    by (rule promise_is_done_frame [OF snoc.prems(1,6)]) simp_all
  moreover have "\<forall>z \<in> set ys. snd z \<noteq> r" using snoc.prems(4) y by (auto simp: image_iff)
  note fresh = this
  ultimately have rest: "mapM (\<lambda>_. deliver_ready (resume U P (Suc (Suc n)))) ys ?w =
    Inr (map (\<lambda>_. ()) ys, ?w\<lparr>ready_requests_store := [], requests := requests ?w |` (- snd ` set ys),
      frames := (frames ?w)(h \<mapsto> poll_frame f (foldl (poll_answer P) ?x (map (poll_data ?w) (rev ys))))\<rparr>)"
    using snoc.prems by (intro snoc.IH) auto
  have same: "map (poll_data ?w) (rev ys) = map (poll_data w) (rev ys)"
    using fresh by (auto simp: poll_data_def)
  have "requests ?w |` (- snd ` set ys) = requests w |` (- snd ` set (ys @ [y]))"
    by (auto simp: restrict_map_def fun_eq_iff y)
  then have final: "?w\<lparr>ready_requests_store := [], requests := requests ?w |` (- snd ` set ys),
      frames := (frames ?w)(h \<mapsto> poll_frame f (foldl (poll_answer P) ?x (map (poll_data ?w) (rev ys))))\<rparr> =
    w\<lparr>ready_requests_store := [], requests := requests w |` (- snd ` set (ys @ [y])),
      frames := (frames w)(h \<mapsto> poll_frame f (foldl (poll_answer P) x (map (poll_data w) (rev (ys @ [y])))))\<rparr>"
    unfolding same by (intro manager.equality) simp_all
  have shift: "mapM (\<lambda>_. deliver_ready (resume U P (Suc (Suc n)))) (ys @ [y]) =
      mapM (\<lambda>_. deliver_ready (resume U P (Suc (Suc n)))) (y # ys)"
    by (rule mapM_const) simp
  have "() # map (\<lambda>_. ()) ys = map (\<lambda>_. ()) ys @ [()]" by (induction ys) simp_all
  then show ?case
    unfolding shift mapM.simps bindM_run one sum.case prod.case rest final by (simp del: fun_upd_apply)
qed

theorem poll_collects_lifo_witness:
  "\<exists>w f. mapM (\<lambda>_. deliver_ready (resume sim_uring counting (Suc (Suc 0)))) [(3 :: cint, 5 :: addr), (4, 6)]
       ((at_point (PollGeneric 0))\<lparr>polling_handle := Some 0, ready_requests_store := [(3, 5), (4, 6)],
          requests := [5 \<mapsto> new_RequestData\<lparr>allocated_dynamic := True\<rparr>,
                       6 \<mapsto> new_RequestData\<lparr>allocated_dynamic := True\<rparr>]\<rparr>) = Inr ([(), ()], w) \<and>
     frames w 0 = Some f \<and> body f = PollGeneric 2 \<and> requests w = Map.empty"
proof -
  let ?d = "new_RequestData\<lparr>allocated_dynamic := True\<rparr>"
  let ?w = "(at_point (PollGeneric 0))\<lparr>polling_handle := Some 0, ready_requests_store := [(3, 5), (4, 6)],
          requests := [5 \<mapsto> ?d, 6 \<mapsto> ?d]\<rparr>"
  let ?f = "\<lparr>promise = new_promise, suspended = True, body = PollGeneric 0\<rparr> :: (nat, nat) coro Frame"
  have "frames ?w 0 = Some (poll_frame ?f (0, com_data new_promise))"
    by (simp add: poll_frame_def)
  moreover have "promise_is_done 0 ?w = Inr (False, ?w)"
    by (simp add: promise_is_done_def promise_at_def frame_at_def new_promise_def runs)
  moreover have "well_tagged ?d"
    by (simp add: well_tagged_def new_RequestData_def specific_data_init_def)
  ultimately show ?thesis
    by (subst poll_collects_lifo [where f = ?f and h = 0 and x = "(0, com_data new_promise)"])
      (simp_all add: poll_answer_def poll_frame_def fun_eq_iff restrict_map_def del: deliver_ready_def resume.simps)
qed

text \<open>The turns of the event loop in which a kept response is delivered and another one arrives.\<close>

lemma starving_turn:
  fixes w :: "('u, 'h, 'r) em_world"
  assumes "frames w h = Some (poll_frame f x)" and "polling_handle w = Some h"
    and "promise_is_done h w = Inr (False, w)"
    and "manager_life_state w = LIVING" and "ring_open w"
    and "ready_requests_store w = base @ [y]"
    and "requests w (snd y) = Some d" and "well_tagged d" and "allocated_dynamic d"
    and "u_wait_cqe U (ring w) = (Ready k res (Some r), r1)"
    and "requests w r = Some d'" and "handle d' = None" and "r \<noteq> snd y"
    and "\<forall>st t c. fst (on_poll P st t c) = CONTINUE_POLLING \<and> snd (snd (snd (on_poll P st t c))) = []"
  shows "await_message U (resume U P (Suc (Suc n))) w =
    Inr ((), w\<lparr>requests := (requests w)(snd y := None),
      frames := (frames w)(h \<mapsto> poll_frame f (poll_answer P x (poll_data w y))),
      ready_requests_store := base @ [(res, r)], ring := u_cqe_seen U k r1,
      in_flight_requests := in_flight_requests w - 1\<rparr>)"
proof -
  obtain res0 r0 where y: "y = (res0, r0)" by (cases y)
  let ?data = "completion_response res0 (iov_base_of w) (specific_data d)"
  have data: "poll_data w y = ?data" using assms(7) by (simp add: poll_data_def y)
  obtain st c where on: "on_poll P (fst x) (Some (RespData_type ?data)) (publish_resp_data ?data (snd x)) =
      (CONTINUE_POLLING, st, c, [])"
    using assms(14) by (metis prod.collapse)
  have x: "poll_answer P x (poll_data w y) = (st, c)" unfolding data poll_answer_def on by simp
  let ?w1 = "w\<lparr>ready_requests_store := base, requests := (requests w)(r0 := None),
      frames := (frames w)(h \<mapsto> poll_frame f (st, c))\<rparr>"
  have 1: "deliver_ready (resume U P (Suc (Suc n))) w = Inr ((), ?w1)"
    by (rule poll_delivery [OF assms(1,2) _ _ assms(8,9,3) on]) (use assms(6,7) y in simp_all)
  have "await_message U (resume U P (Suc (Suc n))) w =
      Inr ((), ?w1\<lparr>ready_requests_store := base @ [(res, r)], ring := u_cqe_seen U k r1,
        in_flight_requests := in_flight_requests w - 1\<rparr>)"
    using assms(4,5,10-13) y
    by (simp add: await_message_def 1 on_ring_def event_handler_def request_at_def runs LivingState_order
        fun_upd_other del: resume.simps fun_upd_apply)
  moreover have "?w1\<lparr>ready_requests_store := base @ [(res, r)], ring := u_cqe_seen U k r1,
        in_flight_requests := in_flight_requests w - 1\<rparr> =
      w\<lparr>requests := (requests w)(snd y := None),
      frames := (frames w)(h \<mapsto> poll_frame f (poll_answer P x (poll_data w y))),
      ready_requests_store := base @ [(res, r)], ring := u_cqe_seen U k r1,
      in_flight_requests := in_flight_requests w - 1\<rparr>"
    unfolding x by (intro manager.equality) (simp_all add: y)
  ultimately show ?thesis by simp
qed


text \<open>
  C22. Newer responses starve the older ones. While every turn of the event loop of a living manager
  brings the completion of another request nobody awaits, each turn hands to the poll callback (one that
  goes on polling and makes no request) the response that the turn before it has kept; the responses
  that were kept before that stay where they are, after any number of turns.
\<close>

theorem poll_starves_older:
  fixes w :: "('u, 'h, 'r) em_world"
  assumes "frames w h = Some (poll_frame f x)" and "polling_handle w = Some h"
    and "promise_is_done h w = Inr (False, w)"
    and "manager_life_state w = LIVING" and "ring_open w"
    and "ready_requests_store w = base @ [y]"
    and "drain U (length ys) (ring w) = Some (map (\<lambda>(res, r). (res, Some r)) ys, r')"
    and "distinct (map snd (y # ys))"
    and "\<forall>z \<in> set (y # ys). \<exists>d. requests w (snd z) = Some d \<and> well_tagged d \<and> allocated_dynamic d \<and>
      handle d = None"
    and "\<forall>st t c. fst (on_poll P st t c) = CONTINUE_POLLING \<and> snd (snd (snd (on_poll P st t c))) = []"
  shows "mapM (\<lambda>_. await_message U (resume U P (Suc (Suc n)))) ys w =
    Inr (map (\<lambda>_. ()) ys, w\<lparr>requests := requests w |` (- snd ` set (butlast (y # ys))),
      frames := (frames w)(h \<mapsto> poll_frame f (foldl (poll_answer P) x (map (poll_data w) (butlast (y # ys))))),
      ready_requests_store := base @ [last (y # ys)], ring := r',
      in_flight_requests := in_flight_requests w - of_nat (length ys)\<rparr>)"
  using assms(1-9)
proof (induction ys arbitrary: w x y)
  case Nil
  then show ?case
    by (simp only: mapM.simps returnM_run) (auto intro!: manager.equality)
next
  case (Cons z zs)
  obtain res r where z: "z = (res, r)" by (cases z)
  obtain k r1 where k: "u_wait_cqe U (ring w) = (Ready k res (Some r), r1)"
      and rest: "drain U (length zs) (u_cqe_seen U k r1) = Some (map (\<lambda>(res, r). (res, Some r)) zs, r')"
    using Cons.prems(7) z by (auto split: prod.splits wait_result.splits option.splits)
  obtain d d' where d: "requests w (snd y) = Some d" "well_tagged d" "allocated_dynamic d"
      and d': "requests w r = Some d'" "handle d' = None"
    using Cons.prems(9) z by auto
  have "r \<noteq> snd y" using Cons.prems(8) z by auto
  note one = starving_turn [OF Cons.prems(1-6) d k d' this assms(10), of n]
  let ?x = "poll_answer P x (poll_data w y)"
  let ?w = "w\<lparr>requests := (requests w)(snd y := None), frames := (frames w)(h \<mapsto> poll_frame f ?x),
      ready_requests_store := base @ [(res, r)], ring := u_cqe_seen U k r1,
      in_flight_requests := in_flight_requests w - 1\<rparr>"
  have fresh: "\<forall>v \<in> set (z # zs). snd v \<noteq> snd y" using Cons.prems(8) by (auto simp: image_iff)
  have "promise_is_done h ?w = Inr (False, ?w)"
    by (rule promise_is_done_frame [OF Cons.prems(1,3)]) simp_all
  then have IH: "mapM (\<lambda>_. await_message U (resume U P (Suc (Suc n)))) zs ?w =
    Inr (map (\<lambda>_. ()) zs, ?w\<lparr>requests := requests ?w |` (- snd ` set (butlast (z # zs))),
      frames := (frames ?w)(h \<mapsto> poll_frame f (foldl (poll_answer P) ?x (map (poll_data ?w) (butlast (z # zs))))),
      ready_requests_store := base @ [last (z # zs)], ring := r',
      in_flight_requests := in_flight_requests ?w - of_nat (length zs)\<rparr>)"
    using Cons.prems fresh rest z by (intro Cons.IH) auto
  have kept: "\<forall>v \<in> set (butlast (z # zs)). snd v \<noteq> snd y" using fresh in_set_butlastD by fast
  then have data: "map (poll_data ?w) (butlast (z # zs)) = map (poll_data w) (butlast (z # zs))"
    by (intro map_cong) (simp_all add: poll_data_def)
  have reqs: "requests ?w |` (- snd ` set (butlast (z # zs))) = requests w |` (- snd ` set (butlast (y # z # zs)))"
    by (auto simp: restrict_map_def fun_eq_iff)
  have final: "?w\<lparr>requests := requests ?w |` (- snd ` set (butlast (z # zs))),
      frames := (frames ?w)(h \<mapsto> poll_frame f (foldl (poll_answer P) ?x (map (poll_data ?w) (butlast (z # zs))))),
      ready_requests_store := base @ [last (z # zs)], ring := r',
      in_flight_requests := in_flight_requests ?w - of_nat (length zs)\<rparr> =
    w\<lparr>requests := requests w |` (- snd ` set (butlast (y # z # zs))),
      frames := (frames w)(h \<mapsto> poll_frame f (foldl (poll_answer P) x (map (poll_data w) (butlast (y # z # zs))))),
      ready_requests_store := base @ [last (y # z # zs)], ring := r',
      in_flight_requests := in_flight_requests w - of_nat (length (z # zs))\<rparr>"
    unfolding data reqs by (intro manager.equality) simp_all
  show ?case
    unfolding mapM.simps bindM_run one sum.case prod.case IH final by (simp del: fun_upd_apply butlast.simps last.simps)
qed

theorem poll_starves_older_witness:
  "\<exists>w f. mapM (\<lambda>_. await_message sim_uring (resume sim_uring counting (Suc (Suc 0)))) [(0 :: cint, 7 :: addr), (0, 8)]
       ((at_point (PollGeneric 0))\<lparr>polling_handle := Some 0, ready_requests_store := [(3, 5), (4, 6)],
          requests := (\<lambda>r. if r \<in> {5, 6, 7, 8} then Some (new_RequestData\<lparr>allocated_dynamic := True\<rparr>) else None),
          ring := idle_ring\<lparr>sim_taken := [(None, Some 7), (None, Some 8)]\<rparr>, in_flight_requests := 2\<rparr>) =
       Inr ([(), ()], w) \<and>
     frames w 0 = Some f \<and> body f = PollGeneric 2 \<and> ready_requests_store w = [(3, 5), (0, 8)]"
proof -
  let ?d = "new_RequestData\<lparr>allocated_dynamic := True\<rparr>"
  let ?w = "(at_point (PollGeneric 0))\<lparr>polling_handle := Some 0, ready_requests_store := [(3, 5), (4, 6)],
          requests := (\<lambda>r. if r \<in> {5, 6, 7, 8} then Some ?d else None),
          ring := idle_ring\<lparr>sim_taken := [(None, Some 7), (None, Some 8)]\<rparr>, in_flight_requests := 2\<rparr>"
  let ?f = "\<lparr>promise = new_promise, suspended = True, body = PollGeneric 0\<rparr> :: (nat, nat) coro Frame"
  have f: "frames ?w 0 = Some (poll_frame ?f (0, com_data new_promise))"
    by (simp add: poll_frame_def)
  have nd: "promise_is_done 0 ?w = Inr (False, ?w)"
    by (simp add: promise_is_done_def promise_at_def frame_at_def new_promise_def runs)
  have t: "well_tagged ?d" "handle ?d = None"
    by (simp_all add: well_tagged_def new_RequestData_def specific_data_init_def)
  have dr: "drain sim_uring (length [(0 :: cint, 7 :: addr), (0, 8)]) (ring ?w) =
      Some (map (\<lambda>(res, r). (res, Some r)) [(0, 7), (0, 8)], idle_ring)"
    by (simp add: sim_wait_cqe_def idle_ring_def)
  have "\<forall>st t c. fst (on_poll counting st t c) = CONTINUE_POLLING \<and> snd (snd (snd (on_poll counting st t c))) = []"
    by simp
  from poll_starves_older [OF f _ nd _ _ _ dr _ _ this, of "[(3, 5)]" "(4, 6)" 0] t
  show ?thesis by (simp add: poll_answer_def poll_frame_def del: resume.simps mapM.simps)
qed

subsection \<open>register_coro\<close>

text \<open>
  Where the ownership is sound, moving an \<open>EvTask\<close> that has a coroutine writes the pointer the promise
  already holds, or the promise is gone.
\<close>

lemma move_construct_owned:
  fixes v :: "('b, 'r) manager"
  assumes "heap_ok v xs" and "z \<in> set xs \<or> tasks v t = Some z" and "own_handle z = Some h"
  shows "EvTask_move_construct z v = (if frames v h = None then Inl UseAfterFree else Inr (z, v))"
proof -
  have "task_inv (ptrs v) (dones v) (next_addr v) z"
    using assms(1,2) heap_ok_task_inv by blast
  then have agree: "task_status_ptr (promise f) = own_status z" if "frames v h = Some f" for f
    using that assms(3) by (cases rule: task_inv_cases) (auto simp: ptrs_Some ptrs_None)
  show ?thesis
  proof (cases "frames v h")
    case None
    with assms(3) show ?thesis
      by (simp add: EvTask_move_construct_def non_null_def update_promise_def frame_at_def runs)
  next
    case (Some f)
    have "f\<lparr>promise := (promise f)\<lparr>task_status_ptr := own_status z\<rparr>\<rparr> = f"
      using agree [OF Some] by simp
    with Some have "v\<lparr>frames := (frames v)(h \<mapsto> f\<lparr>promise := (promise f)\<lparr>task_status_ptr := own_status z\<rparr>\<rparr>)\<rparr> = v"
      by (intro manager.equality) (simp_all add: map_upd_triv)
    with Some assms(3) show ?thesis
      by (simp add: EvTask_move_construct_def non_null_def update_promise_def frame_at_def put_frame_def runs
          del: fun_upd_apply)
  qed
qed

lemma move_all_owned:
  fixes v :: "('b, 'r) manager"
  assumes "heap_ok v ys" and "\<forall>z \<in> set xs. z \<in> set ys \<and> own_handle z \<noteq> None"
  shows "mapM EvTask_move_construct xs v =
    (if \<exists>z \<in> set xs. frames v (the (own_handle z)) = None then Inl UseAfterFree else Inr (xs, v))"
  using assms(2)
proof (induction xs)
  case Nil
  then show ?case by simp
next
  case (Cons z xs)
  then obtain h where h: "own_handle z = Some h" "z \<in> set ys" by auto
  with move_construct_owned [OF assms(1), of z _ h] Cons show ?case by (auto simp: bindM_run)
qed

text \<open>A world with one coroutine whose \<open>EvTask\<close> is a variable at address 5, running or finished.\<close>

definition one_started :: "bool \<Rightarrow> (nat, nat, sim_ring) em_world" where
  "one_started finished = (empty_world LIVING idle_ring)
     \<lparr>frames := (if finished then Map.empty else
         [0 \<mapsto> \<lparr>promise = new_promise\<lparr>task_status_ptr := Some 1\<rparr>, suspended = True, body = PollBegin 0\<rparr>]),
      statuses := [1 \<mapsto> \<lparr>handler_done = finished, ret_code = 0\<rparr>],
      tasks := [5 \<mapsto> \<lparr>started_coro = True, own_status = Some 1, own_handle = Some 0\<rparr>],
      next_addr := 6\<rparr>"

lemma one_started_ok: "heap_ok (one_started finished) []"
  by (auto simp: one_started_def empty_world_def heap_ok_def ownership_def task_inv_def frames_inv_def
      owners_inv_def addrs_inv_def ptrs_def dones_def split: if_splits)

text \<open>
  C34. A coroutine that is suspended after its start is kept: its \<open>EvTask\<close> is moved behind the managed
  ones, the variable it comes from is left empty, and the promise holds the index of its slot. This is
  so where no slot has been given back, with room in the vector or, when it has to grow, as long as
  every managed coroutine still runs.
\<close>

theorem registered_coroutine_kept:
  fixes v :: "('b, 'r) manager"
  assumes "EvTask_start rs t w = Inr (y, v)" and "tasks v t = Some x" and "own_handle x = Some h"
    and "frames v h = Some f" and "heap_ok v xs"
    and "managed_coroutines_store v = \<lparr>items = xs, capacity = n, freed_idxs = {}\<rparr>"
    and "length xs < n \<or> (\<forall>z \<in> set xs. \<exists>g. own_handle z = Some g \<and> frames v g \<noteq> None)"
  shows "register_coro pick grow destroy rs t w =
    Inr ((), v\<lparr>tasks := (tasks v)(t \<mapsto> moved_from),
      managed_coroutines_store := \<lparr>items = xs @ [x],
        capacity = (if length xs < n then n else grown grow n), freed_idxs = {}\<rparr>,
      frames := (frames v)(h \<mapsto> f\<lparr>promise := (promise f)\<lparr>metadata := of_nat (length xs)\<rparr>\<rparr>)\<rparr>)"
proof -
  let ?st = "\<lparr>items = xs, capacity = n, freed_idxs = {}\<rparr>"
  let ?st' = "\<lparr>items = xs @ [x], capacity = (if length xs < n then n else grown grow n), freed_idxs = {}\<rparr>"
  have one: "EvTask_move_construct x v = Inr (x, v)"
    using move_construct_owned [OF assms(5) _ assms(3), of t] assms(2,4) by simp
  have all: "mapM EvTask_move_construct xs v = Inr (xs, v)" if "\<not> length xs < n"
    using move_all_owned [OF assms(5), of xs] assms(7) that by fastforce
  have "ItemStore_insert pick grow EvTask_move_construct (EvTask_move_assign destroy) x ?st v =
      Inr ((length xs, ?st'), v)"
    using one all by (simp add: ItemStore_insert_def bindM_run)
  with assms(1-4,6) show ?thesis
    by (simp add: register_coro_def ItemStore_at_def set_coro_metadata_def update_promise_def
        frame_at_def put_frame_def task_at_def put_task_def runs)
qed

theorem registered_coroutine_kept_witness:
  "\<exists>w. register_coro Min Suc (\<lambda>h. returnM ()) (\<lambda>h. returnM ()) 5 (one_started False) = Inr ((), w) \<and>
     length (items (managed_coroutines_store w)) = 1 \<and> capacity (managed_coroutines_store w) = 1"
proof -
  have "EvTask_start (\<lambda>h. returnM ()) 5 (one_started False) = Inr (None, one_started False)"
    by (simp add: EvTask_start_def task_at_def runs one_started_def)
  from registered_coroutine_kept [OF this, of "\<lparr>started_coro = True, own_status = Some 1, own_handle = Some 0\<rparr>"
      0 "\<lparr>promise = new_promise\<lparr>task_status_ptr := Some 1\<rparr>, suspended = True, body = PollBegin 0\<rparr>" "[]" 0]
    one_started_ok [of False]
  show ?thesis by (simp add: one_started_def empty_world_def new_ItemStore_def grown_def)
qed

text \<open>
  A coroutine that finishes before it is registered cannot be, and neither can any other once a
  managed one has finished and the vector has to grow: \<open>register_coro\<close> starts the coroutine and then
  moves its \<open>EvTask\<close> into the vector, which moves every managed one when it is full, and each of these
  moves writes to the promise of a coroutine that may be gone.
\<close>

lemma registration_uses_finished:
  fixes v :: "('b, 'r) manager"
  assumes "EvTask_start rs t w = Inr (y, v)" and "tasks v t = Some x" and "own_handle x \<noteq> None"
    and "heap_ok v xs" and "managed_coroutines_store v = \<lparr>items = xs, capacity = n, freed_idxs = {}\<rparr>"
    and "\<forall>z \<in> set xs. own_handle z \<noteq> None"
    and "z = x \<or> z \<in> set xs \<and> n \<le> length xs" and "own_status z = Some s" and "dones v s = Some True"
  shows "register_coro pick grow destroy rs t w = Inl UseAfterFree"
proof -
  have "z \<in> set xs \<or> tasks v t = Some z" using assms(2,7) by blast
  then have "task_inv (ptrs v) (dones v) (next_addr v) z" using heap_ok_task_inv [OF assms(4)] by blast
  then obtain g where g: "own_handle z = Some g" "frames v g = None"
    using assms(8,9) by (cases rule: task_inv_cases) (auto simp: ptrs_None)
  obtain h where h: "own_handle x = Some h" using assms(3) by blast
  note one = move_construct_owned [OF assms(4) _ h, of t]
  note all = move_all_owned [OF assms(4), of xs]
  have "ItemStore_insert pick grow EvTask_move_construct (EvTask_move_assign destroy) x
      \<lparr>items = xs, capacity = n, freed_idxs = {}\<rparr> v = Inl UseAfterFree"
  proof (cases "z = x")
    case True
    with g h one assms(2) show ?thesis by (simp add: ItemStore_insert_def bindM_run)
  next
    case False
    with assms(7) have z: "z \<in> set xs" "\<not> length xs < n" by auto
    with g have "\<exists>z \<in> set xs. frames v (the (own_handle z)) = None" by force
    with one all z(2) assms(2,6) show ?thesis by (simp add: ItemStore_insert_def bindM_run)
  qed
  with assms(1,2,5) show ?thesis by (simp add: register_coro_def task_at_def runs)
qed

lemma registration_uses_finished_witness:
  "register_coro Min Suc (\<lambda>h. returnM ()) (\<lambda>h. returnM ()) 5 (one_started True) = Inl UseAfterFree"
proof -
  let ?x = "\<lparr>started_coro = True, own_status = Some 1, own_handle = Some 0\<rparr>"
  have start: "EvTask_start (\<lambda>h. returnM ()) 5 (one_started True) = Inr (None, one_started True)"
    by (simp add: EvTask_start_def task_at_def runs one_started_def)
  show ?thesis
    by (rule registration_uses_finished [OF start, of ?x "[]" 0 ?x 1])
      (use one_started_ok [of True] in \<open>simp_all add: one_started_def empty_world_def new_ItemStore_def dones_def\<close>)
qed

end
