(* ===== verification/Em_Loop_Example.thy ===== *)
theory Em_Loop_Example
  imports Em_Examples Em_Batch_Laws
begin

text \<open>
  \<open>event_loop_example.cpp\<close>: coroutines that await one another, write and read a file, submit a batch, and
  count in a global variable which of them is the last, which kills the manager. The descriptors \<open>open\<close>
  returns and the addresses of the text and of the buffer are parameters of each coroutine.
\<close>

subsection \<open>Its text\<close>

definition newline :: string where
  "newline = [CHR 0x0A]"

definition LOREM_IPSUM :: string where
  "LOREM_IPSUM =
     ''Lorem ipsum dolor sit amet, consectetur adipiscing elit. Aenean ultricies'' @ newline @
     ''ex sit amet orci tincidunt, a viverra sem suscipit. Phasellus non quam'' @ newline @
     ''bibendum, molestie enim vel, placerat nibh. Mauris elementum, nisi et'' @ newline @
     ''fringilla auctor, velit justo porttitor neque, ut viverra neque magna'' @ newline @
     ''quis urna. Mauris eu libero lacinia, pulvinar purus nec, dapibus mi.'' @ newline @
     ''Aliquam id accumsan nunc, vitae molestie diam. Proin eget aliquet orci,'' @ newline @
     ''vitae pretium ante. Proin libero augue, vulputate eget iaculis vel,'' @ newline @
     ''ultricies at velit. Phasellus euismod nisl vitae lacus scelerisque'' @ newline @
     ''imperdiet sit amet vitae mi. Quisque rutrum leo et placerat iaculis.'' @ newline @
     ''Fusce ac mattis eros, aliquet fringilla tellus. Quisque mauris mauris,'' @ newline @
     ''dapibus nec orci et, lobortis tincidunt mauris.''"

lemma LOREM_IPSUM_length: "length LOREM_IPSUM = 748"
  by (simp add: LOREM_IPSUM_def newline_def)

definition indent_with_str :: "string \<Rightarrow> string \<Rightarrow> string" where
  "indent_with_str str indent =
     foldl (\<lambda>out C. let out = out @ [C] in if C = CHR 0x0A then out @ indent else out) indent str"

lemma indent_with_str_lines:
  "indent_with_str str indent = indent @ concat (map (\<lambda>C. if C = CHR 0x0A then C # indent else [C]) str)"
proof -
  have "foldl (\<lambda>out C. let out = out @ [C] in if C = CHR 0x0A then out @ indent else out) out str =
      out @ concat (map (\<lambda>C. if C = CHR 0x0A then C # indent else [C]) str)" for out
    by (induction str arbitrary: out) (simp_all add: Let_def)
  then show ?thesis by (simp add: indent_with_str_def)
qed

subsection \<open>Its coroutines\<close>

record loop_env =
  lorem_at :: uptr
  buff_at :: uptr
  fd_of :: cint
  fd1_of :: cint
  fd2_of :: cint
  fd3_of :: cint
  fd4_of :: cint
  fd5_of :: cint

datatype loop_point =
    Chain chain_point
  | LoopBegin loop_env
  | LoopCoro1 loop_env
  | LoopCoro1Awaited loop_env addr
  | LoopWrite loop_env
  | LoopRead loop_env
  | LoopCallCoro2 loop_env
  | LoopCoro2 loop_env
  | LoopCoro2Awaited loop_env addr
  | LoopBatch loop_env
  | LoopSubmit loop_env
  | LoopSubmitted loop_env addr
  | LoopCallCoro3 loop_env
  | LoopCoro3 loop_env
  | LoopCoro3Awaited loop_env addr
  | LoopReadAgain loop_env
  | LoopCount
  | LoopCounted
  | LoopKill
  | LoopKilled addr
  | LoopEnd
  | ThingBegin loop_env loop_env
  | ThingTask1 loop_env
  | ThingTask2 addr
  | ThingAwaited1 addr
  | ThingAwaited2

definition with_variable :: "result \<Rightarrow> (csize \<Rightarrow> ('u, 'h) action) \<Rightarrow> ('u, 'h) action" where
  "with_variable r f = (case r of VariableResult x \<Rightarrow> f x | _ \<Rightarrow> Throw 0)"

lemma with_variable_simp [simp]: "with_variable (VariableResult x) f = f x"
  by (simp add: with_variable_def)

definition loop_read :: "loop_env \<Rightarrow> OperationParameterPackVariant" where
  "loop_read E = ReadPack \<lparr>read_p_fd = fd_of E, read_p_buffer = buff_at E, read_p_length = 2048\<rparr>"

definition loop_queue :: "loop_env \<Rightarrow> RequestQueue" where
  "loop_queue E =
     (let len = of_nat (length LOREM_IPSUM); at = lorem_at E
      in queue_write (fd5_of E) at len (queue_write (fd4_of E) at len (queue_write (fd3_of E) at len
           (queue_write (fd2_of E) at len (queue_write (fd1_of E) at len make_request_queue)))))"

text \<open>
  The queue of the batch holds five writes, in the order they are made. \<open>do_thing\<close>, which starts two
  coroutines and awaits both, is not used by \<open>main\<close>.
\<close>

fun loop_coro :: "loop_point \<Rightarrow> result \<Rightarrow> (loop_point, unit) action" where
  "loop_coro (Chain p) r = map_action Chain id (chain_coro p r)"
| "loop_coro (LoopBegin E) r = CallCoro (Chain Coro1) (LoopCoro1 E)"
| "loop_coro (LoopCoro1 E) r = with_task r (\<lambda>t. CoAwaitTask t (LoopCoro1Awaited E t))"
| "loop_coro (LoopCoro1Awaited E t) r = DropTask t (LoopWrite E)"
| "loop_coro (LoopWrite E) r =
     CoAwaitIO (WritePack \<lparr>write_p_fd = fd_of E, write_p_buffer = lorem_at E,
       write_p_length = of_nat (length LOREM_IPSUM)\<rparr>) (LoopRead E)"
| "loop_coro (LoopRead E) r = CoAwaitIO (loop_read E) (LoopCallCoro2 E)"
| "loop_coro (LoopCallCoro2 E) r = CallCoro (Chain Coro2) (LoopCoro2 E)"
| "loop_coro (LoopCoro2 E) r = with_task r (\<lambda>t. CoAwaitTask t (LoopCoro2Awaited E t))"
| "loop_coro (LoopCoro2Awaited E t) r = DropTask t (LoopBatch E)"
| "loop_coro (LoopBatch E) r = CallSubmitAndWait (loop_queue E) () (LoopSubmit E)"
| "loop_coro (LoopSubmit E) r = with_task r (\<lambda>t. CoAwaitTask t (LoopSubmitted E t))"
| "loop_coro (LoopSubmitted E t) r = DropTask t (LoopCallCoro3 E)"
| "loop_coro (LoopCallCoro3 E) r = CallCoro (Chain Coro3) (LoopCoro3 E)"
| "loop_coro (LoopCoro3 E) r = with_task r (\<lambda>t. CoAwaitTask t (LoopCoro3Awaited E t))"
| "loop_coro (LoopCoro3Awaited E t) r = DropTask t (LoopReadAgain E)"
| "loop_coro (LoopReadAgain E) r = CoAwaitIO (loop_read E) LoopCount"
| "loop_coro LoopCount r = UserVariable (\<lambda>x. x - 1) LoopCounted"
| "loop_coro LoopCounted r = with_variable r (\<lambda>x. if x = 0 then CallKill LoopKill else CoReturn 0)"
| "loop_coro LoopKill r = with_task r (\<lambda>t. CoAwaitTask t (LoopKilled t))"
| "loop_coro (LoopKilled t) r = DropTask t LoopEnd"
| "loop_coro LoopEnd r = CoReturn 0"
| "loop_coro (ThingBegin E1 E2) r = CallCoro (LoopBegin E1) (ThingTask1 E2)"
| "loop_coro (ThingTask1 E2) r = with_task r (\<lambda>task1. CallCoro (LoopBegin E2) (ThingTask2 task1))"
| "loop_coro (ThingTask2 task1) r = with_task r (\<lambda>task2. CoAwaitTask task1 (ThingAwaited1 task2))"
| "loop_coro (ThingAwaited1 task2) r = CoAwaitTask task2 ThingAwaited2"
| "loop_coro ThingAwaited2 r = CoReturn 4"

fun loop_handler :: "unit batch_handler" where
  "loop_handler h (Some WRITE) chan = (case consume_resp_data WRITE chan of (resp, chan') \<Rightarrow> (h, chan', []))"
| "loop_handler h t chan = (h, chan, [])"

definition loop_program :: "(loop_point, unit) program" where
  "loop_program = \<lparr>code = loop_coro, on_batch = loop_handler,
     on_poll = (\<lambda>h t c. (STOP_POLLING, h, c, [])), first_freed = Min, next_capacity = (*) 2,
     temporaries_stay = False\<rparr>"

lemma loop_handler_quiet: "snd (snd (loop_handler h t chan)) = []"
  by (cases "(h, t, chan)" rule: loop_handler.cases) (simp_all split: prod.split)

text \<open>
  So the batch of this program ends as every batch does: with a fault, at the latest when the handler
  of its last response reads the request.
\<close>

lemma loop_batch_end:
  fixes w :: "(loop_point, unit, 'r) em_world"
  assumes "requests w r = Some d" and "handle d = Some h" and "well_tagged d"
    and "r \<in> set rds" and "r < next_addr w"
    and "frames w h = Some (batch_frame f rds i ns x)" and "ns \<le> i + 1"
  shows "\<exists>e. event_handler (resume U loop_program (Suc n)) res (Some r) w = Inl e"
  by (rule batch_end_faults [OF assms]) (simp add: loop_program_def loop_handler_quiet)

subsection \<open>Its main\<close>

text \<open>
  Four coroutines are registered from a temporary, and the fifth is a variable of \<open>main\<close> that is moved.
\<close>

definition loop_main ::
    "'r uring \<Rightarrow> nat \<Rightarrow> loop_env \<Rightarrow> loop_env \<Rightarrow> loop_env \<Rightarrow> loop_env \<Rightarrow> loop_env \<Rightarrow>
     (loop_point, unit, 'r, unit) world_op" where
  "loop_main U n E1 E2 E3 E4 E5 =
     thenM (EventManager_construct U 10)
     (thenM (modifyM (\<lambda>w. w\<lparr>user_variable := 5\<rparr>))
     (thenM (register_coro_fn U loop_program n (LoopBegin E1))
     (thenM (register_coro_fn U loop_program n (LoopBegin E2))
     (thenM (register_coro_fn U loop_program n (LoopBegin E3))
     (thenM (register_coro_fn U loop_program n (LoopBegin E4))
     (bindM (spawn (User (LoopBegin E5) AwaitStart [])) (\<lambda>coro_task.
      thenM (register_coro (first_freed loop_program) (next_capacity loop_program) destroy_frame
               (resume U loop_program n) coro_task)
      (thenM (start U (resume U loop_program n) n) (drop_task coro_task)))))))))"

end
