(* ===== verification/Em_Polling_Example.thy ===== *)
theory Em_Polling_Example
  imports Em_Examples Em_Batch_Laws
begin

text \<open>
  The run of \<open>polling_example.cpp\<close>: its callback makes the next request with the response to the last one
  and always asks to go on, so that the event loop never ends. \<open>polling_waits\<close> and \<open>polling_kept\<close> are the
  two states the program is in between turns of the loop.
\<close>

subsection \<open>A request nobody awaits, made while the ring is idle\<close>

definition ring_idle :: "sim_ring \<Rightarrow> bool" where
  "ring_idle r \<longleftrightarrow> sim_queued r = [] \<and> sim_taken r = [] \<and> 0 < sim_depth r \<and> sim_refuse r = None"

definition next_request :: "polling_env \<Rightarrow> cint \<Rightarrow> RequestType \<Rightarrow> OperationParameterPackVariant" where
  "next_request E counter Rt =
     (if Rt = READ
      then WritePack \<lparr>write_p_fd = poll_fd E, write_p_buffer = text_at E (counter + 1),
             write_p_length = size_of_data E\<rparr>
      else ReadPack \<lparr>read_p_fd = poll_fd E, read_p_buffer = poll_buffer E, read_p_length = 1024\<rparr>)"

lemma na_request_on_idle:
  fixes w :: "('b, sim_ring) manager"
  assumes "manager_life_state w \<le> LIVING" and "ring_open w" and "ring_idle (ring w)"
  shows "\<exists>r'. na_request (scripted s) p w = Inr (UNKNOWN_ERROR, w
      \<lparr>next_addr := Suc (next_addr w), request_home := (request_home w)(next_addr w := None),
       requests := (requests w)(next_addr w \<mapsto> \<lparr>handle = None, coro_idx = 0, coro_finished = None,
         req_type = Op_type p, allocated_dynamic = True, specific_data = p\<rparr>),
       ring := r', in_flight_requests := in_flight_requests w + 1\<rparr>) \<and>
     sim_queued r' = [] \<and> sim_taken r' = [(Some (prep_of p), Some (next_addr w))] \<and>
     sim_depth r' = sim_depth (ring w) \<and> sim_refuse r' = None"
proof -
  have living: "\<not> LIVING < manager_life_state w" using assms(1) by (simp add: not_less)
  show ?thesis
    using living assms(2,3)
    by (auto simp: na_request_eq request_na_def get_sqe_and_req_data_def get_uring_sqe_def
        should_restrict_usage_def io_uring_get_sqe_def io_uring_prep_def io_uring_sqe_set_data_def
        on_ring_def runs new_request_run update_request_def request_at_def submit_request_def
        submit_queued_entries_def delete_request_def new_RequestData_def Let_def ring_idle_def
        sim_get_sqe_def sim_entry_def sim_submit_def word_sless_alt)
qed

subsection \<open>The turns of the event loop\<close>

abbreviation polling_resume ::
    "cint list \<Rightarrow> polling_env \<Rightarrow> nat \<Rightarrow> addr \<Rightarrow> (polling_point, cint, sim_ring, unit) world_op" where
  "polling_resume s E \<equiv> resume (scripted s) (polling_program E)"

text \<open>
  The example between two turns of the event loop: its coroutine waits for \<open>poll\<close>, and the one request it
  has made is either in flight, or done and kept for the next turn.
\<close>

definition polls :: "addr \<Rightarrow> (polling_point, cint, sim_ring) em_world \<Rightarrow> bool" where
  "polls r w \<longleftrightarrow> manager_life_state w = LIVING \<and> ring_open w \<and>
     (\<exists>h f x. polling_handle w = Some h \<and> frames w h = Some (poll_frame f x) \<and>
        promise_is_done h w = Inr (False, w)) \<and>
     (\<exists>d. requests w r = Some d \<and> well_tagged d \<and> req_type d \<in> {READ, WRITE} \<and> handle d = None \<and>
        allocated_dynamic d \<and> r < next_addr w)"

definition polling_waits :: "(polling_point, cint, sim_ring) em_world \<Rightarrow> bool" where
  "polling_waits w \<longleftrightarrow> ready_requests_store w = [] \<and> in_flight_requests w = 1 \<and>
     sim_queued (ring w) = [] \<and> 0 < sim_depth (ring w) \<and> sim_refuse (ring w) = None \<and>
     (\<exists>r prep. polls r w \<and> sim_taken (ring w) = [(prep, Some r)])"

definition polling_kept :: "(polling_point, cint, sim_ring) em_world \<Rightarrow> bool" where
  "polling_kept w \<longleftrightarrow> in_flight_requests w = 0 \<and> ring_idle (ring w) \<and>
     (\<exists>res r. polls r w \<and> ready_requests_store w = [(res, r)])"

lemma polling_handler_turn:
  assumes "Rt \<in> {READ, WRITE}"
  shows "\<exists>st c. on_poll (polling_program E) counter (Some Rt) chan =
    (CONTINUE_POLLING, st, c, [next_request E counter Rt])"
  using assms by (auto simp: polling_program_def next_request_def split: prod.split)

lemma polling_delivery:
  assumes "polling_kept w"
  shows "\<exists>w'. deliver_ready (polling_resume s E (Suc (Suc n))) w = Inr ((), w') \<and>
    polling_waits w'"
proof -
  let ?U = "scripted s" and ?P = "polling_program E"
  obtain res r where idle: "in_flight_requests w = 0" "ring_idle (ring w)" and r: "polls r w"
      and ready: "ready_requests_store w = [] @ [(res, r)]"
    using assms by (auto simp: polling_kept_def)
  then obtain h f x where life: "manager_life_state w = LIVING" "ring_open w"
      and h: "polling_handle w = Some h" "frames w h = Some (poll_frame f x)"
        "promise_is_done h w = Inr (False, w)" by (auto simp: polls_def)
  obtain d where d: "requests w r = Some d" "well_tagged d" "req_type d \<in> {READ, WRITE}"
      "allocated_dynamic d" "r < next_addr w" using r by (auto simp: polls_def)
  let ?data = "completion_response res (iov_base_of w) (specific_data d)"
  have type: "RespData_type ?data = req_type d" using d(2) by (simp add: well_tagged_def)
  let ?p = "next_request E (fst x) (req_type d)"
  obtain st c where on: "on_poll ?P (fst x) (Some (RespData_type ?data)) (publish_resp_data ?data (snd x)) =
      (CONTINUE_POLLING, st, c, [?p])"
    unfolding type using polling_handler_turn [OF d(3)] by blast
  let ?d = "d\<lparr>handle := Some h\<rparr>"
  let ?v = "w\<lparr>ready_requests_store := [], requests := (requests w)(r \<mapsto> ?d), polling_handle := None,
      frames := (frames w)(h \<mapsto> awake f (fst x, c))\<rparr>"
  let ?new = "\<lparr>handle = None, coro_idx = 0, coro_finished = None, req_type = Op_type ?p,
      allocated_dynamic = True, specific_data = ?p\<rparr>"
  have v: "manager_life_state ?v \<le> LIVING" "ring_open ?v" "ring_idle (ring ?v)"
    using life idle by simp_all
  obtain r' w3 where na: "na_request ?U ?p ?v = Inr (UNKNOWN_ERROR, w3)"
     and w3: "w3 = ?v\<lparr>next_addr := Suc (next_addr ?v), request_home := (request_home ?v)(next_addr ?v := None),
       requests := (requests ?v)(next_addr ?v \<mapsto> ?new), ring := r',
       in_flight_requests := in_flight_requests ?v + 1\<rparr>"
     and r': "sim_queued r' = []" "sim_taken r' = [(Some (prep_of ?p), Some (next_addr ?v))]"
       "sim_depth r' = sim_depth (ring ?v)" "sim_refuse r' = None"
    using na_request_on_idle [OF v, of s ?p] by blast
  have w3': "frames w3 = (frames w)(h \<mapsto> awake f (fst x, c))" "statuses w3 = statuses w"
      "requests w3 r = Some ?d" "manager_life_state w3 = LIVING" "ring_open w3"
      "requests w3 (next_addr w) = Some ?new" "next_addr w3 = Suc (next_addr w)"
      "in_flight_requests w3 = 1" "ready_requests_store w3 = []" "ring w3 = r'"
    using d(5) life idle(1) unfolding w3 by simp_all
  have made: "mapM (na_request ?U) [?p] ?v = Inr ([UNKNOWN_ERROR], w3)"
    by (simp only: mapM.simps bindM_run na sum.case prod.case returnM_run)
  let ?w = "w3\<lparr>polling_handle := Some h, frames := (frames w)(h \<mapsto> poll_frame f (st, c)),
      requests := (requests w3)(r := None)\<rparr>"
  have run: "deliver_ready (resume ?U ?P (Suc (Suc n))) w = Inr ((), ?w)"
    by (rule poll_requests_delivery [OF h(2,1) ready d(1,2,4) h(3) on made w3'(1-3)])
  have "promise_is_done h ?w = Inr (False, ?w)"
    by (rule promise_is_done_frame [OF h(2,3)]) (simp_all add: w3'(2))
  moreover have "Op_type ?p \<in> {READ, WRITE}" by (simp add: next_request_def)
  moreover have "well_tagged ?new" by (simp add: well_tagged_def)
  ultimately have "polls (next_addr w) ?w"
    using w3' d(5) by (auto simp: polls_def)
  then have "polling_waits ?w"
    using w3' r' idle(2) by (auto simp: polling_waits_def ring_idle_def)
  with run show ?thesis by blast
qed

lemma polling_completion:
  assumes "polling_waits w"
  shows "\<exists>w'. await_message (scripted s) (polling_resume s E n) w = Inr ((), w') \<and>
    polling_kept w'"
proof -
  obtain r prep where w: "ready_requests_store w = []" "in_flight_requests w = 1" "polls r w"
      "sim_taken (ring w) = [(prep, Some r)]" "sim_queued (ring w) = []" "0 < sim_depth (ring w)"
      "sim_refuse (ring w) = None"
    using assms by (auto simp: polling_waits_def)
  obtain d where d: "requests w r = Some d" "handle d = None" and life: "manager_life_state w = LIVING" "ring_open w"
    using w(3) by (auto simp: polls_def)
  let ?res = "case sim_script (ring w) of [] \<Rightarrow> 0 | res # _ \<Rightarrow> res"
  let ?w = "w\<lparr>ready_requests_store := [(?res, r)],
      ring := (ring w)\<lparr>sim_taken := [], sim_script := tl (sim_script (ring w))\<rparr>, in_flight_requests := 0\<rparr>"
  have "await_message (scripted s) (polling_resume s E n) w = Inr ((), ?w)"
    using w d life
    by (simp add: await_message_def deliver_ready_def on_ring_def runs sim_wait_cqe_def event_handler_def
        request_at_def LivingState_order)
  moreover obtain h f x where h: "polling_handle w = Some h" "frames w h = Some (poll_frame f x)"
      "promise_is_done h w = Inr (False, w)" using w(3) by (auto simp: polls_def)
  then have "promise_is_done h ?w = Inr (False, ?w)"
    by - (rule promise_is_done_frame [OF h(2,3)], simp_all)
  with h have "polls r ?w" using w(3) by (auto simp: polls_def)
  then have "polling_kept ?w" using w by (auto simp: polling_kept_def ring_idle_def)
  ultimately show ?thesis by blast
qed

lemma polling_loop_turn:
  assumes "polling_waits w \<or> polling_kept w"
  shows "\<exists>w'. await_message (scripted s) (polling_resume s E (Suc (Suc n))) w = Inr ((), w') \<and>
    polling_kept w'"
  using assms
proof
  assume "polling_waits w"
  then show ?thesis by (rule polling_completion)
next
  assume "polling_kept w"
  then obtain w1 where 1: "deliver_ready (polling_resume s E (Suc (Suc n))) w = Inr ((), w1)"
      and w1: "polling_waits w1" using polling_delivery by blast
  have "deliver_ready (polling_resume s E (Suc (Suc n))) w1 = Inr ((), w1)"
    using w1 by (simp add: polling_waits_def deliver_ready_def runs)
  with 1 have "await_message (scripted s) (polling_resume s E (Suc (Suc n))) w =
      await_message (scripted s) (polling_resume s E (Suc (Suc n))) w1"
    by (simp only: await_message_def thenM_run sum.case prod.case)
  with w1 show ?thesis using polling_completion by metis
qed

lemma polling_turns:
  assumes "polling_waits w"
  shows "\<exists>w'. mapM (\<lambda>_. await_message (scripted s) (polling_resume s E (Suc (Suc n))))
      [0 ..< Suc k] w = Inr (replicate (Suc k) (), w') \<and> polling_kept w'"
proof -
  have "\<exists>w'. mapM (\<lambda>_. await_message (scripted s) (polling_resume s E (Suc (Suc n)))) xs w =
      Inr (map (\<lambda>_. ()) xs, w') \<and> polling_kept w'" if "xs \<noteq> []" "polling_waits w \<or> polling_kept w" for xs :: "nat list" and w
    using that
  proof (induction xs arbitrary: w)
    case (Cons y ys)
    obtain w1 where 1: "await_message (scripted s) (polling_resume s E (Suc (Suc n))) w = Inr ((), w1)"
      "polling_kept w1" using polling_loop_turn [OF Cons.prems(2)] by blast
    then show ?case using Cons.IH [of w1] by (cases "ys = []") (auto simp: runs simp del: resume.simps)
  qed simp
  from this [of "[0 ..< Suc k]" w] assms show ?thesis by (simp add: map_replicate_const)
qed

lemma polling_start_loop:
  "polling_waits w \<or> polling_kept w \<Longrightarrow>
     start_loop (scripted s) (polling_resume s E (Suc (Suc n))) k w = Inl OutOfFuel"
proof (induction k arbitrary: w)
  case (Suc k)
  have "manager_life_state w = LIVING" using Suc.prems by (auto simp: polling_waits_def polling_kept_def polls_def)
  moreover obtain w1 where "await_message (scripted s) (polling_resume s E (Suc (Suc n))) w = Inr ((), w1)"
      "polling_kept w1" using polling_loop_turn [OF Suc.prems] by blast
  ultimately show ?case using Suc.IH [of w1] by (simp add: runs LivingState_order del: resume.simps)
qed (simp add: runs)

subsection \<open>From the start of the program\<close>

abbreviation polling_begin ::
    "cint list \<Rightarrow> polling_env \<Rightarrow> nat \<Rightarrow>
     fault + unit list \<times> (polling_point, cint, sim_ring) em_world" where
  "polling_begin s E n \<equiv> thenM (EventManager_construct (scripted s) 10)
     (mapM (register_coro_fn (scripted s) (polling_program E) n) [PollingBegin]) fresh_manager"

text \<open>The equations of a run whose fuel is a number and whatever is more.\<close>

lemma fuel_more:
  "resume U P (n + numeral m) h = bindM (begin_resume h) (\<lambda>b.
     segment U P (resume U P (n + pred_numeral m)) (n + pred_numeral m) h b)"
  "user_run U P rs (n + numeral m) h r u ls =
     bindM (do_action U P rs h ls (code P u r)) (\<lambda>x. case x of
       None \<Rightarrow> returnM ()
     | Some (r, u, ls) \<Rightarrow> user_run U P rs (n + pred_numeral m) h r u ls)"
  by (simp_all add: numeral_eq_Suc)

lemma poll_frame_eq: "\<lbrakk>suspended f; body f = PollGeneric st\<rbrakk> \<Longrightarrow> f = poll_frame f (st, com_data (promise f))"
  by (simp add: poll_frame_def)

lemma polling_registered:
  "\<exists>w. polling_begin s E (n + 20) = Inr ([()], w) \<and>
    manager_life_state w = NOT_STARTED \<and> polling_waits (w\<lparr>manager_life_state := LIVING\<rparr>)"
proof -
  let ?d = "\<lparr>handle = None, coro_idx = 0, coro_finished = None, req_type = WRITE, allocated_dynamic = True,
      specific_data = WritePack \<lparr>write_p_fd = poll_fd E, write_p_buffer = text_at E 0,
        write_p_length = size_of_string E\<rparr>\<rparr>"
  have "\<exists>w f prep. polling_begin s E (n + 20) = Inr ([()], w) \<and>
    manager_life_state w = NOT_STARTED \<and> ring_open w \<and> ready_requests_store w = [] \<and> in_flight_requests w = 1 \<and>
    sim_queued (ring w) = [] \<and> 0 < sim_depth (ring w) \<and> sim_refuse (ring w) = None \<and>
    sim_taken (ring w) = [(prep, Some 6)] \<and> next_addr w = 10 \<and> requests w 6 = Some ?d \<and>
    polling_handle w = Some 7 \<and> frames w 7 = Some f \<and> suspended f \<and> body f = PollGeneric 0 \<and>
    task_status_ptr (promise f) = Some 8 \<and> statuses w 8 = Some \<lparr>handler_done = False, ret_code = 0\<rparr>"
    by (simp add: evaluation fuel_more polling_program_def split del: if_split)
  then obtain w f prep where run: "polling_begin s E (n + 20) = Inr ([()], w)"
    and w: "manager_life_state w = NOT_STARTED" "ring_open w" "ready_requests_store w = []" "in_flight_requests w = 1"
      "sim_queued (ring w) = []" "0 < sim_depth (ring w)" "sim_refuse (ring w) = None"
      "sim_taken (ring w) = [(prep, Some 6)]" "next_addr w = 10" "requests w 6 = Some ?d"
      "polling_handle w = Some 7" "frames w 7 = Some f"
    and f: "suspended f" "body f = PollGeneric 0" "task_status_ptr (promise f) = Some 8"
      "statuses w 8 = Some \<lparr>handler_done = False, ret_code = 0\<rparr>" by blast
  let ?w = "w\<lparr>manager_life_state := LIVING\<rparr>"
  have "frames w 7 = Some (poll_frame f (0, com_data (promise f)))"
    using poll_frame_eq [OF f(1,2)] w(12) by simp
  moreover have "promise_is_done 7 ?w = Inr (False, ?w)"
    using w(12) f(3,4) by (simp add: promise_is_done_def promise_at_def frame_at_def status_at_def runs)
  moreover have "well_tagged ?d" by (simp add: well_tagged_def)
  ultimately have "polls 6 ?w" using w by (auto simp: polls_def)
  then have "polling_waits ?w" using w by (auto simp: polling_waits_def)
  with run w(1) show ?thesis by blast
qed

text \<open>
  C23. The polling example runs for ever, whatever its requests give: after its coroutine is registered
  every further turn of the event loop succeeds, with the manager alive, no request in flight and the one
  response kept for the next turn, in which the callback makes the next request. So the \<open>kill\<close> after its
  \<open>poll\<close> is never reached, and no fuel is enough for the program to return.
\<close>

theorem polling_runs_forever:
  "polling_main (scripted s) (n + 20) E fresh_manager = Inl OutOfFuel \<and>
   (\<exists>w. polling_begin s E (n + 20) = Inr ([()], w) \<and>
      (\<forall>k. \<exists>w'. mapM (\<lambda>_. await_message (scripted s) (polling_resume s E (n + 20)))
             [0 ..< Suc k] (w\<lparr>manager_life_state := LIVING\<rparr>) = Inr (replicate (Suc k) (), w') \<and>
           manager_life_state w' = LIVING \<and> in_flight_requests w' = 0 \<and> (\<exists>y. ready_requests_store w' = [y])))"
proof -
  let ?rs = "polling_resume s E"
  have fuel: "n + 20 = Suc (Suc (n + 18))" by simp
  obtain w where run: "polling_begin s E (n + 20) = Inr ([()], w)"
    and w: "manager_life_state w = NOT_STARTED" "polling_waits (w\<lparr>manager_life_state := LIVING\<rparr>)"
    using polling_registered by blast
  have "start_loop (scripted s) (?rs (n + 20)) (n + 20) (w\<lparr>manager_life_state := LIVING\<rparr>) = Inl OutOfFuel"
    unfolding fuel by (rule polling_start_loop) (simp add: w(2))
  then have "start (scripted s) (?rs (n + 20)) (n + 20) w = Inl OutOfFuel"
    using w(1) by (simp add: start_def runs LivingState_order del: resume.simps start_loop.simps)
  moreover obtain w0 where "EventManager_construct (scripted s) 10 fresh_manager = Inr ((), w0)"
      "mapM (register_coro_fn (scripted s) (polling_program E) (n + 20)) [PollingBegin] w0 = Inr ([()], w)"
    using run by (auto simp: thenM_Inr_iff)
  ultimately have "polling_main (scripted s) (n + 20) E fresh_manager = Inl OutOfFuel"
    by (simp only: polling_main_def run_main_def thenM_run sum.case prod.case)
  moreover have "\<exists>w'. mapM (\<lambda>_. await_message (scripted s) (?rs (n + 20))) [0 ..< Suc k]
      (w\<lparr>manager_life_state := LIVING\<rparr>) = Inr (replicate (Suc k) (), w') \<and>
    manager_life_state w' = LIVING \<and> in_flight_requests w' = 0 \<and> (\<exists>y. ready_requests_store w' = [y])" for k
    using polling_turns [OF w(2), of s E "n + 18" k] unfolding fuel
    by (auto simp: polling_kept_def polls_def simp del: resume.simps mapM.simps upt_Suc replicate_Suc)
  ultimately show ?thesis using run by blast
qed

end
