(* ===== verification/Em_Listener.thy ===== *)
theory Em_Listener
  imports Em_Prelude
begin

text \<open>
  \<open>setup_listener\<close> of \<open>http_example.cpp\<close>. The functions of the system are a parameter: a record of
  functions over a state of any type. \<open>fatal_error\<close> ends the process, which is the result \<open>Inl\<close> with the
  message; what is printed otherwise is not modelled.
\<close>

subsection \<open>The system\<close>

datatype option_level = SOL_SOCKET | IPPROTO_TCP

datatype socket_option =
    SO_REUSEADDR
  | SO_REUSEPORT
  | SO_KEEPALIVE
  | TCP_KEEPIDLE
  | TCP_KEEPINTVL
  | TCP_KEEPCNT

type_synonym socklen_t = "32 word"

record addrinfo =
  ai_flags :: cint
  ai_family :: cint
  ai_socktype :: cint
  ai_protocol :: cint
  ai_addrlen :: socklen_t
  ai_addr :: uptr

record 's sockets =
  os_getaddrinfo :: "string \<Rightarrow> addrinfo \<Rightarrow> 's \<Rightarrow> (cint \<times> addrinfo list) \<times> 's"
  os_socket :: "cint \<Rightarrow> cint \<Rightarrow> cint \<Rightarrow> 's \<Rightarrow> cint \<times> 's"
  os_setsockopt :: "cint \<Rightarrow> option_level \<Rightarrow> socket_option \<Rightarrow> cint \<Rightarrow> 's \<Rightarrow> cint \<times> 's"
  os_bind :: "cint \<Rightarrow> uptr \<Rightarrow> socklen_t \<Rightarrow> 's \<Rightarrow> cint \<times> 's"
  os_freeaddrinfo :: "addrinfo list \<Rightarrow> 's \<Rightarrow> 's"
  os_listen :: "cint \<Rightarrow> cint \<Rightarrow> 's \<Rightarrow> cint \<times> 's"

definition AF_INET :: cint where
  "AF_INET = 2"

definition SOCK_STREAM :: cint where
  "SOCK_STREAM = 1"

definition AI_PASSIVE :: cint where
  "AI_PASSIVE = 1"

definition BACKLOG :: cint where
  "BACKLOG = 10"

type_synonym ('s, 'a) process = "'s \<Rightarrow> (string + 'a) \<times> 's"

definition fatal_error :: "string \<Rightarrow> ('s, 'a) process" where
  "fatal_error error_message = (\<lambda>s. (Inl (''Fatal Error: '' @ error_message), s))"

text \<open>\<open>std::to_string\<close>.\<close>

fun digits :: "nat \<Rightarrow> string" where
  "digits n = (if n < 10 then [char_of (48 + n)] else digits (n div 10) @ [char_of (48 + n mod 10)])"

declare digits.simps [simp del]

definition to_string :: "cint \<Rightarrow> string" where
  "to_string n = (if n <s 0 then ''-'' @ digits (nat (- sint n)) else digits (nat (sint n)))"

subsection \<open>The listener\<close>

text \<open>The options of a socket, in order, each with its value and the message of its failure.\<close>

definition listener_options :: "(option_level \<times> socket_option \<times> cint \<times> string) list" where
  "listener_options =
     [(SOL_SOCKET, SO_REUSEADDR, 1, ''setsockopt SO_REUSEADDR''),
      (SOL_SOCKET, SO_REUSEPORT, 1, ''setsockopt SO_REUSEPORT''),
      (SOL_SOCKET, SO_KEEPALIVE, 1, ''setsockopt SO_KEEPALIVE''),
      (IPPROTO_TCP, TCP_KEEPIDLE, 1000, ''setsockopt TCP_KEEPIDLE''),
      (IPPROTO_TCP, TCP_KEEPINTVL, 1000, ''setsockopt TCP_KEEPINTVL''),
      (IPPROTO_TCP, TCP_KEEPCNT, 10, ''setsockopt TCP_KEEPCNT'')]"

fun set_options ::
    "'s sockets \<Rightarrow> cint \<Rightarrow> (option_level \<times> socket_option \<times> cint \<times> string) list \<Rightarrow> ('s, unit) process" where
  "set_options K fd [] s = (Inr (), s)"
| "set_options K fd ((level, opt, val, msg) # opts) s =
     (case os_setsockopt K fd level opt val s of (r, s) \<Rightarrow>
        if r = -1 then fatal_error msg s else set_options K fd opts s)"

text \<open>
  The \<open>for\<close> loop over the addresses. \<open>Inr None\<close> is its end at the null pointer, \<open>Inr (Some fd)\<close> its
  \<open>break\<close>. A socket that cannot be bound is left as it is: nothing closes it.
\<close>

fun try_addresses :: "'s sockets \<Rightarrow> addrinfo list \<Rightarrow> ('s, cint option) process" where
  "try_addresses K [] s = (Inr None, s)"
| "try_addresses K (ai # ais) s =
     (case os_socket K (ai_family ai) (ai_socktype ai) (ai_protocol ai) s of (listener_fd, s) \<Rightarrow>
      if listener_fd = -1 then fatal_error ''socket construction'' s
      else case set_options K listener_fd listener_options s of
        (Inl msg, s) \<Rightarrow> (Inl msg, s)
      | (Inr _, s) \<Rightarrow>
          case os_bind K listener_fd (ai_addr ai) (ai_addrlen ai) s of (r, s) \<Rightarrow>
          if r = -1 then try_addresses K ais s else (Inr (Some listener_fd), s))"

definition setup_listener :: "'s sockets \<Rightarrow> cint \<Rightarrow> ('s, cint) process" where
  "setup_listener K port s =
     (let hints = \<lparr>ai_flags = AI_PASSIVE, ai_family = AF_INET, ai_socktype = SOCK_STREAM, ai_protocol = 0,
            ai_addrlen = 0, ai_addr = 0\<rparr>
      in case os_getaddrinfo K (to_string port) hints s of ((r, server_info), s) \<Rightarrow>
         if r \<noteq> 0 then fatal_error ''getaddrinfo'' s
         else case try_addresses K server_info s of
           (Inl msg, s) \<Rightarrow> (Inl msg, s)
         | (Inr traverser, s) \<Rightarrow>
             let s = os_freeaddrinfo K server_info s in
             case traverser of
               None \<Rightarrow> fatal_error ''no socket made'' s
             | Some listener_fd \<Rightarrow>
                 (case os_listen K listener_fd BACKLOG s of (r, s) \<Rightarrow>
                    if r = -1 then fatal_error ''listen'' s else (Inr listener_fd, s)))"

lemma to_string_3050: "to_string 3050 = ''3050''"
  by code_simp

subsection \<open>What it returns\<close>

text \<open>
  \<open>passed K ais s s'\<close>: every address of the list got a socket with all its options and could not be
  bound.
\<close>

fun passed :: "'s sockets \<Rightarrow> addrinfo list \<Rightarrow> 's \<Rightarrow> 's \<Rightarrow> bool" where
  "passed K [] s s' \<longleftrightarrow> s' = s"
| "passed K (ai # ais) s s' \<longleftrightarrow>
     (case os_socket K (ai_family ai) (ai_socktype ai) (ai_protocol ai) s of (fd, s1) \<Rightarrow> fd \<noteq> -1 \<and>
      (case set_options K fd listener_options s1 of (x, s2) \<Rightarrow> x = Inr () \<and>
       (case os_bind K fd (ai_addr ai) (ai_addrlen ai) s2 of (r, s3) \<Rightarrow> r = -1 \<and> passed K ais s3 s')))"

lemma try_addresses_None:
  "try_addresses K ais s = (Inr None, s') \<longleftrightarrow> passed K ais s s'"
  by (induction ais arbitrary: s)
    (auto simp: fatal_error_def split: prod.splits sum.splits if_splits)

lemma try_addresses_Some:
  "try_addresses K ais s = (Inr (Some fd), s') \<Longrightarrow>
     \<exists>before ai after s1 s2 s3 r. ais = before @ ai # after \<and> passed K before s s1 \<and>
       os_socket K (ai_family ai) (ai_socktype ai) (ai_protocol ai) s1 = (fd, s2) \<and> fd \<noteq> -1 \<and>
       set_options K fd listener_options s2 = (Inr (), s3) \<and>
       os_bind K fd (ai_addr ai) (ai_addrlen ai) s3 = (r, s') \<and> r \<noteq> -1"
proof (induction ais arbitrary: s)
  case Nil
  then show ?case by simp
next
  case (Cons ai ais)
  obtain fd1 s1 where 1: "os_socket K (ai_family ai) (ai_socktype ai) (ai_protocol ai) s = (fd1, s1)"
    by fastforce
  with Cons.prems have fd1: "fd1 \<noteq> -1" by (auto simp: fatal_error_def)
  with 1 Cons.prems obtain s2 where 2: "set_options K fd1 listener_options s1 = (Inr (), s2)"
    by (auto split: prod.splits sum.splits)
  obtain r s3 where 3: "os_bind K fd1 (ai_addr ai) (ai_addrlen ai) s2 = (r, s3)" by fastforce
  show ?case
  proof (cases "r = -1")
    case False
    with Cons.prems 1 2 3 fd1 show ?thesis
      by - (rule exI [of _ "[]"], rule exI [of _ ai], rule exI [of _ ais], rule exI [of _ s], simp)
  next
    case True
    with Cons.prems 1 2 3 fd1 have "try_addresses K ais s3 = (Inr (Some fd), s')" by simp
    from Cons.IH [OF this] obtain before ai' after t1 t2 t3 r' where
      "ais = before @ ai' # after" "passed K before s3 t1"
      "os_socket K (ai_family ai') (ai_socktype ai') (ai_protocol ai') t1 = (fd, t2)" "fd \<noteq> -1"
      "set_options K fd listener_options t2 = (Inr (), t3)"
      "os_bind K fd (ai_addr ai') (ai_addrlen ai') t3 = (r', s')" "r' \<noteq> -1" by blast
    with True 1 2 3 fd1 show ?thesis
      by - (rule exI [of _ "ai # before"], rule exI [of _ ai'], rule exI [of _ after], rule exI [of _ t1], simp)
  qed
qed

text \<open>
  The descriptor \<open>setup_listener\<close> returns is the socket of the first address that can be bound, with all
  its options set, and it listens; the sockets of the addresses before it are lost.
\<close>

lemma setup_listener_first_bound:
  assumes "setup_listener K port s = (Inr fd, s')"
  shows "\<exists>hints r0 before ai after s0 s1 s2 s3 s4 r r'.
    os_getaddrinfo K (to_string port) hints s = ((r0, before @ ai # after), s0) \<and> r0 = 0 \<and>
    passed K before s0 s1 \<and>
    os_socket K (ai_family ai) (ai_socktype ai) (ai_protocol ai) s1 = (fd, s2) \<and> fd \<noteq> -1 \<and>
    set_options K fd listener_options s2 = (Inr (), s3) \<and>
    os_bind K fd (ai_addr ai) (ai_addrlen ai) s3 = (r, s4) \<and> r \<noteq> -1 \<and>
    os_listen K fd BACKLOG (os_freeaddrinfo K (before @ ai # after) s4) = (r', s') \<and> r' \<noteq> -1"
proof -
  let ?hints = "\<lparr>ai_flags = AI_PASSIVE, ai_family = AF_INET, ai_socktype = SOCK_STREAM, ai_protocol = 0,
            ai_addrlen = 0, ai_addr = 0\<rparr>"
  obtain r0 ais s0 where 0: "os_getaddrinfo K (to_string port) ?hints s = ((r0, ais), s0)"
    by (metis prod.exhaust)
  with assms have r0: "r0 = 0" by (auto simp: setup_listener_def fatal_error_def split: if_splits)
  with assms 0 obtain s4 where found: "try_addresses K ais s0 = (Inr (Some fd), s4)"
    by (auto simp: setup_listener_def Let_def fatal_error_def
        split: prod.splits sum.splits option.splits if_splits)
  with assms 0 r0 obtain r' where "os_listen K fd BACKLOG (os_freeaddrinfo K ais s4) = (r', s')" "r' \<noteq> -1"
    by (auto simp: setup_listener_def Let_def fatal_error_def split: prod.splits if_splits)
  with 0 r0 try_addresses_Some [OF found] show ?thesis by blast
qed

end
