(* ===== verification/Em_Reachable.thy ===== *)
theory Em_Reachable
  imports Em_Examples
begin

text \<open>
  The states a program can reach: those after the constructor, after a registration from \<open>main\<close>, after
  \<open>start\<close> has marked the manager living, and after each turn of the event loop. The turns contain
  everything else, since all code of the user runs inside a registration or a turn.

  The invariants of \<open>Em_Evolution\<close> hold in all of them, and \<open>run_main\<close> goes through nothing else.
\<close>

inductive reachable :: "'r uring \<Rightarrow> ('u, 'h) program \<Rightarrow> ('u, 'h, 'r) em_world \<Rightarrow> bool"
  for U P where
  constructed: "EventManager_construct U queue_depth (raw_manager fd instances iov r) = Inr (x, w) \<Longrightarrow>
     reachable U P w"
| registered: "reachable U P w \<Longrightarrow> register_coro_fn U P n u w = Inr (x, w') \<Longrightarrow> reachable U P w'"
| started: "reachable U P w \<Longrightarrow> manager_life_state w < LIVING \<Longrightarrow>
     reachable U P (w\<lparr>manager_life_state := LIVING\<rparr>)"
| turned: "reachable U P w \<Longrightarrow> LIVING \<le> manager_life_state w \<Longrightarrow> manager_life_state w < DEAD \<Longrightarrow>
     await_message U (resume U P n) w = Inr (x, w') \<Longrightarrow> reachable U P w'"

text \<open>What is required of liburing's constructor: a ring that is set up has taken no request yet.\<close>

definition starts_empty :: "'r uring \<Rightarrow> ('r \<Rightarrow> nat) \<Rightarrow> bool" where
  "starts_empty U infl \<longleftrightarrow>
     (\<forall>n wq ret r fd. u_queue_init U n wq = (ret, r, fd) \<longrightarrow> \<not> ret <s 0 \<longrightarrow> infl r = 0)"

lemma raw_sound: "heap_sound (raw_manager fd instances iov r)"
  by (simp add: heap_sound_def heap_ok_def raw_manager_def managed_def new_ItemStore_def
      ownership_def frames_inv_def owners_inv_def addrs_inv_def ptrs_def dones_def)

lemma construct_sound:
  fixes w :: "('u, 'h, 'r) em_world"
  assumes run: "EventManager_construct U d (raw_manager fd instances iov r) = Inr (x, w)"
  shows "heap_sound w \<and> tagged w \<and> ring_lives w \<and> closed_idle w" and "starts_empty U infl \<Longrightarrow> accounted infl w"
proof -
  let ?raw = "raw_manager fd instances iov r :: ('u, 'h, 'r) em_world"
  from run obtain t v where t: "spawn KillInternalBegin ?raw = Inr (t, v)"
      and init: "ring_setup U d (v\<lparr>kill_coro_task := t\<rparr>) = Inr (x, w)"
    by (auto simp: EventManager_construct_def run_iffs)
  have "evolves infl ?raw v" by (rule keepsD [OF evolve_spawn t])
  then have "heap_sound v" by (simp add: evolves_def raw_sound)
  have rest: "requests v = requests ?raw" "ring_open v = ring_open ?raw"
      "manager_life_state v = manager_life_state ?raw" "in_flight_requests v = in_flight_requests ?raw"
    using t by (auto simp: spawn_Inr new_coroutine_Inr)
  obtain ret r' rfd where q: "u_queue_init U (ucast d) (if shared_ring_fd v = -1 \<or> ring_instances v = 0
      then None else Some (shared_ring_fd v)) = (ret, r', rfd)"
    by (cases "u_queue_init U (ucast d) (if shared_ring_fd v = -1 \<or> ring_instances v = 0
      then None else Some (shared_ring_fd v))")
  have parts: "heap_of w = heap_of v" "next_addr w = next_addr v" "requests w = requests v"
      "in_flight_requests w = in_flight_requests v"
    using init q by (auto simp: ring_setup_def Let_def bindM_Inr_iff heap_of_def split: if_splits)
  have life: "manager_life_state w = DEAD \<and> ring_open w = ring_open v \<or>
      manager_life_state w = manager_life_state v \<and> ring_open w \<and> ring w = r' \<and> \<not> ret <s 0"
    using init q by (auto simp: ring_setup_def Let_def bindM_Inr_iff split: if_splits)
  have "heap_sound w" using heap_sound_cong [OF parts(1)] parts(2) \<open>heap_sound v\<close> by simp
  moreover have "tagged w" using rest parts by (simp add: tagged_def raw_manager_def)
  moreover have "ring_lives w"
    using life rest by (auto simp: ring_lives_def raw_manager_def)
  moreover have "closed_idle w"
    using rest parts by (simp add: closed_idle_def raw_manager_def)
  ultimately show "heap_sound w \<and> tagged w \<and> ring_lives w \<and> closed_idle w" by blast
  assume "starts_empty U infl"
  with q have "\<not> ret <s 0 \<Longrightarrow> infl r' = 0" unfolding starts_empty_def by blast
  with life rest parts show "accounted infl w"
    by (auto simp: accounted_def raw_manager_def)
qed

text \<open>A state is reached from the one after the constructor by steps that make progress.\<close>

lemma register_progresses: "keeps (progresses (tally U infl)) (register_coro_fn U P n u)"
  unfolding register_coro_fn_def
  by (auto intro!: keeps_progresses evolving.keeps_rules evolve program.evolve_register_coro)

lemma reachable_progress:
  assumes "reachable U P w"
  obtains d fd instances iov r x w0
  where "EventManager_construct U d (raw_manager fd instances iov r) = Inr (x, w0)"
    and "progresses (tally U infl) w0 w"
  using assms
proof (induction arbitrary: thesis rule: reachable.induct)
  case (constructed d fd instances iov r x w)
  then show ?case using progress.refl by blast
next
  case (registered w n u x w')
  from registered.IH obtain d fd instances iov r y w0
    where 0: "EventManager_construct U d (raw_manager fd instances iov r) = Inr (y, w0)"
      "progresses (tally U infl) w0 w" .
  have "progresses (tally U infl) w w'" by (rule keepsD [OF register_progresses registered.hyps(2)])
  with 0 registered.prems show ?case using progress.trans by blast
next
  case (started w)
  from started.IH obtain d fd instances iov r y w0
    where 0: "EventManager_construct U d (raw_manager fd instances iov r) = Inr (y, w0)"
      "progresses (tally U infl) w0 w" .
  have "progresses (tally U infl) w (w\<lparr>manager_life_state := LIVING\<rparr>)"
    using started.hyps(2) by (intro evolves_progresses evolve_life) (auto simp: LivingState_order)
  with 0 started.prems show ?case using progress.trans by blast
next
  case (turned w n x w')
  from turned.IH obtain d fd instances iov r y w0
    where 0: "EventManager_construct U d (raw_manager fd instances iov r) = Inr (y, w0)"
      "progresses (tally U infl) w0 w" .
  have "progresses (tally U infl) w w'"
    by (rule keepsD [OF program.await_message_progresses turned.hyps(4)]) simp
  with 0 turned.prems show ?case using progress.trans by blast
qed

lemma reachable_sound:
  assumes "reachable U P w"
  shows "heap_sound w" and "tagged w" and "ring_lives w" and "closed_idle w"
    and "counts U infl \<Longrightarrow> starts_empty U infl \<Longrightarrow> accounted infl w"
proof -
  obtain d fd instances iov r x w0
    where 0: "EventManager_construct U d (raw_manager fd instances iov r) = Inr (x, w0)"
      and p: "progresses (tally U infl) w0 w"
    by (rule reachable_progress [OF assms])
  from construct_sound(1) [OF 0] p show "heap_sound w" "tagged w" "ring_lives w" "closed_idle w"
    by (auto simp: progresses_def)
  assume "counts U infl" "starts_empty U infl"
  with construct_sound(2) [OF 0] p show "accounted infl w" by (simp add: progresses_def)
qed

text \<open>\<open>run_main\<close> stays inside.\<close>

lemma reachable_registers:
  "reachable U P w \<Longrightarrow> mapM (register_coro_fn U P n) us w = Inr (x, w') \<Longrightarrow> reachable U P w'"
  by (induction us arbitrary: w x) (auto simp: bindM_Inr_iff intro: reachable.registered)

lemma reachable_loop:
  "reachable U P w \<Longrightarrow> LIVING \<le> manager_life_state w \<Longrightarrow>
     start_loop U (resume U P m) n w = Inr (x, w') \<Longrightarrow> reachable U P w' \<and> manager_life_state w' = DEAD"
proof (induction n arbitrary: w)
  case 0
  then show ?case by simp
next
  case (Suc n)
  show ?case
  proof (cases "manager_life_state w < DEAD")
    case True
    with Suc.prems(3) obtain y v where v: "await_message U (resume U P m) w = Inr (y, v)"
        and go: "start_loop U (resume U P m) n v = Inr (x, w')"
      by (auto simp: run_iffs)
    have "reachable U P v" by (rule reachable.turned [OF Suc.prems(1,2) True v])
    moreover have "progresses (tally U no_tally) w v"
      by (rule keepsD [OF program.await_message_progresses v]) simp
    ultimately show ?thesis
      using Suc.IH [OF _ _ go] Suc.prems(2) by (auto simp: progresses_def)
  next
    case False
    then have "manager_life_state w = DEAD"
      by (cases "manager_life_state w") (simp_all add: LivingState_order)
    with Suc.prems show ?thesis by (simp add: run_iffs LivingState_order)
  qed
qed

lemma reachable_start:
  assumes "reachable U P w" and "start U (resume U P m) n w = Inr (x, w')"
  shows "reachable U P w' \<and> (if LIVING \<le> manager_life_state w then w' = w
    else manager_life_state w' = DEAD)"
proof (cases "LIVING \<le> manager_life_state w")
  case True
  with assms show ?thesis by (simp add: start_def run_iffs)
next
  case False
  with assms(2) have "start_loop U (resume U P m) n (w\<lparr>manager_life_state := LIVING\<rparr>) = Inr (x, w')"
    by (simp add: start_def bindM_run thenM_run)
  with False show ?thesis
    using reachable_loop [OF reachable.started [OF assms(1)]] by simp
qed

lemma scripted_starts_empty: "starts_empty (scripted s) sim_infl"
  by (simp add: starts_empty_def sim_infl_def)

text \<open>A reachable state to apply the theorems to: the README's coroutine waits for its read.\<close>

lemma readme_registered:
  "\<exists>w :: (readme_point, unit, sim_ring) em_world.
     thenM (EventManager_construct (scripted [0]) 10)
       (register_coro_fn (scripted [0]) (plain_program False (readme_coro 7 64)) 30 ReadmeBegin)
       fresh_manager = Inr ((), w) \<and>
     reachable (scripted [0]) (plain_program False (readme_coro 7 64)) w \<and> ring_open w \<and>
     in_flight_requests w = 1 \<and> (\<exists>d. requests w 6 = Some d \<and> req_type d = READ) \<and>
     (\<exists>w'. resume (scripted [0]) (plain_program False (readme_coro 7 64)) 20 0 w = Inr ((), w') \<and>
        manager_life_state w' = DYING)"
proof -
  let ?P = "plain_program False (readme_coro 7 64) :: (readme_point, unit) program"
  have "\<exists>w0. EventManager_construct (scripted [0]) 10 (fresh_manager :: (readme_point, unit, sim_ring) em_world)
      = Inr ((), w0) \<and> (\<exists>w. register_coro_fn (scripted [0]) ?P 30 ReadmeBegin w0 = Inr ((), w) \<and>
        ring_open w \<and> in_flight_requests w = 1 \<and> (\<exists>d. requests w 6 = Some d \<and> req_type d = READ) \<and>
        (\<exists>w'. resume (scripted [0]) ?P 20 0 w = Inr ((), w') \<and> manager_life_state w' = DYING))"
    by (simp add: evaluation word_sless_alt)
  then obtain w0 w where 0: "EventManager_construct (scripted [0]) 10
      (fresh_manager :: (readme_point, unit, sim_ring) em_world) = Inr ((), w0)"
      and 1: "register_coro_fn (scripted [0]) ?P 30 ReadmeBegin w0 = Inr ((), w)"
      and rest: "ring_open w" "in_flight_requests w = 1" "\<exists>d. requests w 6 = Some d \<and> req_type d = READ"
        "\<exists>w'. resume (scripted [0]) ?P 20 0 w = Inr ((), w') \<and> manager_life_state w' = DYING"
    by blast
  have "reachable (scripted [0]) ?P w" by (rule reachable.registered [OF reachable.constructed [OF 0] 1])
  moreover have "thenM (EventManager_construct (scripted [0]) 10)
       (register_coro_fn (scripted [0]) ?P 30 ReadmeBegin) fresh_manager = Inr ((), w)"
    using 0 1 by (simp add: thenM_run)
  ultimately show ?thesis using rest by blast
qed

subsection \<open>What holds in every reachable state\<close>

text \<open>
  C1. The ownership of coroutines is sound in every state a program reaches, whatever its coroutines and
  callbacks do and whatever the kernel answers: with the managed tasks counted in, each frame and each
  status has at most one \<open>EvTask\<close> that owns it, a task and its frame agree on the status they share, a
  status is done exactly when its frame is gone. And the ring is open exactly until the manager is dead.
\<close>

theorem reachable_ownership:
  assumes "reachable U P w"
  shows "heap_ok w (items (managed_coroutines_store w)) \<and>
    (ring_open w \<longleftrightarrow> manager_life_state w \<noteq> DEAD)"
  using reachable_sound(1,3) [OF assms] by (simp add: heap_sound_def managed_def ring_lives_def)

theorem reachable_ownership_witness:
  "\<exists>w :: (readme_point, unit, sim_ring) em_world.
     thenM (EventManager_construct (scripted [0]) 10)
       (register_coro_fn (scripted [0]) (plain_program False (readme_coro 7 64)) 30 ReadmeBegin)
       fresh_manager = Inr ((), w) \<and> heap_ok w (items (managed_coroutines_store w))"
  using readme_registered reachable_ownership by blast

text \<open>
  C8. The tag of a request and its union agree in every reachable state, so that the switch of the event
  handler never reads a member of the union that is not active: it builds the response that the
  parameters of the request call for, of the type that is published.
\<close>

theorem reachable_requests_tagged:
  assumes "reachable U P w" and "requests w r = Some d"
  shows "handler_response (req_type d) res iov (specific_data d) =
      Some (completion_response res iov (specific_data d)) \<and>
    RespData_type (completion_response res iov (specific_data d)) = req_type d"
  using well_tagged_response [OF taggedD [OF reachable_sound(2) [OF assms(1)] assms(2)]]
    taggedD [OF reachable_sound(2) [OF assms(1)] assms(2)]
  by (simp add: well_tagged_def)

theorem reachable_requests_tagged_witness:
  "\<exists>(w :: (readme_point, unit, sim_ring) em_world) d. requests w 6 = Some d \<and> req_type d = READ \<and>
     handler_response READ (-5) (\<lambda>p. p) (specific_data d) =
       Some (completion_response (-5) (\<lambda>p. p) (specific_data d))"
proof -
  from readme_registered obtain w :: "(readme_point, unit, sim_ring) em_world" and d
    where w: "reachable (scripted [0]) (plain_program False (readme_coro 7 64)) w"
      and d: "requests w 6 = Some d" "req_type d = READ" by blast
  from reachable_requests_tagged [OF w d(1), of "-5" "\<lambda>p. p"] d show ?thesis by auto
qed

text \<open>
  C2. \<open>_in_flight_requests\<close> is exact in every reachable state of a ring that is open: it is the number of
  requests the kernel has taken whose completions have not been marked seen. It does not wrap, and it is
  0 exactly when nothing is in flight, which is what \<open>kill\<close> waits for.
\<close>

theorem in_flight_exact:
  assumes "counts U infl" and "starts_empty U infl" and "reachable U P w" and "ring_open w"
  shows "unat (in_flight_requests w) = infl (ring w) \<and> (in_flight_requests w = 0 \<longleftrightarrow> infl (ring w) = 0)"
proof -
  have "unat (in_flight_requests w) = infl (ring w)"
    using reachable_sound(5) [OF assms(3,1,2)] assms(4) by (simp add: accounted_def)
  then show ?thesis by (metis unat_eq_zero)
qed

theorem in_flight_exact_witness:
  "\<exists>w :: (readme_point, unit, sim_ring) em_world. in_flight_requests w = 1 \<and> sim_infl (ring w) = 1"
proof -
  from readme_registered obtain w :: "(readme_point, unit, sim_ring) em_world"
    where w: "reachable (scripted [0]) (plain_program False (readme_coro 7 64)) w" "ring_open w"
      and one: "in_flight_requests w = 1" by blast
  from in_flight_exact [OF scripted_counts scripted_starts_empty w] one
  have "in_flight_requests w = 1 \<and> sim_infl (ring w) = 1" by simp
  then show ?thesis by blast
qed

text \<open>
  C6. The ring is never torn down under a request. A resumption of any coroutine, with everything that
  runs inside it, moves the life of the manager only forward; where it closes the ring, the kernel had no
  request when it began, and the counter is 0 when it ends: since nothing is counted on a closed
  ring, it was 0 when the ring was closed, so that no request the resumption itself submitted, such as
  the cancellation of \<open>kill\<close>, was in flight then. And in every state a program reaches whose ring is
  closed nothing is in flight.
\<close>

theorem ring_closed_when_idle:
  assumes "counts U infl" and "accounted infl w" and "resume U P n h w = Inr (x, w')"
    and "reachable U P v"
  shows "manager_life_state w \<le> manager_life_state w' \<and>
    (ring_open w \<and> \<not> ring_open w' \<longrightarrow> infl (ring w) = 0 \<and> in_flight_requests w' = 0) \<and>
    (\<not> ring_open w \<longrightarrow> in_flight_requests w' = in_flight_requests w) \<and>
    (\<not> ring_open v \<longrightarrow> in_flight_requests v = 0 \<and> manager_life_state v = DEAD)"
proof -
  have "evolves infl w w'"
    using keepsD [OF evolve_resume [OF tallies_tally] assms(3), of infl] assms(1) by simp
  then show ?thesis using assms(2) reachable_sound(3,4) [OF assms(4)]
    by (auto simp: evolves_def evolves_rest_def no_loss_def closed_idle_def ring_lives_def)
qed

text \<open>
  The coroutine of \<open>kill\<close>, resumed on a new manager, waits for its cancellation; resumed again when
  the completion of the cancellation has been seen, it closes the ring.
\<close>

lemma kill_resumed:
  "\<exists>w0 w w' :: (readme_point, unit, sim_ring) em_world.
     EventManager_construct (scripted [0]) 10 fresh_manager = Inr ((), w0) \<and>
     thenM (resume (scripted [0]) (plain_program False (readme_coro 7 64)) 20 0) (seen (scripted [0]) 0) w0 =
       Inr ((), w) \<and>
     resume (scripted [0]) (plain_program False (readme_coro 7 64)) 20 0 w = Inr ((), w') \<and>
     in_flight_requests w = 0 \<and> sim_taken (ring w) = [] \<and> ring_open w \<and> \<not> ring_open w'"
  by (simp add: evaluation seen_def)

theorem ring_closed_when_idle_witness:
  "\<exists>w w' :: (readme_point, unit, sim_ring) em_world.
     resume (scripted [0]) (plain_program False (readme_coro 7 64)) 20 0 w = Inr ((), w') \<and>
     ring_open w \<and> \<not> ring_open w' \<and> sim_infl (ring w) = 0 \<and> in_flight_requests w' = 0"
proof -
  from kill_resumed obtain w0 w w' :: "(readme_point, unit, sim_ring) em_world"
    where 0: "EventManager_construct (scripted [0]) 10 fresh_manager = Inr ((), w0)"
      and run: "resume (scripted [0]) (plain_program False (readme_coro 7 64)) 20 0 w = Inr ((), w')"
      and w: "in_flight_requests w = 0" "sim_taken (ring w) = []" "ring_open w" "\<not> ring_open w'"
    by blast
  have "accounted sim_infl w" using w by (simp add: accounted_def sim_infl_def)
  from ring_closed_when_idle [OF scripted_counts this run reachable.constructed [OF 0]] w run
  show ?thesis by blast
qed

text \<open>
  C4. A \<open>main\<close> that constructs a manager, registers coroutines and starts it goes through the states of
  \<open>reachable\<close> only. \<open>start\<close> returns with the manager dead and its ring closed, unless the coroutines
  that were registered have already begun to kill it: then it returns without running the event loop.
\<close>

theorem main_refines_steps:
  assumes "run_main U P n d us (raw_manager fd instances iov r) = Inr (x, w)"
  shows "\<exists>ys v. thenM (EventManager_construct U d) (mapM (register_coro_fn U P n) us)
      (raw_manager fd instances iov r) = Inr (ys, v) \<and> reachable U P v \<and> reachable U P w \<and>
    (if LIVING \<le> manager_life_state v then w = v
     else manager_life_state w = DEAD \<and> \<not> ring_open w)"
proof -
  from assms obtain w0 y v z where 0: "EventManager_construct U d (raw_manager fd instances iov r) = Inr (z, w0)"
      and 1: "mapM (register_coro_fn U P n) us w0 = Inr (y, v)"
      and 2: "start U (resume U P n) n v = Inr (x, w)"
    by (auto simp: run_main_def thenM_Inr_iff)
  have v: "reachable U P v" by (rule reachable_registers [OF reachable.constructed [OF 0] 1])
  note w = reachable_start [OF v 2]
  then have "ring_lives w" by (blast intro: reachable_sound(3))
  with w v 0 1 show ?thesis by (auto simp: thenM_run ring_lives_def split: if_splits)
qed

theorem main_refines_steps_witness:
  "\<exists>w. run_main (scripted [0]) (plain_program True (readme_coro 7 64)) 30 10 [ReadmeBegin] fresh_manager =
       Inr ((), w) \<and> reachable (scripted [0]) (plain_program True (readme_coro 7 64)) w"
proof -
  have "\<exists>w. run_main (scripted [0]) (plain_program True (readme_coro 7 64)) 30 10 [ReadmeBegin] fresh_manager =
       Inr ((), w)"
    by (simp add: evaluation word_sless_alt split del: if_split)
  then obtain w where w: "run_main (scripted [0]) (plain_program True (readme_coro 7 64)) 30 10 [ReadmeBegin]
      fresh_manager = Inr ((), w)" by blast
  from main_refines_steps [OF w] w show ?thesis by (elim exE conjE) (intro exI conjI)
qed

end
