(* ===== verification/Spec2Isabelle.thy ===== *)
theory Spec2Isabelle
  imports Em_Errors Em_Task_Laws Em_Loop_Laws Em_Loop_Example Em_Polling_Example Em_Listener Em_Reachable
begin

text \<open>
  A model of \<open>event_manager\<close>, a C++ event loop over io_uring for C++20 coroutines, and the theorems that
  say what it guarantees and where it does not keep to it.

  \<^bold>\<open>The program.\<close> A user writes coroutines of type \<open>EvTask\<close>. A coroutine asks an \<open>EventManager\<close> for an
  operation: it awaits \<open>ev.read(...)\<close> and its eleven siblings (an awaitable takes an entry of the
  submission queue, prepares and submits it when it suspends), it calls a \<open>_na\<close> function whose response
  is collected by \<open>poll\<close>, or it fills a \<open>RequestQueue\<close> and awaits \<open>submit_and_wait\<close>. The event loop
  (\<open>start\<close>, \<open>await_message\<close>) takes completions from the ring; \<open>event_handler\<close> puts the response into the
  channel of the coroutine's promise and resumes it. \<open>kill\<close> cancels everything, waits until no request
  is in flight and closes the ring.

  \<^bold>\<open>The theories\<close>, in the order they build on each other:

  \<^item> \<open>Em_Prelude\<close>: machine types, the faults a run can end in, the state monad with faults, and the
    locale \<open>keeping\<close> of two-state relations that compose.
  \<^item> \<open>Em_Errors\<close> (\<open>errors.hpp\<close>): error variants and the table of errnos.
  \<^item> \<open>Em_Channel\<close> (\<open>communication/\<close>): response packs, the variant, the channel; locale \<open>mailbox\<close>.
  \<^item> \<open>Em_Packs\<close> (\<open>event_loop/parameter_packs.*\<close>, \<open>request_data.hpp\<close>): the packs, \<open>RequestQueue\<close>,
    \<open>RequestData\<close>.
  \<^item> \<open>Em_Store\<close> (\<open>ItemStore\<close> of \<open>event_manager.hpp\<close>): locale \<open>slots\<close>.
  \<^item> \<open>Em_Task\<close> (\<open>coroutine/task.*\<close>): frames, statuses and \<open>EvTask\<close> objects; \<open>Em_Ownership\<close>: who owns what,
    kept by every operation; \<open>Em_Task_Laws\<close>: what that means for the users of tasks.
  \<^item> \<open>Em_Manager\<close>: the state of \<open>EventManager\<close>, the parameter for liburing, the submission queue;
    \<open>Em_Evolution\<close>: the invariants of the manager and \<open>driving\<close>, the interface between an operation that
    resumes a coroutine and what the resumption runs; \<open>Em_Ring\<close>: a concrete ring to apply theorems to.
  \<^item> \<open>Em_Requests\<close> (\<open>io_awaitables.hpp\<close>, \<open>io_ops.cpp\<close>): the three ways to make a request.
  \<^item> \<open>Em_Handler\<close> (\<open>core.cpp\<close>): \<open>event_handler\<close> and \<open>register_coro\<close>. \<open>Em_Coroutines\<close>: the points at which
    coroutines are suspended. \<open>Em_Lifecycle\<close> (\<open>core.cpp\<close>): constructor, event loop, \<open>kill\<close>. \<open>Em_Batch\<close>
    (\<open>io_ops.cpp\<close>): \<open>submit_and_wait\<close> and \<open>poll\<close>.
  \<^item> \<open>Em_System\<close>: what the resumption of a frame runs, for user code as a parameter, and the
    interpretation of the interfaces on it. \<open>Em_Loop_Laws\<close>: what a completion does from the queue to the
    coroutine that waits for it, and the read of the dead request that follows. \<open>Em_Life_Laws\<close>: the loops that wait for room in the submission queue,
    the refusals while the manager dies, and the ring shared by managers. \<open>Em_Batch_Laws\<close>: the
    preparation of a batch as it was asked for, the turns of \<open>submit_and_wait\<close> and \<open>poll\<close> and the responses
    that newer ones starve, and what \<open>register_coro\<close> leaves behind.
  \<^item> \<open>Em_Examples\<close> (\<open>examples/\<close>): the example programs, their mains and their runs, for both lifetimes of
    temporaries. \<open>Em_Loop_Example\<close>: the coroutines of \<open>event_loop_example.cpp\<close>, with the global they count
    in, which await one another, submit a batch and kill the manager. \<open>Em_Polling_Example\<close>: why
    \<open>polling_example.cpp\<close> never ends. \<open>Em_Listener\<close>: \<open>setup_listener\<close> of \<open>http_example.cpp\<close> over a record of
    the functions of the system. \<open>Em_Reachable\<close>: the states a program reaches and what holds in all of them.

  \<^bold>\<open>State.\<close> One record \<open>manager\<close> holds the members of \<open>EventManager\<close>, its static members, and the heap:
  frames, statuses, \<open>EvTask\<close> objects, \<open>RequestData\<close> and awaitables, each in a map from addresses that are
  never reused. The awaitable of an awaited operation, with the request in it, is a temporary of the
  \<open>co_await\<close> expression: it is in the coroutine's frame and ends with that expression, before the next
  code of the coroutine runs (\<open>Em_System.end_temporary\<close>). \<open>event_handler\<close> reads the request after that, so as
  the language defines it every awaited completion ends in a fault (\<open>awaited_request_read_after_end\<close>,
  \<open>readme_run\<close>). The field \<open>temporaries_stay\<close> of \<open>program\<close> is \<open>False\<close> for that semantics; \<open>True\<close> stands for a
  compiler that leaves the memory of the temporary as it was while the frame lives, which is what the
  examples rely on. Theorems that do not mention the field hold for both. An access to something freed
  is the fault \<open>UseAfterFree\<close>; null dereference, resuming what is not suspended, the uninitialised
  completion and the inactive member of a union are faults too, so that a run that returns \<open>Inr\<close> has
  none of them.

  \<^bold>\<open>Resumption.\<close> \<open>handle.resume()\<close> runs a coroutine inside the operation that calls it. The operations
  take what it runs as an argument \<open>rs\<close>; \<open>Em_System.resume\<close> ties the knot with fuel. The locales
  \<open>resuming\<close>, \<open>driving\<close>, \<open>destroying\<close> and \<open>running\<close> show that each operation keeps the invariants
  whenever \<open>rs\<close> does, and \<open>program\<close> interprets them on \<open>resume\<close>, by induction on the fuel. Fuel bounds the
  depth of nested resumptions, the steps of a coroutine between suspensions, and the turns of the event
  loop; running out is the fault \<open>OutOfFuel\<close>, so that a theorem about a result \<open>Inr\<close> is about a run that
  ended. The loops with \<open>MAX_ITER\<close> recurse on that counter instead. The theorems about the example
  programs give a fuel (20 to 40) that is enough for the whole run.

  \<^bold>\<open>Parameters.\<close> liburing is a record of functions over a ring of any type. Where the number of requests
  in flight matters, \<open>counts\<close> and \<open>starts_empty\<close> state its documented behaviour; \<open>sim_uring\<close> satisfies them.
  The coroutines and callbacks of the user are functions; the choices a standard library has in
  \<open>ItemStore\<close> (which freed index, which capacity) are functions as well, and \<open>temporaries_stay\<close> is the choice
  of the compiler above. The theorems about \<open>ItemStore_insert\<close> hold for any moves of the items.

  \<^bold>\<open>Not modelled.\<close> The mutex and other threads; other managers, except for what they leave in the static
  members; what is printed; the contents of user memory, so that a program which inspects the bytes it
  read takes its decision as a parameter; the tests; the signal handlers of the examples. The queue
  passed by reference to \<open>submit_and_wait\<close> is taken by value.
\<close>

end
